(* ===== verification/Go_Net.thy ===== *)
theory Go_Net
  imports Go_Prelude
begin

text \<open>
  What the program uses of Go's \<^verbatim>\<open>strconv\<close> and \<^verbatim>\<open>net\<close>: decimal printing and parsing, IP
  addresses (always kept in their 16-byte form, as \<^verbatim>\<open>net.ParseIP\<close> returns them), CIDR
  networks and host:port strings, with the facts about them that the components share.
\<close>

unbundle bit_operations_syntax

section \<open>Decimal numbers\<close>

definition digit_char :: "nat \<Rightarrow> char" where
  "digit_char n = char_of (n + 48)"

definition is_digit :: "char \<Rightarrow> bool" where
  "is_digit c \<longleftrightarrow> 48 \<le> (of_char c :: nat) \<and> (of_char c :: nat) \<le> 57"

definition digit_val :: "char \<Rightarrow> nat" where
  "digit_val c = of_char c - 48"

fun nat_str :: "nat \<Rightarrow> string" where
  "nat_str n = (if n < 10 then [digit_char n] else nat_str (n div 10) @ [digit_char (n mod 10)])"

declare nat_str.simps [simp del]

definition int_str :: "int \<Rightarrow> string" where
  "int_str i = (if i < 0 then CHR ''-'' # nat_str (nat (- i)) else nat_str (nat i))"

definition digits_val :: "string \<Rightarrow> nat" where
  "digits_val s = foldl (\<lambda>a c. 10 * a + digit_val c) 0 s"

text \<open>\<^verbatim>\<open>strconv.Atoi\<close> and \<^verbatim>\<open>ParseInt(s, 10, 64)\<close>: an optional sign, digits, the 64-bit range.\<close>

definition signed_digits :: "bool \<Rightarrow> string \<Rightarrow> int option" where
  "signed_digits neg s =
     (if s = [] \<or> \<not> list_all is_digit s then None
      else let v = (if neg then - int (digits_val s) else int (digits_val s))
           in if - (2 ^ 63) \<le> v \<and> v < 2 ^ 63 then Some v else None)"

definition atoi :: "string \<Rightarrow> int option" where
  "atoi s = (case s of [] \<Rightarrow> None
     | c # r \<Rightarrow> if c = CHR ''-'' then signed_digits True r
               else if c = CHR ''+'' then signed_digits False r
               else signed_digits False s)"

text \<open>\<^verbatim>\<open>strconv.ParseUint(s, 10, 64)\<close>: no sign; an error is \<open>None\<close>.\<close>

definition parse_uint64 :: "string \<Rightarrow> nat option" where
  "parse_uint64 s =
     (if s = [] \<or> \<not> list_all is_digit s then None
      else if digits_val s < 2 ^ 64 then Some (digits_val s) else None)"

lemma is_digit_digit_char [simp]: "n < 10 \<Longrightarrow> is_digit (digit_char n)"
  by (simp add: is_digit_def digit_char_def of_char_of)

lemma digit_val_digit_char [simp]: "n < 10 \<Longrightarrow> digit_val (digit_char n) = n"
  by (simp add: digit_val_def digit_char_def of_char_of)

lemma nat_str_digits: "list_all is_digit (nat_str n)"
proof (induction n rule: nat_str.induct)
  case (1 n)
  then show ?case by (subst nat_str.simps) auto
qed

lemma nat_str_digit: "c \<in> set (nat_str n) \<Longrightarrow> is_digit c"
  using nat_str_digits [of n] by (simp add: list_all_iff)

lemma nat_str_not_Nil [simp]: "nat_str n \<noteq> []"
  by (subst nat_str.simps) simp

lemma digits_val_nat_str [simp]: "digits_val (nat_str n) = n"
proof (induction n rule: nat_str.induct)
  case (1 n)
  show ?case
  proof (cases "n < 10")
    case True
    then show ?thesis by (subst nat_str.simps) (simp add: digits_val_def)
  next
    case False
    with 1 have "digits_val (nat_str (n div 10)) = n div 10" by simp
    with False show ?thesis
      by (subst nat_str.simps) (simp add: digits_val_def)
  qed
qed

lemma nat_str_inject [simp]: "nat_str m = nat_str n \<longleftrightarrow> m = n"
  by (metis digits_val_nat_str)

lemma atoi_nat_str: "n < 2 ^ 63 \<Longrightarrow> atoi (nat_str n) = Some (int n)"
proof -
  assume n: "n < 2 ^ 63"
  obtain c r where cr: "nat_str n = c # r"
    by (cases "nat_str n") auto
  then have "is_digit c"
    using nat_str_digit [of c n] by simp
  then have c: "c \<noteq> CHR ''-''" "c \<noteq> CHR ''+''"
    by (auto simp: is_digit_def)
  have "int n < 2 ^ 63" using n by (metis of_nat_less_iff of_nat_numeral of_nat_power)
  then have "signed_digits False (nat_str n) = Some (int n)"
    using nat_str_digits [of n] by (simp add: signed_digits_def Let_def)
  with cr c show ?thesis by (simp add: atoi_def)
qed

lemma digit_not_colon: "is_digit c \<Longrightarrow> c \<noteq> CHR '':''"
  and digit_not_lbracket: "is_digit c \<Longrightarrow> c \<noteq> CHR ''[''"
  and digit_not_rbracket: "is_digit c \<Longrightarrow> c \<noteq> CHR '']''"
  by (auto simp: is_digit_def)

section \<open>IP addresses\<close>

type_synonym ip = bytes

definition v4_prefix :: bytes where
  "v4_prefix = replicate 10 0 @ [255, 255]"

definition parse_octet :: "string \<Rightarrow> byte option" where
  "parse_octet w =
     (if w \<noteq> [] \<and> list_all is_digit w \<and> (length w = 1 \<or> hd w \<noteq> CHR ''0'') \<and> digits_val w \<le> 255
      then Some (word_of_nat (digits_val w)) else None)"

definition parse_ipv4 :: "string \<Rightarrow> bytes option" where
  "parse_ipv4 s = (case map parse_octet (split_char (CHR ''.'') s) of
     [Some a, Some b, Some c, Some d] \<Rightarrow> Some [a, b, c, d] | _ \<Rightarrow> None)"

definition hex_val :: "char \<Rightarrow> nat option" where
  "hex_val c = (let n = of_char c :: nat in
     if 48 \<le> n \<and> n \<le> 57 then Some (n - 48)
     else if 97 \<le> n \<and> n \<le> 102 then Some (n - 87)
     else if 65 \<le> n \<and> n \<le> 70 then Some (n - 55) else None)"

definition is_hex_char :: "char \<Rightarrow> bool" where
  "is_hex_char c \<longleftrightarrow> hex_val c \<noteq> None"

definition hex_str_val :: "string \<Rightarrow> nat" where
  "hex_str_val s = foldl (\<lambda>a c. 16 * a + (case hex_val c of Some v \<Rightarrow> v | None \<Rightarrow> 0)) 0 s"

text \<open>
  The loop of \<^verbatim>\<open>netip.parseIPv6\<close> over the remaining text, the bytes read so far and the place of
  the \<open>::\<close>. \<open>None\<close> is a syntax error.
\<close>

function parse_v6_loop :: "string \<Rightarrow> bytes \<Rightarrow> nat option \<Rightarrow> (string \<times> bytes \<times> nat option) option" where
  "parse_v6_loop s ip ell =
     (if 16 \<le> length ip then Some (s, ip, ell)
      else let w = takeWhile is_hex_char s; r = drop (length w) s in
        if w = [] \<or> 4 < length w then None
        else if r \<noteq> [] \<and> hd r = CHR ''.'' then
          (if ell = None \<and> length ip \<noteq> 12 then None
           else if 16 < length ip + 4 then None
           else map_option (\<lambda>q. ([], ip @ q, ell)) (parse_ipv4 s))
        else let v = hex_str_val w; ip' = ip @ [word_of_nat (v div 256), word_of_nat v] in
          case r of [] \<Rightarrow> Some ([], ip', ell)
          | c # r' \<Rightarrow>
            (if c \<noteq> CHR '':'' \<or> r' = [] then None
             else if hd r' = CHR '':'' then
               (if ell \<noteq> None then None
                else if tl r' = [] then Some ([], ip', Some (length ip'))
                else parse_v6_loop (tl r') ip' (Some (length ip')))
             else parse_v6_loop r' ip' ell))"
  by pat_completeness auto
termination
proof (relation "measure (\<lambda>(s, ip, ell). length s)", goal_cases)
  case 1
  then show ?case by simp
next
  case (2 s ip ell w r v ip' c r')
  then have "Suc (length r') \<le> length s"
    by (metis length_Cons diff_le_self length_drop)
  then show ?case by simp
next
  case (3 s ip ell w r v ip' c r')
  then have "Suc (length r') \<le> length s"
    by (metis length_Cons diff_le_self length_drop)
  then show ?case by simp
qed

declare parse_v6_loop.simps [simp del]

definition parse_ipv6 :: "string \<Rightarrow> ip option" where
  "parse_ipv6 s =
     (if CHR ''%'' \<in> set s then None
      else let dc = has_prefix s ''::''; s1 = (if dc then drop 2 s else s) in
        if dc \<and> s1 = [] then Some (replicate 16 0)
        else case parse_v6_loop s1 [] (if dc then Some 0 else None) of None \<Rightarrow> None
          | Some (r, ip, ell) \<Rightarrow>
            if r \<noteq> [] then None
            else if length ip < 16 then
              (case ell of None \<Rightarrow> None
               | Some e \<Rightarrow> Some (take e ip @ replicate (16 - length ip) 0 @ drop e ip))
            else if ell \<noteq> None then None else Some ip)"

text \<open>
  \<^verbatim>\<open>netip.ParseAddr\<close> without a zone: the first dot or colon decides the family. The flag says
  whether the text was an IPv4 address.
\<close>

definition parse_addr :: "string \<Rightarrow> (ip \<times> bool) option" where
  "parse_addr s =
     (case dropWhile (\<lambda>c. c \<notin> {CHR ''.'', CHR '':'', CHR ''%''}) s of [] \<Rightarrow> None
      | c # _ \<Rightarrow>
        if c = CHR ''.'' then map_option (\<lambda>q. (v4_prefix @ q, True)) (parse_ipv4 s)
        else if c = CHR '':'' then map_option (\<lambda>q. (q, False)) (parse_ipv6 s)
        else None)"

definition parse_ip :: "string \<Rightarrow> ip option" where
  "parse_ip s = map_option fst (parse_addr s)"

definition ip_to4 :: "ip \<Rightarrow> bytes option" where
  "ip_to4 a = (if length a = 4 then Some a
     else if length a = 16 \<and> take 12 a = v4_prefix then Some (drop 12 a) else None)"

definition ip_is_loopback :: "ip \<Rightarrow> bool" where
  "ip_is_loopback a = (case ip_to4 a of Some q \<Rightarrow> hd q = 127 | None \<Rightarrow> a = replicate 15 0 @ [1])"

definition ip_is_unspecified :: "ip \<Rightarrow> bool" where
  "ip_is_unspecified a \<longleftrightarrow> a = v4_prefix @ [0, 0, 0, 0] \<or> a = replicate 16 0"

lemma length_parse_ipv4: "parse_ipv4 s = Some q \<Longrightarrow> length q = 4"
  by (auto simp: parse_ipv4_def split: list.splits option.splits)

lemma parse_v6_loop_full: "16 \<le> length ip \<Longrightarrow> parse_v6_loop s ip ell = Some (s, ip, ell)"
  by (subst parse_v6_loop.simps) simp

lemma parse_v6_loop_more:
  assumes "\<not> 16 \<le> length ip" and "w = takeWhile is_hex_char s" and "r0 = drop (length w) s"
    and "ip1 = ip @ [word_of_nat (hex_str_val w div 256), word_of_nat (hex_str_val w)]"
  shows "parse_v6_loop s ip ell =
    (if w = [] \<or> 4 < length w then None
     else if r0 \<noteq> [] \<and> hd r0 = CHR ''.'' then
       (if ell = None \<and> length ip \<noteq> 12 then None
        else if 16 < length ip + 4 then None
        else map_option (\<lambda>q. ([], ip @ q, ell)) (parse_ipv4 s))
     else case r0 of [] \<Rightarrow> Some ([], ip1, ell)
       | c # r' \<Rightarrow>
         (if c \<noteq> CHR '':'' \<or> r' = [] then None
          else if hd r' = CHR '':'' then
            (if ell \<noteq> None then None
             else if tl r' = [] then Some ([], ip1, Some (length ip1))
             else parse_v6_loop (tl r') ip1 (Some (length ip1)))
          else parse_v6_loop r' ip1 ell))"
  unfolding assms(2-4) using assms(1)
  by (subst parse_v6_loop.simps) (simp only: Let_def if_False)

lemma parse_v6_loop_length:
  "parse_v6_loop s ip ell = Some (r, ip', ell') \<Longrightarrow> length ip \<le> 16 \<Longrightarrow> even (length ip) \<Longrightarrow>
   (\<And>e. ell = Some e \<Longrightarrow> e \<le> length ip) \<Longrightarrow>
   length ip' \<le> 16 \<and> (\<forall>e. ell' = Some e \<longrightarrow> e \<le> length ip')"
proof (induction s ip ell arbitrary: r ip' ell' rule: parse_v6_loop.induct)
  case (1 s ip ell)
  show ?case
  proof (cases "16 \<le> length ip")
    case True
    with "1.prems" show ?thesis by (auto simp: parse_v6_loop_full)
  next
    case False
    with "1.prems"(3) have le: "length ip + 2 \<le> 16"
      by presburger
    define w where "w = takeWhile is_hex_char s"
    define r0 where "r0 = drop (length w) s"
    define ip1 where "ip1 = ip @ [word_of_nat (hex_str_val w div 256) :: byte, word_of_nat (hex_str_val w)]"
    have len1: "length ip1 \<le> 16" "even (length ip1)" "length ip \<le> length ip1"
      using le "1.prems"(3) by (simp_all add: ip1_def)
    note eq = parse_v6_loop_more [OF False w_def r0_def ip1_def, of ell]
    show ?thesis
    proof (cases "w = [] \<or> 4 < length w \<or> r0 = [] \<or> hd r0 = CHR ''.''")
      case True
      with eq "1.prems" len1 show ?thesis
        by (cases "parse_ipv4 s")
          (auto split: if_splits list.splits dest!: length_parse_ipv4 intro: le_trans)
    next
      case nodot: False
      then have w: "\<not> (w = [] \<or> 4 < length w)" and nd: "\<not> (r0 \<noteq> [] \<and> hd r0 = CHR ''.'')"
        by auto
      from nodot obtain c r' where r0: "r0 = c # r'"
        by (cases r0) auto
      note IH = "1.IH" [OF False w_def r0_def w nd refl ip1_def r0]
      have mono: "\<And>e. ell = Some e \<Longrightarrow> e \<le> length ip1"
        using "1.prems"(4) len1(3) le_trans by blast
      from "1.prems"(1) have "(if c \<noteq> CHR '':'' \<or> r' = [] then None
          else if hd r' = CHR '':'' then
            (if ell \<noteq> None then None
             else if tl r' = [] then Some ([], ip1, Some (length ip1))
             else parse_v6_loop (tl r') ip1 (Some (length ip1)))
          else parse_v6_loop r' ip1 ell) = Some (r, ip', ell')"
        unfolding eq using w nd r0 by simp
      then show ?thesis
        using IH len1 mono by (auto split: if_splits)
    qed
  qed
qed

lemma length_parse_ipv6: "parse_ipv6 s = Some q \<Longrightarrow> length q = 16"
  by (auto simp: parse_ipv6_def Let_def split: if_splits option.splits prod.splits
      dest!: parse_v6_loop_length)

lemma length_parse_addr: "parse_addr s = Some (a, f) \<Longrightarrow> length a = 16"
  by (auto simp: parse_addr_def v4_prefix_def split: list.splits if_splits
      dest!: length_parse_ipv4 length_parse_ipv6)

lemma length_parse_ip: "parse_ip s = Some a \<Longrightarrow> length a = 16"
  by (auto simp: parse_ip_def dest: length_parse_addr)

lemma ip_to4_length: "ip_to4 a = Some q \<Longrightarrow> length q = 4"
  by (auto simp: ip_to4_def split: if_splits)


text \<open>
  \<^verbatim>\<open>IP.String\<close>: the four octets, or the eight groups with the first longest run of at least two
  zero groups written as \<open>::\<close>.
\<close>

definition hex_digit :: "nat \<Rightarrow> char" where
  "hex_digit n = (if n < 10 then char_of (n + 48) else char_of (n + 87))"

fun hex_nat :: "nat \<Rightarrow> string" where
  "hex_nat n = (if n < 16 then [hex_digit n] else hex_nat (n div 16) @ [hex_digit (n mod 16)])"

declare hex_nat.simps [simp del]

fun ip_groups :: "bytes \<Rightarrow> nat list" where
  "ip_groups (a # b # r) = (256 * unat a + unat b) # ip_groups r"
| "ip_groups _ = []"

definition zero_run :: "nat list \<Rightarrow> nat \<Rightarrow> nat" where
  "zero_run gs i = length (takeWhile (\<lambda>g. g = 0) (drop i gs))"

definition best_run :: "nat list \<Rightarrow> (nat \<times> nat) option" where
  "best_run gs = fold (\<lambda>i b. let l = zero_run gs i in
     if 2 \<le> l \<and> (case b of None \<Rightarrow> True | Some (_, m) \<Rightarrow> m < l) then Some (i, l) else b)
     [0..<length gs] None"

definition ip_str :: "ip \<Rightarrow> string" where
  "ip_str a = (case ip_to4 a of
     Some q \<Rightarrow> join_str ''.'' (map (\<lambda>b. nat_str (unat b)) q)
   | None \<Rightarrow> (let gs = ip_groups a in case best_run gs of
       None \<Rightarrow> join_str '':'' (map hex_nat gs)
     | Some (i, l) \<Rightarrow> join_str '':'' (map hex_nat (take i gs)) @ ''::''
         @ join_str '':'' (map hex_nat (drop (i + l) gs))))"

section \<open>CIDR networks\<close>

text \<open>\<^verbatim>\<open>net.IPNet\<close>: the masked address and the mask, both 4 or both 16 bytes for a parsed one.\<close>

record ipnet =
  net_ip :: bytes
  net_mask :: bytes

definition mask_byte :: "nat \<Rightarrow> byte" where
  "mask_byte n = (if 8 \<le> n then 255 else word_of_nat (256 - 2 ^ (8 - n)))"

definition cidr_mask :: "nat \<Rightarrow> nat \<Rightarrow> bytes" where
  "cidr_mask n len = map (\<lambda>i. mask_byte (n - 8 * i)) [0..<len div 8]"

definition mask_bytes :: "bytes \<Rightarrow> bytes \<Rightarrow> bytes" where
  "mask_bytes a m = map2 (AND) a m"

text \<open>\<^verbatim>\<open>net.dtoi\<close> on the whole text: digits below the limit \<open>0xFFFFFF\<close>.\<close>

definition parse_bits :: "string \<Rightarrow> nat option" where
  "parse_bits s =
     (if s \<noteq> [] \<and> list_all is_digit s \<and> digits_val s < 16777215 then Some (digits_val s) else None)"

definition parse_cidr :: "string \<Rightarrow> (ip \<times> ipnet) option" where
  "parse_cidr s = (case index_char s (CHR ''/'') of None \<Rightarrow> None
     | Some i \<Rightarrow> (case (parse_addr (take i s), parse_bits (drop (Suc i) s)) of
         (Some (a, v4), Some n) \<Rightarrow>
           (let bits = (if v4 then 32 else 128) in
            if bits < n then None
            else Some (a, (let m = cidr_mask n bits; b = (if v4 then drop 12 a else a)
                           in \<lparr>net_ip = mask_bytes b m, net_mask = m\<rparr>)))
       | _ \<Rightarrow> None))"

definition net_contains :: "ipnet \<Rightarrow> ip option \<Rightarrow> bool" where
  "net_contains n a =
     (let nn = (case ip_to4 (net_ip n) of Some q \<Rightarrow> q | None \<Rightarrow> net_ip n);
          m = (if length nn = 4 \<and> length (net_mask n) = 16 then drop 12 (net_mask n) else net_mask n)
      in case a of None \<Rightarrow> False
         | Some a' \<Rightarrow> (let x = (case ip_to4 a' of Some q \<Rightarrow> q | None \<Rightarrow> a')
             in length x = length nn \<and> length m = length nn \<and> mask_bytes nn m = mask_bytes x m))"

section \<open>host:port\<close>

definition join_host_port :: "string \<Rightarrow> string \<Rightarrow> string" where
  "join_host_port h p =
     (if CHR '':'' \<in> set h then ''['' @ h @ '']:'' @ p else h @ '':'' @ p)"

definition split_host_port :: "string \<Rightarrow> (string \<times> string) option" where
  "split_host_port s = (case last_index_char s (CHR '':'') of None \<Rightarrow> None
     | Some i \<Rightarrow>
       if hd s = CHR ''['' then
         (case index_char s (CHR '']'') of None \<Rightarrow> None
          | Some e \<Rightarrow>
            if e + 1 \<noteq> i then None
            else if CHR ''['' \<in> set (drop 1 s) then None
            else if CHR '']'' \<in> set (drop (e + 1) s) then None
            else Some (drop 1 (take e s), drop (i + 1) s))
       else if CHR '':'' \<in> set (take i s) then None
       else if CHR ''['' \<in> set s \<or> CHR '']'' \<in> set s then None
       else Some (take i s, drop (i + 1) s))"

lemma split_join_host_port:
  assumes "CHR ''['' \<notin> set h" "CHR '']'' \<notin> set h"
    and "CHR '':'' \<notin> set p" "CHR ''['' \<notin> set p" "CHR '']'' \<notin> set p"
  shows "split_host_port (join_host_port h p) = Some (h, p)"
proof (cases "CHR '':'' \<in> set h")
  case True
  have "last_index_char ((''['' @ h @ '']'') @ CHR '':'' # p) (CHR '':'') = Some (length h + 2)"
    using assms(3) by (subst last_index_char_append) auto
  moreover have "index_char ((''['' @ h) @ CHR '']'' # ('':'' @ p)) (CHR '']'') = Some (length h + 1)"
    using assms(2) by (subst index_char_append) auto
  ultimately show ?thesis
    using True assms by (simp add: join_host_port_def split_host_port_def)
next
  case False
  have "last_index_char (h @ CHR '':'' # p) (CHR '':'') = Some (length h)"
    using assms(3) by (rule last_index_char_append)
  moreover have "hd (h @ CHR '':'' # p) \<noteq> CHR ''[''"
    using assms(1) by (cases h) auto
  ultimately show ?thesis
    using False assms by (simp add: join_host_port_def split_host_port_def)
qed

text \<open>The port of an address that splits is what follows its last colon.\<close>

lemma split_host_port_port:
  "split_host_port s = Some (h, p) \<Longrightarrow> CHR '':'' \<notin> set p \<and> (\<exists>t. s = t @ CHR '':'' # p)"
  by (auto simp: split_host_port_def split: option.splits if_splits dest!: last_index_char_Some)

end
