(* ===== verification/Rules.thy ===== *)
theory Rules
  imports Go_Net
begin

text \<open>
  \<^verbatim>\<open>internal/rules/rules.go\<close>: the rule and import types, their checks, the reference matcher
  that the compiled one is measured against, and the parsers of downloaded rule sets.

  The pattern language of Go's \<^verbatim>\<open>regexp\<close> is a parameter, the record \<open>regexp_pkg\<close>: which
  patterns compile and which texts a pattern matches. The two patterns that the code itself
  fixes are written out as character tests.
\<close>

section \<open>Types\<close>

record regexp_pkg =
  re_compiles :: "string \<Rightarrow> bool"
  re_matches :: "string \<Rightarrow> string \<Rightarrow> bool"

record rule =
  rl_name :: string
  rl_priority :: int
  rl_exit :: string
  rl_dns_pool :: string
  rl_domain :: "string list"
  rl_domain_suffix :: "string list"
  rl_domain_keyword :: "string list"
  rl_domain_regex :: "string list"
  rl_ip_cidr :: "string list"
  rl_rule_set :: "string list"

record rule_import =
  im_name :: string
  im_priority :: int
  im_type :: string
  im_path :: string
  im_url :: string
  im_format :: string
  im_exit :: string
  im_dns_pool :: string

record rules_file =
  rf_imports :: "rule_import list"
  rf_rules :: "rule list"

text \<open>The text of a warning's detail is kept as the data it prints.\<close>

datatype warning_detail =
    ValuesNotSupported nat
  | NoMatchersLeft
  | ValueNotSupportedBySmartdns string
  | ValueNotSupportedBy5gws string

record warning =
  w_import :: string
  w_rule :: string
  w_matcher :: string
  w_detail :: warning_detail

record normalized =
  n_rules :: "rule list"
  n_warnings :: "warning list"

datatype read_error =
    ReadFileFailed
  | PathOrUrlRequired
  | CacheFailed
  | RequestFailed
  | DownloadFailed nat
  | NotModifiedWithoutBody

datatype rules_error =
    RuleNameRequired
  | RuleNegativePriority string
  | RuleNotExactlyOneTarget string
  | RuleInvalidPool string string
  | RuleNoMatchers string
  | RuleInvalidRegex string string
  | UnknownPoolInRule string string
  | UnknownPoolInImport string string
  | ImportNameTypeRequired
  | ImportNegativePriority string
  | ImportNotExactlyOneTarget string
  | ImportInvalidPool string string
  | ImportReadError string read_error
  | ImportUnsupportedType string string
  | ImportDecodeError string
  | ImportNoRules string
  | ImportEmptyPayload string
  | InvalidPayloadLine string string
  | EmptyPayloadMatcher string string
  | CompileEmptyDomain string
  | CompileEmptySuffix string
  | CompileBadRegex string string
  | ManagedRuleNotOnce string
  | ManagedRuleModified string
  | ManagedImportNotOnce string
  | ManagedImportModified string

definition empty_rule :: rule where
  "empty_rule = \<lparr>rl_name = [], rl_priority = 0, rl_exit = [], rl_dns_pool = [], rl_domain = [],
     rl_domain_suffix = [], rl_domain_keyword = [], rl_domain_regex = [], rl_ip_cidr = [],
     rl_rule_set = []\<rparr>"

section \<open>The rule predicates\<close>

definition gateway :: "rule \<Rightarrow> bool" where
  "gateway r \<longleftrightarrow> rl_exit r \<noteq> []"

definition dns_only :: "rule \<Rightarrow> bool" where
  "dns_only r \<longleftrightarrow> rl_dns_pool r \<noteq> []"

definition rule_empty :: "rule \<Rightarrow> bool" where
  "rule_empty r \<longleftrightarrow> rl_domain r = [] \<and> rl_domain_suffix r = [] \<and> rl_domain_keyword r = [] \<and>
     rl_domain_regex r = [] \<and> rl_ip_cidr r = [] \<and> rl_rule_set r = []"

definition gateway_rules :: "normalized \<Rightarrow> rule list" where
  "gateway_rules n = filter gateway (n_rules n)"

definition dns_pool_rules :: "normalized \<Rightarrow> rule list" where
  "dns_pool_rules n = filter dns_only (n_rules n)"

section \<open>The reference matcher\<close>

definition suffix_matches :: "string \<Rightarrow> string \<Rightarrow> bool" where
  "suffix_matches host suffix \<longleftrightarrow> host = suffix \<or> has_suffix host (''.'' @ suffix)"

text \<open>
  The last loop of \<^verbatim>\<open>matchRuleDomain\<close> compiles each pattern with \<^verbatim>\<open>regexp.MustCompile\<close>, which
  panics on a bad one.
\<close>

fun match_regexes :: "regexp_pkg \<Rightarrow> string list \<Rightarrow> string \<Rightarrow> bool go" where
  "match_regexes re [] host = Ret False"
| "match_regexes re (p # ps) host =
     (if \<not> re_compiles re p then Panic
      else if re_matches re p host then Ret True
      else match_regexes re ps host)"

definition match_rule_domain :: "regexp_pkg \<Rightarrow> rule \<Rightarrow> string \<Rightarrow> bool go" where
  "match_rule_domain re r host =
     (if list_ex (\<lambda>v. equal_fold (trim_suffix v ''.'') host) (rl_domain r) then Ret True
      else if list_ex (\<lambda>v. suffix_matches host
          (to_lower (trim_prefix (trim_suffix v ''.'') ''.''))) (rl_domain_suffix r) then Ret True
      else if list_ex (\<lambda>v. contains_str host (to_lower v)) (rl_domain_keyword r) then Ret True
      else match_regexes re (rl_domain_regex r) host)"

fun first_match :: "regexp_pkg \<Rightarrow> string \<Rightarrow> rule list \<Rightarrow> rule option go" where
  "first_match re host [] = Ret None"
| "first_match re host (r # rs) =
     go_bind (match_rule_domain re r host)
       (\<lambda>b. if b then Ret (Some r) else first_match re host rs)"

definition match_domain :: "regexp_pkg \<Rightarrow> normalized \<Rightarrow> string \<Rightarrow> rule option go" where
  "match_domain re n host = first_match re (to_lower (trim_suffix host ''.'')) (n_rules n)"

definition match_gateway_domain :: "regexp_pkg \<Rightarrow> normalized \<Rightarrow> string \<Rightarrow> rule option go" where
  "match_gateway_domain re n host =
     first_match re (to_lower (trim_suffix host ''.'')) (gateway_rules n)"

section \<open>Checks\<close>

text \<open>The pattern \<^verbatim>\<open>^[A-Za-z0-9_.-]+$\<close>, shared by pool names and legacy exit names.\<close>

definition is_alnum :: "char \<Rightarrow> bool" where
  "is_alnum c \<longleftrightarrow> (let n = of_char c :: nat in
     (48 \<le> n \<and> n \<le> 57) \<or> (65 \<le> n \<and> n \<le> 90) \<or> (97 \<le> n \<and> n \<le> 122))"

definition is_name_char :: "char \<Rightarrow> bool" where
  "is_name_char c \<longleftrightarrow> is_alnum c \<or> c \<in> {CHR ''_'', CHR ''.'', CHR ''-''}"

definition valid_dns_pool_name :: "string \<Rightarrow> bool" where
  "valid_dns_pool_name s \<longleftrightarrow> s \<noteq> [] \<and> list_all is_name_char s"

definition validate_rule :: "regexp_pkg \<Rightarrow> rule \<Rightarrow> rules_error option" where
  "validate_rule re r =
     (if trim_space (rl_name r) = [] then Some RuleNameRequired
      else if rl_priority r < 0 then Some (RuleNegativePriority (rl_name r))
      else if (rl_exit r = []) = (rl_dns_pool r = []) then Some (RuleNotExactlyOneTarget (rl_name r))
      else if rl_dns_pool r \<noteq> [] \<and> \<not> valid_dns_pool_name (rl_dns_pool r)
        then Some (RuleInvalidPool (rl_name r) (rl_dns_pool r))
      else if rule_empty r then Some (RuleNoMatchers (rl_name r))
      else case find (\<lambda>v. \<not> re_compiles re v) (rl_domain_regex r) of
          Some v \<Rightarrow> Some (RuleInvalidRegex (rl_name r) v)
        | None \<Rightarrow> None)"

definition validate_dns_pool_references ::
    "rules_file \<Rightarrow> string list \<Rightarrow> rules_error option" where
  "validate_dns_pool_references f pools =
     (case find (\<lambda>r. rl_dns_pool r \<noteq> [] \<and> rl_dns_pool r \<notin> set pools) (rf_rules f) of
        Some r \<Rightarrow> Some (UnknownPoolInRule (rl_name r) (rl_dns_pool r))
      | None \<Rightarrow> (case find (\<lambda>i. im_dns_pool i \<noteq> [] \<and> im_dns_pool i \<notin> set pools) (rf_imports f) of
          Some i \<Rightarrow> Some (UnknownPoolInImport (im_name i) (im_dns_pool i))
        | None \<Rightarrow> None))"

lemma validate_rule_ok:
  assumes "validate_rule re r = None"
  shows "trim_space (rl_name r) \<noteq> []" "0 \<le> rl_priority r" "gateway r \<noteq> dns_only r"
    "\<not> rule_empty r" "\<And>v. v \<in> set (rl_domain_regex r) \<Longrightarrow> re_compiles re v"
    "dns_only r \<Longrightarrow> valid_dns_pool_name (rl_dns_pool r)"
  using assms
  by (auto simp: validate_rule_def gateway_def dns_only_def find_None_iff
      split: if_splits option.splits)

text \<open>A rule that passed the checks is matched without a panic.\<close>

lemma match_regexes_total:
  "(\<And>p. p \<in> set ps \<Longrightarrow> re_compiles re p) \<Longrightarrow>
   match_regexes re ps host = Ret (list_ex (\<lambda>p. re_matches re p host) ps)"
  by (induction ps) auto

lemma match_rule_domain_total:
  assumes "\<And>p. p \<in> set (rl_domain_regex r) \<Longrightarrow> re_compiles re p"
  shows "match_rule_domain re r host = Ret (
     list_ex (\<lambda>v. equal_fold (trim_suffix v ''.'') host) (rl_domain r) \<or>
     list_ex (\<lambda>v. suffix_matches host (to_lower (trim_prefix (trim_suffix v ''.'') ''.'')))
       (rl_domain_suffix r) \<or>
     list_ex (\<lambda>v. contains_str host (to_lower v)) (rl_domain_keyword r) \<or>
     list_ex (\<lambda>p. re_matches re p host) (rl_domain_regex r))"
  using assms by (simp add: match_rule_domain_def match_regexes_total)

lemma first_match_total:
  assumes "\<And>r. r \<in> set rs \<Longrightarrow> match_rule_domain re r host = Ret (m r)"
  shows "first_match re host rs = Ret (find m rs)"
  using assms by (induction rs) auto

section \<open>Downloaded rule sets\<close>

text \<open>
  JSON values, as \<^verbatim>\<open>encoding/json\<close> hands them to the code's \<^verbatim>\<open>UnmarshalJSON\<close> methods. A number
  that is no integer literal is a \<open>JFloat\<close>; an object keeps its members in order, duplicates
  included.
\<close>

datatype json = JNull | JBool bool | JInt int | JFloat string | JStr string
  | JArr "json list" | JObj "(string \<times> json) list"

text \<open>Decoding one value into a Go \<^verbatim>\<open>string\<close>, \<^verbatim>\<open>int\<close> or slice: \<^verbatim>\<open>null\<close> leaves the zero value.\<close>

definition json_string :: "json \<Rightarrow> string option" where
  "json_string j = (case j of JStr s \<Rightarrow> Some s | JNull \<Rightarrow> Some [] | _ \<Rightarrow> None)"

definition json_int :: "json \<Rightarrow> int option" where
  "json_int j = (case j of
     JInt i \<Rightarrow> if - (2 ^ 63) \<le> i \<and> i < 2 ^ 63 then Some i else None
   | JNull \<Rightarrow> Some 0 | _ \<Rightarrow> None)"

fun json_all :: "(json \<Rightarrow> 'a option) \<Rightarrow> json list \<Rightarrow> 'a list option" where
  "json_all f [] = Some []"
| "json_all f (j # js) = (case f j of None \<Rightarrow> None
     | Some x \<Rightarrow> map_option (\<lambda>xs. x # xs) (json_all f js))"

definition json_list :: "(json \<Rightarrow> 'a option) \<Rightarrow> json \<Rightarrow> 'a list option" where
  "json_list f j = (case j of JArr js \<Rightarrow> json_all f js | JNull \<Rightarrow> Some [] | _ \<Rightarrow> None)"

definition json_string_list :: "json \<Rightarrow> string list option" where
  "json_string_list j =
     (if j = JNull then Some []
      else case json_string j of Some one \<Rightarrow> Some [one]
        | None \<Rightarrow> json_list json_string j)"

text \<open>
  \<^verbatim>\<open>map[string]json.RawMessage\<close>: the last of several equal keys wins, \<^verbatim>\<open>null\<close> is the empty map.
\<close>

definition json_fields :: "json \<Rightarrow> (string \<times> json) list option" where
  "json_fields j = (case j of JObj ms \<Rightarrow> Some ms | JNull \<Rightarrow> Some [] | _ \<Rightarrow> None)"

definition field_value :: "(string \<times> json) list \<Rightarrow> string \<Rightarrow> json option" where
  "field_value ms k = map_of (rev ms) k"

fun first_json_field :: "(string \<times> json) list \<Rightarrow> string list \<Rightarrow> json option" where
  "first_json_field ms [] = None"
| "first_json_field ms (k # ks) =
     (case field_value ms k of Some v \<Rightarrow> Some v | None \<Rightarrow> first_json_field ms ks)"

text \<open>
  A decoded Go struct takes the last member whose key is the field's name in any letter case.
\<close>

definition struct_field :: "(string \<times> json) list \<Rightarrow> string \<Rightarrow> (json \<Rightarrow> 'a option) \<Rightarrow> 'a \<Rightarrow> 'a option" where
  "struct_field ms k f z =
     fold (\<lambda>(k', v) acc. if equal_fold k' k
         then (case acc of None \<Rightarrow> None | Some a \<Rightarrow> if v = JNull then Some a else f v)
         else acc) ms (Some z)"

end
