(* ===== verification/Rule_Import.thy ===== *)
theory Rule_Import
  imports Rules
begin

text \<open>
  The import side of \<^verbatim>\<open>internal/rules\<close>: the \<^verbatim>\<open>UnmarshalJSON\<close> methods, the sing-box and mihomo
  parsers of \<^verbatim>\<open>rules.go\<close> and the two ways an import is loaded, \<^verbatim>\<open>loadImport\<close> and the resolver's
  \<^verbatim>\<open>resolveImport\<close> with its HTTP cache (\<^verbatim>\<open>resolver.go\<close>).

  The syntax of JSON and YAML documents is a parameter (\<open>decoders\<close>), as are the file system and
  the HTTP transport (\<open>net_env\<close>); what the code does with their answers is modelled.
\<close>

section \<open>UnmarshalJSON\<close>

definition decode_rule :: "json \<Rightarrow> rule option" where
  "decode_rule j = Option.bind (json_fields j) (\<lambda>ms.
     Option.bind (struct_field ms ''name'' json_string []) (\<lambda>nm.
     Option.bind (struct_field ms ''priority'' json_int 0) (\<lambda>pr.
     Option.bind (struct_field ms ''exit'' json_string []) (\<lambda>ex.
     Option.bind (struct_field ms ''dns_pool'' json_string []) (\<lambda>dp.
     Option.bind (struct_field ms ''domain'' json_string_list []) (\<lambda>d.
     Option.bind (struct_field ms ''domain_suffix'' json_string_list []) (\<lambda>ds.
     Option.bind (struct_field ms ''domain_keyword'' json_string_list []) (\<lambda>dk.
     Option.bind (struct_field ms ''domain_regex'' json_string_list []) (\<lambda>dr.
     Option.bind (struct_field ms ''ip_cidr'' json_string_list []) (\<lambda>ic.
     Option.bind (struct_field ms ''rule_set'' json_string_list []) (\<lambda>rs.
     Some \<lparr>rl_name = nm, rl_priority = pr, rl_exit = ex, rl_dns_pool = dp, rl_domain = d,
       rl_domain_suffix = ds, rl_domain_keyword = dk, rl_domain_regex = dr, rl_ip_cidr = ic,
       rl_rule_set = rs\<rparr>)))))))))))"

definition import_field_names :: "(string \<times> string) list" where
  "import_field_names = [(''name'', ''Name''), (''priority'', ''Priority''), (''type'', ''Type''),
     (''path'', ''Path''), (''url'', ''URL''), (''format'', ''Format''), (''exit'', ''Exit''),
     (''dns_pool'', ''DNSPool'')]"

datatype decode_error = DecodeSyntax | DuplicateField string string | UnknownField string | BadField string

definition import_string :: "(string \<times> json) list \<Rightarrow> string \<Rightarrow> string \<Rightarrow> decode_error + string" where
  "import_string ms lower legacy = (case first_json_field ms [lower, legacy] of None \<Rightarrow> Inr []
     | Some v \<Rightarrow> (case json_string v of None \<Rightarrow> Inl (BadField lower) | Some s \<Rightarrow> Inr s))"

text \<open>
  \<^verbatim>\<open>Import.UnmarshalJSON\<close>. The code's loops over Go maps run in no fixed order, so which of
  several errors is reported is not determined; the model takes them in the order listed.
\<close>

definition decode_import :: "json \<Rightarrow> decode_error + rule_import" where
  "decode_import j = (case json_fields j of None \<Rightarrow> Inl DecodeSyntax
     | Some ms \<Rightarrow>
       (case find (\<lambda>(lo, le). field_value ms lo \<noteq> None \<and> field_value ms le \<noteq> None) import_field_names of
          Some (lo, le) \<Rightarrow> Inl (DuplicateField lo le)
        | None \<Rightarrow>
       (case find (\<lambda>(k, v). \<not> list_ex (\<lambda>(lo, le). k = lo \<or> k = le) import_field_names) ms of
          Some (k, v) \<Rightarrow> Inl (UnknownField k)
        | None \<Rightarrow>
          bind_sum (case first_json_field ms [''priority'', ''Priority''] of None \<Rightarrow> Inr 0
            | Some v \<Rightarrow> (case json_int v of None \<Rightarrow> Inl (BadField ''priority'') | Some i \<Rightarrow> Inr i)) (\<lambda>pr.
          bind_sum (import_string ms ''name'' ''Name'') (\<lambda>nm.
          bind_sum (import_string ms ''type'' ''Type'') (\<lambda>ty.
          bind_sum (import_string ms ''path'' ''Path'') (\<lambda>pa.
          bind_sum (import_string ms ''url'' ''URL'') (\<lambda>ur.
          bind_sum (import_string ms ''format'' ''Format'') (\<lambda>fo.
          bind_sum (import_string ms ''exit'' ''Exit'') (\<lambda>ex.
          bind_sum (import_string ms ''dns_pool'' ''DNSPool'') (\<lambda>dp.
          Inr \<lparr>im_name = nm, im_priority = pr, im_type = ty, im_path = pa, im_url = ur,
            im_format = fo, im_exit = ex, im_dns_pool = dp\<rparr>)))))))))))"

definition to_option :: "'e + 'a \<Rightarrow> 'a option" where
  "to_option r = (case r of Inl _ \<Rightarrow> None | Inr x \<Rightarrow> Some x)"

definition decode_rules_file :: "json \<Rightarrow> decode_error + rules_file" where
  "decode_rules_file j = (case json_fields j of None \<Rightarrow> Inl DecodeSyntax
     | Some ms \<Rightarrow>
       if field_value ms ''imports'' \<noteq> None \<and> field_value ms ''Imports'' \<noteq> None
         then Inl (DuplicateField ''imports'' ''Imports'')
       else if field_value ms ''rules'' \<noteq> None \<and> field_value ms ''Rules'' \<noteq> None
         then Inl (DuplicateField ''rules'' ''Rules'')
       else case find (\<lambda>(k, v). k \<notin> {''imports'', ''Imports'', ''rules'', ''Rules''}) ms of
         Some (k, v) \<Rightarrow> Inl (UnknownField k)
       | None \<Rightarrow>
         bind_sum (case first_json_field ms [''imports'', ''Imports''] of None \<Rightarrow> Inr []
           | Some v \<Rightarrow> (case json_list (\<lambda>x. to_option (decode_import x)) v of
               None \<Rightarrow> Inl (BadField ''imports'') | Some is \<Rightarrow> Inr is)) (\<lambda>is.
         bind_sum (case first_json_field ms [''rules'', ''Rules''] of None \<Rightarrow> Inr []
           | Some v \<Rightarrow> (case json_list decode_rule v of
               None \<Rightarrow> Inl (BadField ''rules'') | Some rs \<Rightarrow> Inr rs)) (\<lambda>rs.
         Inr \<lparr>rf_imports = is, rf_rules = rs\<rparr>)))"

section \<open>sing-box rule sets\<close>

record decoders =
  json_parse :: "string \<Rightarrow> json option"
  yaml_payload :: "string \<Rightarrow> string list option"

definition strip_warning :: "string \<Rightarrow> rule \<Rightarrow> string \<Rightarrow> string list \<Rightarrow> warning list" where
  "strip_warning imp r matcher vs = (if vs = [] then []
     else [\<lparr>w_import = imp, w_rule = rl_name r, w_matcher = matcher,
            w_detail = ValuesNotSupported (length vs)\<rparr>])"

definition strip_unsupported_import_matchers :: "string \<Rightarrow> rule \<Rightarrow> rule \<times> warning list" where
  "strip_unsupported_import_matchers imp r =
     (r\<lparr>rl_domain_keyword := [], rl_domain_regex := [], rl_ip_cidr := [], rl_rule_set := []\<rparr>,
      strip_warning imp r ''domain_keyword'' (rl_domain_keyword r)
      @ strip_warning imp r ''domain_regex'' (rl_domain_regex r)
      @ strip_warning imp r ''ip_cidr'' (rl_ip_cidr r)
      @ strip_warning imp r ''rule_set'' (rl_rule_set r))"

definition no_matchers_warning :: "string \<Rightarrow> string \<Rightarrow> warning" where
  "no_matchers_warning imp r =
     \<lparr>w_import = imp, w_rule = r, w_matcher = [], w_detail = NoMatchersLeft\<rparr>"

text \<open>The fields that the import imposes on its \<open>i\<close>-th rule.\<close>

definition stamp :: "rule_import \<Rightarrow> nat \<Rightarrow> rule \<Rightarrow> rule" where
  "stamp imp i r = r\<lparr>rl_name := im_name imp @ ''-'' @ nat_str (i + 1), rl_priority := im_priority imp,
     rl_exit := im_exit imp, rl_dns_pool := im_dns_pool imp\<rparr>"

fun sing_box_rules :: "regexp_pkg \<Rightarrow> rule_import \<Rightarrow> nat \<Rightarrow> rule list
    \<Rightarrow> rules_error + (rule list \<times> warning list)" where
  "sing_box_rules re imp i [] = Inr ([], [])"
| "sing_box_rules re imp i (r # rs) =
     (let (r2, ws) = strip_unsupported_import_matchers (im_name imp) (stamp imp i r)
      in if rule_empty r2 then
           map_sum id (\<lambda>(out, ws'). (out, ws @ no_matchers_warning (im_name imp) (rl_name r2) # ws'))
             (sing_box_rules re imp (Suc i) rs)
         else case validate_rule re r2 of
             Some e \<Rightarrow> Inl e
           | None \<Rightarrow> map_sum id (\<lambda>(out, ws'). (r2 # out, ws @ ws')) (sing_box_rules re imp (Suc i) rs))"

definition rename_single :: "rule_import \<Rightarrow> rule list \<times> warning list \<Rightarrow> rule list \<times> warning list" where
  "rename_single imp p = (case p of ([r], ws) \<Rightarrow>
       ([r\<lparr>rl_name := im_name imp\<rparr>],
        map (\<lambda>w. if w_rule w = rl_name r then w\<lparr>w_rule := im_name imp\<rparr> else w) ws)
     | _ \<Rightarrow> p)"

definition decode_sing_box :: "json \<Rightarrow> rule list option" where
  "decode_sing_box j = Option.bind (json_fields j) (\<lambda>ms.
     Option.bind (struct_field ms ''version'' json_int 0) (\<lambda>_.
       struct_field ms ''rules'' (json_list decode_rule) []))"

definition parse_sing_box :: "regexp_pkg \<Rightarrow> decoders \<Rightarrow> rule_import \<Rightarrow> string
    \<Rightarrow> rules_error + (rule list \<times> warning list)" where
  "parse_sing_box re dec imp data =
     (case Option.bind (json_parse dec data) decode_sing_box of
        None \<Rightarrow> Inl (ImportDecodeError (im_name imp))
      | Some rs \<Rightarrow> if rs = [] then Inl (ImportNoRules (im_name imp))
          else map_sum id (rename_single imp) (sing_box_rules re imp 0 rs))"

section \<open>mihomo providers\<close>

definition payload_warning :: "rule \<Rightarrow> string \<Rightarrow> warning_detail \<Rightarrow> warning" where
  "payload_warning r kind d =
     \<lparr>w_import = rl_name r, w_rule = rl_name r, w_matcher = kind, w_detail = d\<rparr>"

definition add_mihomo_payload :: "rule \<Rightarrow> string \<Rightarrow> rules_error + (rule \<times> warning option)" where
  "add_mihomo_payload r item = (case split_char (CHR '','') item of
     p0 # p1 # _ \<Rightarrow>
       (let kind = to_upper (trim_space p0); value = trim_space p1 in
        if value = [] then Inl (EmptyPayloadMatcher (rl_name r) item)
        else if kind = ''DOMAIN'' then Inr (r\<lparr>rl_domain := rl_domain r @ [value]\<rparr>, None)
        else if kind = ''DOMAIN-SUFFIX'' then
          Inr (r\<lparr>rl_domain_suffix := rl_domain_suffix r @ [value]\<rparr>, None)
        else if kind = ''DOMAIN-WILDCARD'' then
          Inr (r\<lparr>rl_domain_suffix := rl_domain_suffix r @ [trim_prefix value ''*.'']\<rparr>, None)
        else if kind \<in> {''DOMAIN-KEYWORD'', ''DOMAIN-REGEX'', ''IP-CIDR'', ''IP-CIDR6'', ''RULE-SET''} then
          Inr (r, Some (payload_warning r kind (ValueNotSupportedBySmartdns value)))
        else Inr (r, Some (payload_warning r kind (ValueNotSupportedBy5gws value))))
   | _ \<Rightarrow> Inl (InvalidPayloadLine (rl_name r) item))"

fun mihomo_payloads :: "rule \<Rightarrow> string list \<Rightarrow> rules_error + (rule \<times> warning list)" where
  "mihomo_payloads r [] = Inr (r, [])"
| "mihomo_payloads r (item # items) = (case add_mihomo_payload r item of
     Inl e \<Rightarrow> Inl e
   | Inr (r', w) \<Rightarrow> map_sum id (\<lambda>(r'', ws).
       (r'', (case w of None \<Rightarrow> ws | Some x \<Rightarrow> x # ws))) (mihomo_payloads r' items))"

definition parse_mihomo :: "regexp_pkg \<Rightarrow> decoders \<Rightarrow> rule_import \<Rightarrow> string
    \<Rightarrow> rules_error + (rule list \<times> warning list)" where
  "parse_mihomo re dec imp data = (case yaml_payload dec data of
     None \<Rightarrow> Inl (ImportDecodeError (im_name imp))
   | Some payload \<Rightarrow>
     if payload = [] then Inl (ImportEmptyPayload (im_name imp))
     else bind_sum (mihomo_payloads (empty_rule\<lparr>rl_name := im_name imp, rl_priority := im_priority imp,
           rl_exit := im_exit imp, rl_dns_pool := im_dns_pool imp\<rparr>) payload) (\<lambda>(r, ws).
       if rule_empty r then Inr ([], ws @ [no_matchers_warning (im_name imp) (rl_name r)])
       else case validate_rule re r of Some e \<Rightarrow> Inl e | None \<Rightarrow> Inr ([r], ws)))"

section \<open>Loading an import\<close>

definition validate_import :: "rule_import \<Rightarrow> rules_error option" where
  "validate_import imp =
     (if trim_space (im_name imp) = [] \<or> im_type imp = [] then Some ImportNameTypeRequired
      else if im_priority imp < 0 then Some (ImportNegativePriority (im_name imp))
      else if (im_exit imp = []) = (im_dns_pool imp = []) then Some (ImportNotExactlyOneTarget (im_name imp))
      else if im_dns_pool imp \<noteq> [] \<and> \<not> valid_dns_pool_name (im_dns_pool imp)
        then Some (ImportInvalidPool (im_name imp) (im_dns_pool imp))
      else None)"

definition parse_by_type :: "regexp_pkg \<Rightarrow> decoders \<Rightarrow> rule_import \<Rightarrow> string \<Rightarrow> string
    \<Rightarrow> rules_error + (rule list \<times> warning list)" where
  "parse_by_type re dec imp ty data =
     (if ty \<in> {''sing-box'', ''singbox''} then parse_sing_box re dec imp data
      else if ty \<in> {''mihomo'', ''clash'', ''clash-meta'', ''mimoho''} then parse_mihomo re dec imp data
      else Inl (ImportUnsupportedType (im_name imp) (im_type imp)))"

record http_request =
  rq_url :: string
  rq_if_none_match :: string
  rq_if_modified_since :: string

record http_response =
  rs_status :: nat
  rs_etag :: string
  rs_last_modified :: string
  rs_body :: string

record net_env =
  read_file :: "string \<Rightarrow> string option"
  http_do :: "http_request \<Rightarrow> http_response option"

definition import_limit :: nat where
  "import_limit = 16 * 2 ^ 20"

definition read_import_data :: "net_env \<Rightarrow> rule_import \<Rightarrow> read_error + string" where
  "read_import_data env imp =
     (if im_path imp \<noteq> [] then
        (case read_file env (im_path imp) of None \<Rightarrow> Inl ReadFileFailed | Some d \<Rightarrow> Inr d)
      else if im_url imp \<noteq> [] then
        (case http_do env \<lparr>rq_url = im_url imp, rq_if_none_match = [], rq_if_modified_since = []\<rparr> of
           None \<Rightarrow> Inl RequestFailed
         | Some resp \<Rightarrow>
             if rs_status resp < 200 \<or> 300 \<le> rs_status resp then Inl (DownloadFailed (rs_status resp))
             else Inr (take import_limit (rs_body resp)))
      else Inl PathOrUrlRequired)"

definition load_import :: "regexp_pkg \<Rightarrow> decoders \<Rightarrow> net_env \<Rightarrow> rule_import
    \<Rightarrow> rules_error + (rule list \<times> warning list)" where
  "load_import re dec env imp = (case validate_import imp of
     Some e \<Rightarrow> Inl e
   | None \<Rightarrow> (case read_import_data env imp of
       Inl e \<Rightarrow> Inl (ImportReadError (im_name imp) e)
     | Inr d \<Rightarrow> parse_by_type re dec imp (to_lower (im_type imp)) d))"

section \<open>The resolver and its cache\<close>

record cache_entry =
  ce_url :: string
  ce_etag :: string
  ce_last_modified :: string
  ce_sha256 :: string
  ce_content :: string

text \<open>
  The interface \<^verbatim>\<open>ImportCache\<close> as a record of operations over a cache state; both can fail. A
  resolver without a cache is \<open>None\<close>.
\<close>

record 'c cache_ops =
  ic_get :: "'c \<Rightarrow> string \<Rightarrow> cache_entry option option"
  ic_put :: "'c \<Rightarrow> cache_entry \<Rightarrow> 'c option"

definition empty_entry :: cache_entry where
  "empty_entry = \<lparr>ce_url = [], ce_etag = [], ce_last_modified = [], ce_sha256 = [], ce_content = []\<rparr>"

definition cached_entry :: "'c cache_ops option \<Rightarrow> 'c \<Rightarrow> string \<Rightarrow> read_error + cache_entry" where
  "cached_entry ops c url = (case ops of None \<Rightarrow> Inr empty_entry
     | Some o' \<Rightarrow> (case ic_get o' c url of
         None \<Rightarrow> Inl CacheFailed
       | Some None \<Rightarrow> Inr empty_entry
       | Some (Some e) \<Rightarrow> Inr e))"

definition resolver_read :: "(string \<Rightarrow> string) \<Rightarrow> net_env \<Rightarrow> 'c cache_ops option \<Rightarrow> 'c \<Rightarrow> rule_import
    \<Rightarrow> (read_error + string) \<times> 'c" where
  "resolver_read sha env ops c imp =
     (if im_path imp \<noteq> [] then
        ((case read_file env (im_path imp) of None \<Rightarrow> Inl ReadFileFailed | Some d \<Rightarrow> Inr d), c)
      else if im_url imp = [] then (Inl PathOrUrlRequired, c)
      else case cached_entry ops c (im_url imp) of
        Inl e \<Rightarrow> (Inl e, c)
      | Inr cached \<Rightarrow>
        (case http_do env \<lparr>rq_url = im_url imp, rq_if_none_match = ce_etag cached,
             rq_if_modified_since = ce_last_modified cached\<rparr> of
           None \<Rightarrow> (Inl RequestFailed, c)
         | Some resp \<Rightarrow>
           if rs_status resp = 304 then
             ((if ce_content cached = [] then Inl NotModifiedWithoutBody else Inr (ce_content cached)), c)
           else if rs_status resp < 200 \<or> 300 \<le> rs_status resp then
             (Inl (DownloadFailed (rs_status resp)), c)
           else let d = take import_limit (rs_body resp) in
             (case ops of None \<Rightarrow> (Inr d, c)
              | Some o' \<Rightarrow> (case ic_put o' c \<lparr>ce_url = im_url imp, ce_etag = rs_etag resp,
                    ce_last_modified = rs_last_modified resp, ce_sha256 = sha d, ce_content = d\<rparr> of
                  None \<Rightarrow> (Inl CacheFailed, c)
                | Some c' \<Rightarrow> (Inr d, c')))))"

definition resolve_import :: "(string \<Rightarrow> string) \<Rightarrow> regexp_pkg \<Rightarrow> decoders \<Rightarrow> net_env \<Rightarrow>
    'c cache_ops option \<Rightarrow> 'c \<Rightarrow> rule_import \<Rightarrow> (rules_error + (rule list \<times> warning list)) \<times> 'c" where
  "resolve_import sha re dec env ops c imp = (case validate_import imp of
     Some e \<Rightarrow> (Inl e, c)
   | None \<Rightarrow> (case resolver_read sha env ops c imp of
       (Inl e, c') \<Rightarrow> (Inl (ImportReadError (im_name imp) e), c')
     | (Inr d, c') \<Rightarrow> (parse_by_type re dec imp (im_type imp) d, c')))"


section \<open>What an import can yield\<close>

text \<open>
  The invariant of imported rules: the target and priority of the import, only the two matcher
  kinds that the DNS renderer can represent, and a rule that passes the checks.
\<close>

definition renderable :: "rule \<Rightarrow> bool" where
  "renderable r \<longleftrightarrow> rl_domain_keyword r = [] \<and> rl_domain_regex r = [] \<and> rl_ip_cidr r = [] \<and>
     rl_rule_set r = []"

definition imported_rule :: "regexp_pkg \<Rightarrow> rule_import \<Rightarrow> rule \<Rightarrow> bool" where
  "imported_rule re imp r \<longleftrightarrow> renderable r \<and> validate_rule re r = None \<and>
     rl_exit r = im_exit imp \<and> rl_dns_pool r = im_dns_pool imp \<and> rl_priority r = im_priority imp"

lemma strip_renderable: "strip_unsupported_import_matchers imp r = (r', ws) \<Longrightarrow>
   renderable r' \<and> rl_name r' = rl_name r \<and> rl_exit r' = rl_exit r \<and> rl_dns_pool r' = rl_dns_pool r \<and>
   rl_priority r' = rl_priority r \<and> rl_domain r' = rl_domain r \<and> rl_domain_suffix r' = rl_domain_suffix r"
  by (auto simp: strip_unsupported_import_matchers_def renderable_def)

lemma sing_box_rules_Cons:
  assumes "strip_unsupported_import_matchers (im_name imp) (stamp imp i r) = (r2, w2)"
  shows "sing_box_rules re imp i (r # rs) =
    (if rule_empty r2 then
       map_sum id (\<lambda>(out, ws'). (out, w2 @ no_matchers_warning (im_name imp) (rl_name r2) # ws'))
         (sing_box_rules re imp (Suc i) rs)
     else case validate_rule re r2 of
         Some e \<Rightarrow> Inl e
       | None \<Rightarrow> map_sum id (\<lambda>(out, ws'). (r2 # out, w2 @ ws')) (sing_box_rules re imp (Suc i) rs))"
  using assms by (simp only: sing_box_rules.simps Let_def prod.case)

lemma sing_box_rules_imported:
  "sing_box_rules re imp i rs = Inr (out, ws) \<Longrightarrow> r \<in> set out \<Longrightarrow> imported_rule re imp r"
proof (induction rs arbitrary: i out ws)
  case Nil
  then show ?case by simp
next
  case (Cons r0 rs)
  obtain r2 w2 where strip: "strip_unsupported_import_matchers (im_name imp) (stamp imp i r0) = (r2, w2)"
    by (cases "strip_unsupported_import_matchers (im_name imp) (stamp imp i r0)")
  have "renderable r2 \<and> rl_exit r2 = im_exit imp \<and> rl_dns_pool r2 = im_dns_pool imp \<and>
      rl_priority r2 = im_priority imp"
    using strip_renderable [OF strip] by (simp add: stamp_def)
  then have good: "validate_rule re r2 = None \<Longrightarrow> imported_rule re imp r2"
    by (simp add: imported_rule_def)
  from Cons.prems(1) obtain out' ws' where
    rest: "sing_box_rules re imp (Suc i) rs = Inr (out', ws')" and
    out: "set out \<subseteq> insert r2 (set out')" and ok: "r2 \<in> set out \<Longrightarrow> r2 \<notin> set out' \<Longrightarrow> validate_rule re r2 = None"
    unfolding sing_box_rules_Cons [OF strip]
    by (auto simp: map_sum_eq_Inr split: if_splits option.splits)
  show ?case
    using Cons.IH [OF rest] out ok good Cons.prems(2) by blast
qed

lemma validate_rule_rename:
  "trim_space n \<noteq> [] \<Longrightarrow> validate_rule re r = None \<Longrightarrow> validate_rule re (r\<lparr>rl_name := n\<rparr>) = None"
  by (auto simp: validate_rule_def rule_empty_def split: if_splits option.splits)

lemma imported_rule_rename:
  "trim_space n \<noteq> [] \<Longrightarrow> imported_rule re imp r \<Longrightarrow> imported_rule re imp (r\<lparr>rl_name := n\<rparr>)"
  by (simp add: imported_rule_def renderable_def validate_rule_rename)

lemma validate_import_name: "validate_import imp = None \<Longrightarrow> trim_space (im_name imp) \<noteq> []"
  by (auto simp: validate_import_def split: if_splits)

lemma parse_sing_box_imported:
  assumes "validate_import imp = None"
    and "parse_sing_box re dec imp data = Inr (out, ws)" and "r \<in> set out"
  shows "imported_rule re imp r"
proof -
  from assms(2) obtain rs p where
    run: "sing_box_rules re imp 0 rs = Inr p" and ren: "rename_single imp p = (out, ws)"
    by (auto simp: parse_sing_box_def map_sum_eq_Inr split: option.splits if_splits)
  obtain out' ws' where p: "p = (out', ws')" by (cases p)
  note run = run [unfolded p] and ren = ren [unfolded p]
  show ?thesis
  proof (cases "\<exists>x. out' = [x]")
    case True
    then obtain x where x: "out' = [x]" ..
    with ren have "out = [x\<lparr>rl_name := im_name imp\<rparr>]"
      by (auto simp: rename_single_def)
    with assms(3) x sing_box_rules_imported [OF run, of x] show ?thesis
      using validate_import_name [OF assms(1)] by (simp add: imported_rule_rename)
  next
    case False
    then have "out = out'"
      using ren by (auto simp: rename_single_def split: list.splits)
    with assms(3) sing_box_rules_imported [OF run] show ?thesis by simp
  qed
qed

lemma add_mihomo_payload_frame:
  "add_mihomo_payload r item = Inr (r', w) \<Longrightarrow> rl_name r' = rl_name r \<and> rl_exit r' = rl_exit r \<and>
   rl_dns_pool r' = rl_dns_pool r \<and> rl_priority r' = rl_priority r \<and> (renderable r \<longrightarrow> renderable r')"
  by (auto simp: add_mihomo_payload_def Let_def renderable_def split: list.splits if_splits)

lemma mihomo_payloads_frame:
  "mihomo_payloads r items = Inr (r', ws) \<Longrightarrow> rl_name r' = rl_name r \<and> rl_exit r' = rl_exit r \<and>
   rl_dns_pool r' = rl_dns_pool r \<and> rl_priority r' = rl_priority r \<and> (renderable r \<longrightarrow> renderable r')"
proof (induction items arbitrary: r r' ws)
  case Nil
  then show ?case by simp
next
  case (Cons item items)
  then obtain r1 w where add: "add_mihomo_payload r item = Inr (r1, w)"
    by (auto split: sum.splits)
  with Cons.prems obtain ws1 where "mihomo_payloads r1 items = Inr (r', ws1)"
    by (cases "mihomo_payloads r1 items") auto
  from Cons.IH [OF this] add_mihomo_payload_frame [OF add] show ?case by simp
qed

lemma parse_mihomo_imported:
  assumes "parse_mihomo re dec imp data = Inr (out, ws)" and "r \<in> set out"
  shows "imported_rule re imp r"
  using assms
  by (auto simp: parse_mihomo_def bind_sum_eq_Inr imported_rule_def
      split: option.splits if_splits prod.splits dest!: mihomo_payloads_frame)
    (simp_all add: empty_rule_def renderable_def)

lemma parse_by_type_imported:
  assumes "validate_import imp = None"
    and "parse_by_type re dec imp ty data = Inr (out, ws)" and "r \<in> set out"
  shows "imported_rule re imp r"
  using assms parse_sing_box_imported [OF assms(1)] parse_mihomo_imported
  by (auto simp: parse_by_type_def split: if_splits)

lemma resolve_import_imported:
  assumes "resolve_import sha re dec env ops c imp = (Inr (out, ws), c')" and "r \<in> set out"
  shows "imported_rule re imp r"
proof -
  from assms(1) obtain d where "validate_import imp = None"
    and "parse_by_type re dec imp (im_type imp) d = Inr (out, ws)"
    by (auto simp: resolve_import_def split: option.splits prod.splits sum.splits)
  then show ?thesis using assms(2) by (rule parse_by_type_imported)
qed

lemma load_import_imported:
  assumes "load_import re dec env imp = Inr (out, ws)" and "r \<in> set out"
  shows "imported_rule re imp r"
proof -
  from assms(1) obtain d where "validate_import imp = None"
    and "parse_by_type re dec imp (to_lower (im_type imp)) d = Inr (out, ws)"
    by (auto simp: load_import_def split: option.splits sum.splits)
  then show ?thesis using assms(2) by (rule parse_by_type_imported)
qed

section \<open>The cache interface\<close>

text \<open>
  What \<^verbatim>\<open>ImportCache\<close> promises the resolver: a stored entry is what the next lookup of its URL
  returns, and other URLs are not touched.
\<close>

locale import_cache =
  fixes ops :: "'c cache_ops"
  assumes get_put_same: "ic_put ops c e = Some c' \<Longrightarrow> ic_get ops c' (ce_url e) = Some (Some e)"
    and get_put_other: "ic_put ops c e = Some c' \<Longrightarrow> u \<noteq> ce_url e \<Longrightarrow> ic_get ops c' u = ic_get ops c u"
begin

text \<open>
  After a download, a later read of the same URL sends the validators of that download, and a
  304 answer yields the downloaded body.
\<close>

lemma read_after_download:
  assumes first: "resolver_read sha env (Some ops) c imp = (Inr d, c')"
    and url: "im_path imp = []" and ne: "d \<noteq> []" and stored: "c' \<noteq> c"
    and now: "\<And>rq. rq_url rq = im_url imp \<Longrightarrow> \<exists>resp. http_do env' rq = Some resp \<and> rs_status resp = 304"
  shows "resolver_read sha env' (Some ops) c' imp = (Inr d, c')"
proof -
  from first url stored obtain e where
    put: "ic_put ops c e = Some c'" and e: "ce_url e = im_url imp" "ce_content e = d" and u: "im_url imp \<noteq> []"
    by (auto simp: resolver_read_def Let_def split: if_splits sum.splits option.splits)
  have "ic_get ops c' (im_url imp) = Some (Some e)"
    using get_put_same [OF put] e by simp
  then have "cached_entry (Some ops) c' (im_url imp) = Inr e"
    by (simp add: cached_entry_def)
  moreover obtain resp where "http_do env' \<lparr>rq_url = im_url imp, rq_if_none_match = ce_etag e,
      rq_if_modified_since = ce_last_modified e\<rparr> = Some resp" "rs_status resp = 304"
    using now [of "\<lparr>rq_url = im_url imp, rq_if_none_match = ce_etag e,
      rq_if_modified_since = ce_last_modified e\<rparr>"] by auto
  ultimately show ?thesis
    using url u e ne by (simp add: resolver_read_def)
qed

lemma read_keeps_other:
  assumes "resolver_read sha env (Some ops) c imp = (res, c')" and "u \<noteq> im_url imp"
  shows "ic_get ops c' u = ic_get ops c u"
  using assms get_put_other
  by (auto simp: resolver_read_def Let_def split: if_splits sum.splits option.splits)

end

end
