(* ===== verification/Managed.thy ===== *)
theory Managed
  imports Rule_Import
begin

text \<open>
  \<^verbatim>\<open>internal/rules/managed.go\<close>: the rules and imports the program manages itself, which a
  configuration must contain exactly once and unchanged.
\<close>

section \<open>The managed and the optional entries\<close>

definition managed_import :: "string \<Rightarrow> string \<Rightarrow> string \<Rightarrow> string \<Rightarrow> rule_import" where
  "managed_import nm url ex pool = \<lparr>im_name = nm, im_priority = 0, im_type = ''sing-box'', im_path = [],
     im_url = url, im_format = [], im_exit = ex, im_dns_pool = pool\<rparr>"

definition managed_file :: rules_file where
  "managed_file = \<lparr>
     rf_imports = [
       managed_import ''speedtest'' ''https://raw.githubusercontent.com/MetaCubeX/meta-rules-dat/sing/geo/geosite/category-speedtest.json'' ''direct'' [],
       managed_import ''cn'' ''https://raw.githubusercontent.com/MetaCubeX/meta-rules-dat/sing/geo/geosite/cn.json'' [] ''cn'',
       managed_import ''gfw'' ''https://raw.githubusercontent.com/MetaCubeX/meta-rules-dat/sing/geo/geosite/gfw.json'' ''direct'' []],
     rf_rules = [
       empty_rule\<lparr>rl_name := ''ip-check'', rl_exit := ''direct'',
         rl_domain_suffix := [''icanhazip.com'', ''ipinfo.io'', ''ippure.com'']\<rparr>]\<rparr>"

definition default_netease_rule :: rule where
  "default_netease_rule = empty_rule\<lparr>rl_name := ''netease-music'', rl_dns_pool := ''cn_netease'',
     rl_domain_suffix := [''music.163.com'', ''music.126.net'', ''iplay.163.com'', ''look.163.com'', ''y.163.com'']\<rparr>"

definition default_unicom_rule :: rule where
  "default_unicom_rule = empty_rule\<lparr>rl_name := ''china-unicom-app'', rl_dns_pool := ''cn_unicom'',
     rl_domain_suffix := [''10010.com'', ''chinaunicom.cn'', ''chinaunicom.com'']\<rparr>"

definition rules_named :: "rule list \<Rightarrow> string \<Rightarrow> rule list" where
  "rules_named rs n = filter (\<lambda>r. rl_name r = n) rs"

definition imports_named :: "rule_import list \<Rightarrow> string \<Rightarrow> rule_import list" where
  "imports_named is n = filter (\<lambda>i. im_name i = n) is"

definition contains_rule_name :: "rule list \<Rightarrow> string \<Rightarrow> bool" where
  "contains_rule_name rs n \<longleftrightarrow> 0 < length (rules_named rs n)"

definition contains_import_name :: "rule_import list \<Rightarrow> string \<Rightarrow> bool" where
  "contains_import_name is n \<longleftrightarrow> 0 < length (imports_named is n)"

definition is_managed_name :: "string \<Rightarrow> bool" where
  "is_managed_name n \<longleftrightarrow> list_ex (\<lambda>r. rl_name r = n) (rf_rules managed_file) \<or>
     list_ex (\<lambda>i. im_name i = n) (rf_imports managed_file)"

definition is_default_name :: "string \<Rightarrow> bool" where
  "is_default_name n \<longleftrightarrow> is_managed_name n \<or> n = rl_name default_netease_rule \<or>
     n = rl_name default_unicom_rule"

section \<open>Adding what is missing\<close>

definition add_rule_if_absent :: "rule \<Rightarrow> rules_file \<Rightarrow> rules_file" where
  "add_rule_if_absent r f =
     (if \<not> contains_rule_name (rf_rules f) (rl_name r) \<and> \<not> contains_import_name (rf_imports f) (rl_name r)
      then f\<lparr>rf_rules := rf_rules f @ [r]\<rparr> else f)"

definition add_import_if_absent :: "rule_import \<Rightarrow> rules_file \<Rightarrow> rules_file" where
  "add_import_if_absent i f =
     (if \<not> contains_import_name (rf_imports f) (im_name i) \<and> \<not> contains_rule_name (rf_rules f) (im_name i)
      then f\<lparr>rf_imports := rf_imports f @ [i]\<rparr> else f)"

definition ensure_optional_defaults :: "rules_file \<Rightarrow> rules_file" where
  "ensure_optional_defaults f =
     fold add_rule_if_absent [default_netease_rule, default_unicom_rule] f"

definition ensure_managed :: "rules_file \<Rightarrow> rules_file" where
  "ensure_managed f = fold add_import_if_absent (rf_imports managed_file)
     (fold add_rule_if_absent (rf_rules managed_file) f)"

section \<open>The check\<close>

definition equal_rule :: "rule \<Rightarrow> rule \<Rightarrow> bool" where
  "equal_rule a b \<longleftrightarrow> rl_name a = rl_name b \<and> rl_priority a = rl_priority b \<and> rl_exit a = rl_exit b \<and>
     rl_dns_pool a = rl_dns_pool b \<and> rl_domain a = rl_domain b \<and> rl_domain_suffix a = rl_domain_suffix b \<and>
     rl_domain_keyword a = rl_domain_keyword b \<and> rl_domain_regex a = rl_domain_regex b \<and>
     rl_ip_cidr a = rl_ip_cidr b \<and> rl_rule_set a = rl_rule_set b"

definition check_managed_rule :: "rules_file \<Rightarrow> rule \<Rightarrow> rules_error option" where
  "check_managed_rule f r = (case rules_named (rf_rules f) (rl_name r) of
     [m] \<Rightarrow> if contains_import_name (rf_imports f) (rl_name r) then Some (ManagedRuleNotOnce (rl_name r))
            else if \<not> equal_rule m r then Some (ManagedRuleModified (rl_name r)) else None
   | _ \<Rightarrow> Some (ManagedRuleNotOnce (rl_name r)))"

definition check_managed_import :: "rules_file \<Rightarrow> rule_import \<Rightarrow> rules_error option" where
  "check_managed_import f i = (case imports_named (rf_imports f) (im_name i) of
     [m] \<Rightarrow> if contains_rule_name (rf_rules f) (im_name i) then Some (ManagedImportNotOnce (im_name i))
            else if m \<noteq> i then Some (ManagedImportModified (im_name i)) else None
   | _ \<Rightarrow> Some (ManagedImportNotOnce (im_name i)))"

fun first_error :: "('a \<Rightarrow> 'e option) \<Rightarrow> 'a list \<Rightarrow> 'e option" where
  "first_error f [] = None"
| "first_error f (x # xs) = (case f x of Some e \<Rightarrow> Some e | None \<Rightarrow> first_error f xs)"

definition validate_managed :: "rules_file \<Rightarrow> rules_error option" where
  "validate_managed f = (case first_error (check_managed_rule f) (rf_rules managed_file) of
     Some e \<Rightarrow> Some e
   | None \<Rightarrow> first_error (check_managed_import f) (rf_imports managed_file))"

section \<open>Facts\<close>

lemma first_error_None: "first_error f xs = None \<longleftrightarrow> (\<forall>x\<in>set xs. f x = None)"
  by (induction xs) (auto split: option.splits)

lemma first_error_Some: "first_error f xs = Some e \<Longrightarrow> \<exists>x\<in>set xs. f x = Some e"
  by (induction xs) (auto split: option.splits)

lemma equal_rule_iff: "equal_rule a b \<longleftrightarrow> a = b"
  by (auto simp: equal_rule_def intro: rule.equality)

lemma contains_rule_name_iff: "contains_rule_name rs n \<longleftrightarrow> n \<in> rl_name ` set rs"
  by (induction rs) (auto simp: contains_rule_name_def rules_named_def)

lemma contains_import_name_iff: "contains_import_name is n \<longleftrightarrow> n \<in> im_name ` set is"
  by (induction "is") (auto simp: contains_import_name_def imports_named_def)

text \<open>The names of a file, over rules and imports together.\<close>

definition names_of :: "rules_file \<Rightarrow> string set" where
  "names_of f = rl_name ` set (rf_rules f) \<union> im_name ` set (rf_imports f)"

lemma add_rule_if_absent_eq:
  "add_rule_if_absent r f = (if rl_name r \<in> names_of f then f else f\<lparr>rf_rules := rf_rules f @ [r]\<rparr>)"
  by (auto simp: add_rule_if_absent_def contains_rule_name_iff contains_import_name_iff names_of_def)

lemma add_import_if_absent_eq:
  "add_import_if_absent i f = (if im_name i \<in> names_of f then f else f\<lparr>rf_imports := rf_imports f @ [i]\<rparr>)"
  by (auto simp: add_import_if_absent_def contains_rule_name_iff contains_import_name_iff names_of_def)

lemma names_of_add_rule: "names_of (add_rule_if_absent r f) = insert (rl_name r) (names_of f)"
  by (auto simp: add_rule_if_absent_eq names_of_def)

lemma names_of_add_import: "names_of (add_import_if_absent i f) = insert (im_name i) (names_of f)"
  by (auto simp: add_import_if_absent_eq names_of_def)

definition managed_names :: "string list" where
  "managed_names = map rl_name (rf_rules managed_file) @ map im_name (rf_imports managed_file)"

lemma managed_names_eq: "managed_names = [''ip-check'', ''speedtest'', ''cn'', ''gfw'']"
  by (simp add: managed_names_def managed_file_def managed_import_def empty_rule_def)

lemma is_managed_name_iff: "is_managed_name n \<longleftrightarrow> n \<in> set managed_names"
  by (auto simp: is_managed_name_def managed_names_def list_ex_iff)

lemma ensure_managed_present:
  assumes "set managed_names \<subseteq> names_of f"
  shows "ensure_managed f = f"
  using assms
  by (simp add: ensure_managed_def managed_file_def managed_names_eq add_rule_if_absent_eq
      add_import_if_absent_eq managed_import_def empty_rule_def)

lemma names_of_ensure_managed: "names_of (ensure_managed f) = set managed_names \<union> names_of f"
  by (auto simp: ensure_managed_def managed_file_def managed_names_eq names_of_add_rule
      names_of_add_import managed_import_def empty_rule_def)

lemma ensure_managed_idem: "ensure_managed (ensure_managed f) = ensure_managed f"
  by (rule ensure_managed_present) (simp add: names_of_ensure_managed)

lemma rules_named_single:
  "rules_named rs n = [m] \<Longrightarrow> m \<in> set rs \<and> rl_name m = n"
  by (metis (mono_tags, lifting) rules_named_def list.set_intros(1) mem_Collect_eq set_filter)

lemma imports_named_single:
  "imports_named is n = [m] \<Longrightarrow> m \<in> set is \<and> im_name m = n"
  by (metis (mono_tags, lifting) imports_named_def list.set_intros(1) mem_Collect_eq set_filter)

lemma check_managed_rule_None:
  "check_managed_rule f r = None \<longleftrightarrow>
   rules_named (rf_rules f) (rl_name r) = [r] \<and> rl_name r \<notin> im_name ` set (rf_imports f)"
  by (auto simp: check_managed_rule_def contains_import_name_iff equal_rule_iff split: list.splits)

lemma check_managed_import_None:
  "check_managed_import f i = None \<longleftrightarrow>
   imports_named (rf_imports f) (im_name i) = [i] \<and> im_name i \<notin> rl_name ` set (rf_rules f)"
  by (auto simp: check_managed_import_def contains_rule_name_iff split: list.splits)

lemma validate_managed_None:
  "validate_managed f = None \<longleftrightarrow>
     (\<forall>r\<in>set (rf_rules managed_file). rules_named (rf_rules f) (rl_name r) = [r] \<and>
        rl_name r \<notin> im_name ` set (rf_imports f)) \<and>
     (\<forall>i\<in>set (rf_imports managed_file). imports_named (rf_imports f) (im_name i) = [i] \<and>
        im_name i \<notin> rl_name ` set (rf_rules f))"
proof -
  have "validate_managed f = None \<longleftrightarrow>
      first_error (check_managed_rule f) (rf_rules managed_file) = None \<and>
      first_error (check_managed_import f) (rf_imports managed_file) = None"
    by (auto simp: validate_managed_def split: option.splits)
  then show ?thesis
    by (simp only: first_error_None check_managed_rule_None check_managed_import_None)
qed

lemma validate_managed_present: "validate_managed f = None \<Longrightarrow> set managed_names \<subseteq> names_of f"
proof
  fix n
  assume v: "validate_managed f = None" and "n \<in> set managed_names"
  then consider r where "r \<in> set (rf_rules managed_file)" "n = rl_name r"
    | i where "i \<in> set (rf_imports managed_file)" "n = im_name i"
    by (auto simp: managed_names_def)
  then show "n \<in> names_of f"
  proof cases
    case 1
    with v have "rules_named (rf_rules f) (rl_name r) = [r]" by (simp add: validate_managed_None)
    then have "r \<in> set (rf_rules f)" using rules_named_single by blast
    with 1 show ?thesis by (simp add: names_of_def)
  next
    case 2
    with v have "imports_named (rf_imports f) (im_name i) = [i]" by (simp add: validate_managed_None)
    then have "i \<in> set (rf_imports f)" using imports_named_single by blast
    with 2 show ?thesis by (simp add: names_of_def)
  qed
qed

text \<open>
  A file that passes the check is left alone, and a file without any managed name passes it
  after the missing entries were added.
\<close>

lemma ensure_managed_valid: "validate_managed f = None \<Longrightarrow> ensure_managed f = f"
  by (rule ensure_managed_present) (rule validate_managed_present)

lemma filter_not_in: "n \<notin> g ` set xs \<Longrightarrow> filter (\<lambda>x. g x = n) xs = []"
  by (auto simp: filter_empty_conv)

lemma ensure_managed_absent:
  assumes "set managed_names \<inter> names_of f = {}"
  shows "ensure_managed f = f\<lparr>rf_rules := rf_rules f @ rf_rules managed_file,
     rf_imports := rf_imports f @ rf_imports managed_file\<rparr>"
  using assms
  by (simp add: ensure_managed_def managed_file_def managed_names_eq add_rule_if_absent_eq
      add_import_if_absent_eq managed_import_def empty_rule_def names_of_def image_iff)

lemma validate_ensure_managed:
  assumes "set managed_names \<inter> names_of f = {}"
  shows "validate_managed (ensure_managed f) = None"
proof -
  have absent: "n \<in> set managed_names \<Longrightarrow> n \<notin> rl_name ` set (rf_rules f) \<and> n \<notin> im_name ` set (rf_imports f)" for n
    using assms by (auto simp: names_of_def)
  show ?thesis
    unfolding ensure_managed_absent [OF assms] validate_managed_None
    using absent
    by (simp add: rules_named_def imports_named_def filter_not_in managed_names_eq managed_file_def
        managed_import_def empty_rule_def)
qed

section \<open>Properties\<close>

text \<open>
  Claim C3. Adding the managed entries: \<^verbatim>\<open>EnsureManaged\<close> is idempotent, leaves a file that
  \<^verbatim>\<open>ValidateManaged\<close> accepts as it is, and turns any file that uses none of the managed names
  into one that \<^verbatim>\<open>ValidateManaged\<close> accepts, keeping its own rules and imports in front.
\<close>

theorem ensure_managed_correct:
  "ensure_managed (ensure_managed f) = ensure_managed f \<and>
   (validate_managed f = None \<longrightarrow> ensure_managed f = f) \<and>
   (set managed_names \<inter> names_of f = {} \<longrightarrow>
      validate_managed (ensure_managed f) = None \<and>
      rf_rules (ensure_managed f) = rf_rules f @ rf_rules managed_file \<and>
      rf_imports (ensure_managed f) = rf_imports f @ rf_imports managed_file)"
  using ensure_managed_idem ensure_managed_valid validate_ensure_managed [of f]
  by (intro conjI impI) (simp_all add: ensure_managed_absent)

theorem ensure_managed_correct_witness:
  "validate_managed (ensure_managed \<lparr>rf_imports = [], rf_rules = [default_netease_rule]\<rparr>) = None \<and>
   ensure_managed managed_file = managed_file"
proof -
  have "set managed_names \<inter> names_of \<lparr>rf_imports = [], rf_rules = [default_netease_rule]\<rparr> = {}"
    "validate_managed managed_file = None"
    by code_simp+
  then show ?thesis
    using ensure_managed_correct [of "\<lparr>rf_imports = [], rf_rules = [default_netease_rule]\<rparr>"]
      ensure_managed_correct [of managed_file] by blast
qed

end
