(* ===== verification/Normalize.thy ===== *)
theory Normalize
  imports Managed "HOL-Library.Product_Lexorder" "HOL-Library.Multiset"
begin

text \<open>
  \<^verbatim>\<open>Normalize\<close> and \<^verbatim>\<open>sortNormalizedSources\<close> of \<^verbatim>\<open>internal/rules/rules.go\<close>, and the resolver's
  \<^verbatim>\<open>Normalize\<close> of \<^verbatim>\<open>resolver.go\<close>: local rules and imports become one ordered list of rules.
\<close>

section \<open>Sources and their order\<close>

record source =
  src_priority :: int
  src_defaulted :: bool
  src_index :: nat
  src_rules :: "rule list"
  src_warnings :: "warning list"

text \<open>The comparison function of \<^verbatim>\<open>sortNormalizedSources\<close>.\<close>

definition source_less :: "source \<Rightarrow> source \<Rightarrow> bool" where
  "source_less l r =
     (if src_defaulted l \<noteq> src_defaulted r then \<not> src_defaulted l
      else if src_defaulted l then src_index l < src_index r
      else if src_priority l \<noteq> src_priority r then
        (if src_priority l = 0 then False
         else if src_priority r = 0 then True
         else src_priority l < src_priority r)
      else src_index l < src_index r)"

text \<open>
  \<^verbatim>\<open>sort.SliceStable\<close>, as the insertion sort it uses on short slices: each element moves to the
  left past the elements it is less than.
\<close>

definition insert_left :: "('a \<Rightarrow> 'a \<Rightarrow> bool) \<Rightarrow> 'a list \<Rightarrow> 'a \<Rightarrow> 'a list" where
  "insert_left lt ys x =
     (let k = length ys - length (takeWhile (\<lambda>y. lt x y) (rev ys)) in take k ys @ x # drop k ys)"

definition slice_stable :: "('a \<Rightarrow> 'a \<Rightarrow> bool) \<Rightarrow> 'a list \<Rightarrow> 'a list" where
  "slice_stable lt xs = foldl (insert_left lt) [] xs"

definition sort_normalized_sources :: "source list \<Rightarrow> source list" where
  "sort_normalized_sources xs = slice_stable source_less xs"

section \<open>Normalize\<close>

fun rule_sources :: "regexp_pkg \<Rightarrow> nat \<Rightarrow> rule list \<Rightarrow> rules_error + source list" where
  "rule_sources re i [] = Inr []"
| "rule_sources re i (r # rs) = (case validate_rule re r of Some e \<Rightarrow> Inl e
     | None \<Rightarrow> map_sum id (\<lambda>ss. \<lparr>src_priority = rl_priority r, src_defaulted = is_default_name (rl_name r),
         src_index = i, src_rules = [r], src_warnings = []\<rparr> # ss) (rule_sources re (Suc i) rs))"

definition import_source :: "nat \<Rightarrow> rule_import \<Rightarrow> rule list \<times> warning list \<Rightarrow> source" where
  "import_source i imp p = \<lparr>src_priority = im_priority imp, src_defaulted = is_default_name (im_name imp),
     src_index = i, src_rules = fst p, src_warnings = snd p\<rparr>"

fun import_sources :: "regexp_pkg \<Rightarrow> decoders \<Rightarrow> net_env \<Rightarrow> nat \<Rightarrow> rule_import list
    \<Rightarrow> rules_error + source list" where
  "import_sources re dec env i [] = Inr []"
| "import_sources re dec env i (imp # imps) =
     bind_sum (load_import re dec env imp) (\<lambda>p.
       map_sum id (\<lambda>ss. import_source i imp p # ss) (import_sources re dec env (Suc i) imps))"

definition flatten_sources :: "source list \<Rightarrow> normalized" where
  "flatten_sources ss = \<lparr>n_rules = concat (map src_rules ss), n_warnings = concat (map src_warnings ss)\<rparr>"

definition normalize :: "regexp_pkg \<Rightarrow> decoders \<Rightarrow> net_env \<Rightarrow> rules_file \<Rightarrow> rules_error + normalized" where
  "normalize re dec env f =
     bind_sum (rule_sources re 0 (rf_rules f)) (\<lambda>rs.
     bind_sum (import_sources re dec env (length (rf_rules f)) (rf_imports f)) (\<lambda>is.
     Inr (flatten_sources (sort_normalized_sources (rs @ is)))))"

text \<open>
  The resolver fetches its imports in parallel and collects every result before it looks at the
  first error. The model threads the cache through the imports in their order, one of the
  orders in which the fetches can run.
\<close>

fun resolve_all :: "(string \<Rightarrow> string) \<Rightarrow> regexp_pkg \<Rightarrow> decoders \<Rightarrow> net_env \<Rightarrow> 'c cache_ops option \<Rightarrow> 'c
    \<Rightarrow> rule_import list \<Rightarrow> (rules_error + (rule list \<times> warning list)) list \<times> 'c" where
  "resolve_all sha re dec env ops c [] = ([], c)"
| "resolve_all sha re dec env ops c (imp # imps) =
     (let (r, c') = resolve_import sha re dec env ops c imp;
          (rs, c'') = resolve_all sha re dec env ops c' imps
      in (r # rs, c''))"

fun collect_results :: "nat \<Rightarrow> rule_import list \<Rightarrow> (rules_error + (rule list \<times> warning list)) list
    \<Rightarrow> rules_error + source list" where
  "collect_results i (imp # imps) (r # rs) =
     bind_sum r (\<lambda>p. map_sum id (\<lambda>ss. import_source i imp p # ss) (collect_results (Suc i) imps rs))"
| "collect_results i _ _ = Inr []"

definition resolver_normalize :: "(string \<Rightarrow> string) \<Rightarrow> regexp_pkg \<Rightarrow> decoders \<Rightarrow> net_env \<Rightarrow>
    'c cache_ops option \<Rightarrow> 'c \<Rightarrow> rules_file \<Rightarrow> (rules_error + normalized) \<times> 'c" where
  "resolver_normalize sha re dec env ops c f =
     (case rule_sources re 0 (rf_rules f) of Inl e \<Rightarrow> (Inl e, c)
      | Inr rs \<Rightarrow> (let (results, c') = resolve_all sha re dec env ops c (rf_imports f) in
          (bind_sum (collect_results (length (rf_rules f)) (rf_imports f) results) (\<lambda>is.
             Inr (flatten_sources (sort_normalized_sources (rs @ is)))), c')))"

section \<open>The sort\<close>

text \<open>
  The comparison is the order of a key: defaults last; then the priorities from 1 on, then
  priority 0; then the position in the file.
\<close>

definition source_key :: "source \<Rightarrow> bool \<times> (bool \<times> int) \<times> nat" where
  "source_key s = (src_defaulted s,
     (if src_defaulted s then (False, 0) else (src_priority s = 0, src_priority s)), src_index s)"

lemma source_less_key: "source_less l r \<longleftrightarrow> source_key l < source_key r"
  by (auto simp: source_less_def source_key_def less_bool_def)

lemma mset_insert_left: "mset (insert_left lt ys x) = add_mset x (mset ys)"
proof -
  define k where "k = length ys - length (takeWhile (\<lambda>y. lt x y) (rev ys))"
  have "mset (insert_left lt ys x) = add_mset x (mset (take k ys) + mset (drop k ys))"
    by (simp add: insert_left_def k_def Let_def)
  also have "mset (take k ys) + mset (drop k ys) = mset ys"
    by (metis append_take_drop_id mset_append)
  finally show ?thesis .
qed

lemma mset_slice_stable: "mset (slice_stable lt xs) = mset xs"
proof -
  have "mset (foldl (insert_left lt) ys xs) = mset ys + mset xs" for ys
    by (induction xs arbitrary: ys) (auto simp: mset_insert_left)
  then show ?thesis by (simp add: slice_stable_def)
qed

lemma drop_while_rev:
  "drop (length ys - length (takeWhile P (rev ys))) ys = rev (takeWhile P (rev ys))"
  "take (length ys - length (takeWhile P (rev ys))) ys = rev (dropWhile P (rev ys))"
  by (metis length_rev rev_take rev_rev_ident takeWhile_eq_take,
      metis length_rev rev_drop rev_rev_ident dropWhile_eq_drop)

lemma sorted_insert_left:
  fixes key :: "'a \<Rightarrow> 'k::linorder"
  assumes "sorted (map key ys)"
  shows "sorted (map key (insert_left (\<lambda>a b. key a < key b) ys x))"
proof -
  let ?P = "\<lambda>y. key x < key y"
  define a where "a = rev (dropWhile ?P (rev ys))"
  define b where "b = rev (takeWhile ?P (rev ys))"
  have eq: "insert_left (\<lambda>a b. key a < key b) ys x = a @ x # b"
    by (simp add: insert_left_def Let_def drop_while_rev a_def b_def)
  have "ys = a @ b"
    unfolding a_def b_def by (metis rev_append rev_rev_ident takeWhile_dropWhile_id)
  with assms have sab: "sorted (map key a)" "sorted (map key b)" "\<forall>u\<in>set a. \<forall>v\<in>set b. key u \<le> key v"
    by (auto simp: sorted_append)
  have b: "\<forall>v\<in>set b. key x \<le> key v"
    by (auto simp: b_def dest!: set_takeWhileD)
  have "\<forall>u\<in>set a. key u \<le> key x"
  proof (cases a rule: rev_cases)
    case Nil
    then show ?thesis by simp
  next
    case (snoc a' l)
    then have "dropWhile ?P (rev ys) = l # rev a'"
      by (metis a_def rev_rev_ident rev_eq_Cons_iff)
    then have "key l \<le> key x"
      using hd_dropWhile [of ?P "rev ys"] by simp
    with sab(1) snoc show ?thesis by (auto simp: sorted_append)
  qed
  with sab b show ?thesis
    unfolding eq by (auto simp: sorted_append)
qed

lemma sorted_slice_stable:
  fixes key :: "'a \<Rightarrow> 'k::linorder"
  shows "sorted (map key (slice_stable (\<lambda>a b. key a < key b) xs))"
proof -
  have "sorted (map key ys) \<Longrightarrow> sorted (map key (foldl (insert_left (\<lambda>a b. key a < key b)) ys xs))" for ys
    by (induction xs arbitrary: ys) (auto simp: sorted_insert_left)
  then show ?thesis by (simp add: slice_stable_def)
qed

lemma sorted_sources: "sorted (map source_key (sort_normalized_sources xs))"
  using sorted_slice_stable [of source_key xs]
  by (simp add: sort_normalized_sources_def source_less_key [abs_def])

lemma mset_sources: "mset (sort_normalized_sources xs) = mset xs"
  by (simp add: sort_normalized_sources_def mset_slice_stable)

lemma set_sources: "set (sort_normalized_sources xs) = set xs"
  by (metis mset_sources set_mset_mset)

text \<open>A sorted list of sources is its custom sources followed by its default sources.\<close>

lemma sorted_split_defaulted:
  "sorted (map source_key ss) \<Longrightarrow>
   ss = filter (\<lambda>s. \<not> src_defaulted s) ss @ filter src_defaulted ss"
proof (induction ss)
  case Nil
  then show ?case by simp
next
  case (Cons s ss)
  show ?case
  proof (cases "src_defaulted s")
    case True
    with Cons.prems have "\<forall>t\<in>set ss. src_defaulted t"
      by (auto simp: source_key_def)
    then have "filter src_defaulted ss = ss" "filter (\<lambda>s. \<not> src_defaulted s) ss = []"
      by (auto simp: filter_id_conv filter_empty_conv)
    with True show ?thesis by simp
  next
    case False
    with Cons show ?thesis by simp
  qed
qed


section \<open>Where the sources come from\<close>

lemma rule_sources_spec:
  "rule_sources re i rs = Inr ss \<Longrightarrow>
   ss = map (\<lambda>(k, r). \<lparr>src_priority = rl_priority r, src_defaulted = is_default_name (rl_name r),
     src_index = k, src_rules = [r], src_warnings = []\<rparr>) (zip [i..<i + length rs] rs) \<and>
   (\<forall>r\<in>set rs. validate_rule re r = None)"
proof (induction rs arbitrary: i ss)
  case Nil
  then show ?case by simp
next
  case (Cons r rs)
  then obtain ss' where v: "validate_rule re r = None" and ss': "rule_sources re (Suc i) rs = Inr ss'"
    and ss: "ss = \<lparr>src_priority = rl_priority r, src_defaulted = is_default_name (rl_name r),
      src_index = i, src_rules = [r], src_warnings = []\<rparr> # ss'"
    by (auto simp: map_sum_eq_Inr split: option.splits)
  have "[i..<i + length (r # rs)] = i # [Suc i..<Suc i + length rs]"
    by (subst upt_conv_Cons) simp_all
  with Cons.IH [OF ss'] v ss show ?case by simp
qed

lemma import_sources_imported:
  "import_sources re dec env i imps = Inr ss \<Longrightarrow> s \<in> set ss \<Longrightarrow>
   \<exists>imp\<in>set imps. src_defaulted s = is_default_name (im_name imp) \<and> (\<forall>r\<in>set (src_rules s). imported_rule re imp r)"
proof (induction imps arbitrary: i ss)
  case Nil
  then show ?case by simp
next
  case (Cons imp imps)
  from Cons.prems(1) obtain p ss' where load: "load_import re dec env imp = Inr p"
    and rest: "import_sources re dec env (Suc i) imps = Inr ss'" and ss: "ss = import_source i imp p # ss'"
    by (auto simp: bind_sum_eq_Inr map_sum_eq_Inr)
  show ?case
  proof (cases "s = import_source i imp p")
    case True
    obtain out ws where p: "p = (out, ws)" by (cases p)
    from True p load_import_imported [OF load [unfolded p]] show ?thesis
      by (auto simp: import_source_def)
  next
    case False
    with Cons.prems(2) ss Cons.IH [OF rest] show ?thesis by auto
  qed
qed

lemma collect_results_imported:
  "collect_results i imps (fst (resolve_all sha re dec env ops c imps)) = Inr ss \<Longrightarrow> s \<in> set ss \<Longrightarrow>
   \<exists>imp\<in>set imps. src_defaulted s = is_default_name (im_name imp) \<and> (\<forall>r\<in>set (src_rules s). imported_rule re imp r)"
proof (induction imps arbitrary: i c ss)
  case Nil
  then show ?case by simp
next
  case (Cons imp imps)
  obtain r c1 where r: "resolve_import sha re dec env ops c imp = (r, c1)" by fastforce
  then have all: "fst (resolve_all sha re dec env ops c (imp # imps)) =
      r # fst (resolve_all sha re dec env ops c1 imps)"
    by (simp add: case_prod_beta)
  from Cons.prems(1) obtain p ss' where p: "r = Inr p"
    and rest: "collect_results (Suc i) imps (fst (resolve_all sha re dec env ops c1 imps)) = Inr ss'"
    and ss: "ss = import_source i imp p # ss'"
    unfolding all by (auto simp: bind_sum_eq_Inr map_sum_eq_Inr)
  show ?case
  proof (cases "s = import_source i imp p")
    case True
    obtain out ws where q: "p = (out, ws)" by (cases p)
    from True q resolve_import_imported [OF r [unfolded p q]] show ?thesis
      by (auto simp: import_source_def)
  next
    case False
    with Cons.prems(2) ss Cons.IH [OF rest] show ?thesis by auto
  qed
qed

text \<open>The rules and sources that the resolver's \<open>Normalize\<close> puts together.\<close>

lemma resolver_normalize_sources:
  assumes "fst (resolver_normalize sha re dec env ops c f) = Inr n"
  obtains rs imps where
    "rule_sources re 0 (rf_rules f) = Inr rs"
    "n = flatten_sources (sort_normalized_sources (rs @ imps))"
    "\<And>s. s \<in> set imps \<Longrightarrow> \<exists>imp\<in>set (rf_imports f). src_defaulted s = is_default_name (im_name imp) \<and>
       (\<forall>r\<in>set (src_rules s). imported_rule re imp r)"
proof -
  from assms obtain rs where rs: "rule_sources re 0 (rf_rules f) = Inr rs"
    by (auto simp: resolver_normalize_def split: sum.splits)
  with assms obtain imps where
    imps: "collect_results (length (rf_rules f)) (rf_imports f)
      (fst (resolve_all sha re dec env ops c (rf_imports f))) = Inr imps"
    and n: "n = flatten_sources (sort_normalized_sources (rs @ imps))"
    by (auto simp: resolver_normalize_def bind_sum_eq_Inr case_prod_beta)
  show ?thesis
    using that [OF rs n] collect_results_imported [OF imps] by blast
qed

lemma in_normalized_rules:
  "r \<in> set (n_rules (flatten_sources (sort_normalized_sources ss))) \<longleftrightarrow>
   (\<exists>s\<in>set ss. r \<in> set (src_rules s))"
  by (auto simp: flatten_sources_def set_sources)

text \<open>Inside each half, the key is the priority and the position, or the position alone.\<close>

lemma source_key_custom:
  assumes "source_key x \<le> source_key y" and "\<not> src_defaulted x" and "\<not> src_defaulted y"
  shows "(src_priority x = 0, src_priority x, src_index x) \<le> (src_priority y = 0, src_priority y, src_index y)"
  using assms by (simp add: source_key_def less_eq_prod_def less_prod_def) linarith

lemma source_key_default:
  assumes "source_key x \<le> source_key y" and "src_defaulted x" and "src_defaulted y"
  shows "src_index x \<le> src_index y"
  using assms by (simp add: source_key_def less_eq_prod_def less_prod_def)

lemma sorted_custom:
  "sorted (map source_key xs) \<Longrightarrow> sorted (map (\<lambda>s. (src_priority s = 0, src_priority s, src_index s))
     (filter (\<lambda>s. \<not> src_defaulted s) xs))"
proof (induction xs)
  case Nil
  then show ?case by simp
next
  case (Cons x xs)
  have "\<forall>y\<in>set xs. source_key x \<le> source_key y" using Cons.prems by simp
  then show ?case using Cons source_key_custom [of x] by simp
qed

lemma sorted_default:
  "sorted (map source_key xs) \<Longrightarrow> sorted (map src_index (filter src_defaulted xs))"
proof (induction xs)
  case Nil
  then show ?case by simp
next
  case (Cons x xs)
  have "\<forall>y\<in>set xs. source_key x \<le> source_key y" using Cons.prems by simp
  then show ?case using Cons source_key_default [of x] by simp
qed

section \<open>Properties\<close>

text \<open>
  The source order: sorting keeps every source exactly once, puts custom sources before
  default ones, orders the custom sources by their key (priorities from 1 upwards, then priority
  0, ties by position) and the default ones by position.
\<close>

theorem sort_normalized_sources_order:
  "mset (sort_normalized_sources ss) = mset ss \<and>
   sort_normalized_sources ss = filter (\<lambda>s. \<not> src_defaulted s) (sort_normalized_sources ss) @
     filter src_defaulted (sort_normalized_sources ss) \<and>
   sorted (map (\<lambda>s. (src_priority s = 0, src_priority s, src_index s))
     (filter (\<lambda>s. \<not> src_defaulted s) (sort_normalized_sources ss))) \<and>
   sorted (map src_index (filter src_defaulted (sort_normalized_sources ss)))"
  using mset_sources sorted_split_defaulted [OF sorted_sources] sorted_custom [OF sorted_sources]
    sorted_default [OF sorted_sources] by blast

text \<open>
  Custom rules win over the program's defaults: after the resolver's \<^verbatim>\<open>Normalize\<close>,
  whenever a custom local rule satisfies a test (such as matching a host), the first rule of the
  normalised list that satisfies it is a custom local rule or comes from a custom import.
\<close>

theorem custom_rule_beats_defaults:
  assumes "fst (resolver_normalize sha re dec env ops c f) = Inr n"
    and "r \<in> set (rf_rules f)" and "\<not> is_default_name (rl_name r)" and "m r"
  shows "\<exists>r'. find m (n_rules n) = Some r' \<and>
    (r' \<in> set (rf_rules f) \<and> \<not> is_default_name (rl_name r') \<or>
     (\<exists>imp\<in>set (rf_imports f). \<not> is_default_name (im_name imp) \<and> imported_rule re imp r'))"
proof -
  obtain rs imps where rs: "rule_sources re 0 (rf_rules f) = Inr rs"
    and n: "n = flatten_sources (sort_normalized_sources (rs @ imps))"
    and imps: "\<And>s. s \<in> set imps \<Longrightarrow> \<exists>imp\<in>set (rf_imports f).
      src_defaulted s = is_default_name (im_name imp) \<and> (\<forall>r\<in>set (src_rules s). imported_rule re imp r)"
    using resolver_normalize_sources [OF assms(1)] by blast
  define sorted where "sorted = sort_normalized_sources (rs @ imps)"
  define cs where "cs = filter (\<lambda>s. \<not> src_defaulted s) sorted"
  have rules: "n_rules n = concat (map src_rules cs) @ concat (map src_rules (filter src_defaulted sorted))"
    using sorted_split_defaulted [OF sorted_sources, of "rs @ imps"]
    by (simp add: n flatten_sources_def sorted_def [symmetric] cs_def [symmetric] flip: concat_append map_append)
  note spec = rule_sources_spec [OF rs]
  obtain s where s: "s \<in> set rs" "src_rules s = [r]" "\<not> src_defaulted s"
  proof -
    from assms(2) obtain k where "(k, r) \<in> set (zip [0..<length (rf_rules f)] (rf_rules f))"
      by (auto simp: set_zip in_set_conv_nth)
    with spec assms(3) that show thesis by force
  qed
  then have "r \<in> set (concat (map src_rules cs))"
    by (auto simp: cs_def sorted_def set_sources)
  then obtain r' where r': "find m (concat (map src_rules cs)) = Some r'"
    using find_eq_SomeI assms(4) by metis
  then have "r' \<in> set (concat (map src_rules cs))" using find_SomeD by metis
  then obtain s' where s': "s' \<in> set (rs @ imps)" "\<not> src_defaulted s'" "r' \<in> set (src_rules s')"
    by (auto simp: cs_def sorted_def set_sources)
  have "find m (n_rules n) = Some r'" by (simp add: rules find_append r')
  moreover have "r' \<in> set (rf_rules f) \<and> \<not> is_default_name (rl_name r') \<or>
     (\<exists>imp\<in>set (rf_imports f). \<not> is_default_name (im_name imp) \<and> imported_rule re imp r')"
    using s' spec imps [of s'] by (auto dest: set_zip_rightD)
  ultimately show ?thesis by blast
qed

definition sample_custom :: rule where
  "sample_custom = empty_rule\<lparr>rl_name := ''mine'', rl_exit := ''hk'', rl_domain_suffix := [''ipinfo.io'']\<rparr>"

definition sample_file :: rules_file where
  "sample_file = \<lparr>rf_imports = [], rf_rules = rf_rules managed_file @ [sample_custom]\<rparr>"

definition plain_re :: regexp_pkg where
  "plain_re = \<lparr>re_compiles = (\<lambda>p. True), re_matches = (\<lambda>p s. p = s)\<rparr>"

definition no_decoders :: decoders where
  "no_decoders = \<lparr>json_parse = (\<lambda>_. None), yaml_payload = (\<lambda>_. None)\<rparr>"

definition no_net :: net_env where
  "no_net = \<lparr>read_file = (\<lambda>_. None), http_do = (\<lambda>_. None)\<rparr>"

theorem custom_rule_beats_defaults_witness:
  "\<exists>r'. find (\<lambda>r. ''ipinfo.io'' \<in> set (rl_domain_suffix r)) (sample_custom # rf_rules managed_file) = Some r' \<and>
     rl_exit r' = ''hk''"
proof -
  have n: "fst (resolver_normalize id plain_re no_decoders no_net (None :: unit cache_ops option) () sample_file)
      = Inr \<lparr>n_rules = sample_custom # rf_rules managed_file, n_warnings = []\<rparr>"
    by code_simp
  have r: "sample_custom \<in> set (rf_rules sample_file)" "\<not> is_default_name (rl_name sample_custom)"
      "''ipinfo.io'' \<in> set (rl_domain_suffix sample_custom)"
    by code_simp+
  have "list_all (\<lambda>r. is_default_name (rl_name r) \<or> r = sample_custom) (rf_rules sample_file)"
    "rf_imports sample_file = []" "rl_exit sample_custom = ''hk''"
    by code_simp+
  with custom_rule_beats_defaults [OF n r(1,2), of "\<lambda>r. ''ipinfo.io'' \<in> set (rl_domain_suffix r)"] r(3)
  show ?thesis by (auto simp: list_all_iff)
qed

end
