(* ===== verification/Compiled.thy ===== *)
theory Compiled
  imports Normalize "HOL-Library.Sublist"
begin

text \<open>
  \<^verbatim>\<open>internal/rules/compiled.go\<close>: the compiled matcher. Exact names go to a hash map, suffixes to
  a trie over the labels of the name read from its end, keywords and patterns to a list; every
  entry carries the rank of its rule, and a lookup takes the least rank.

  The two indexes share one contract, the locale \<open>rank_index\<close>; the correctness of the matcher
  (the first gateway rule that matches wins) is proved from that contract.
\<close>

section \<open>The suffix trie\<close>

text \<open>A node maps a label to its child; rank \<open>-1\<close> means that no rule ends here.\<close>

datatype suffix_node = Node "string \<Rightarrow> suffix_node option" int

primrec node_children :: "suffix_node \<Rightarrow> string \<Rightarrow> suffix_node option" where
  "node_children (Node ch _) = ch"

primrec node_rank :: "suffix_node \<Rightarrow> int" where
  "node_rank (Node _ r) = r"

definition new_node :: suffix_node where
  "new_node = Node (\<lambda>_. None) (-1)"

definition set_node_rank :: "suffix_node \<Rightarrow> int \<Rightarrow> suffix_node" where
  "set_node_rank n rank = (if node_rank n < 0 \<or> rank < node_rank n then Node (node_children n) rank else n)"

text \<open>
  One turn of the loops of \<^verbatim>\<open>insert\<close> and \<^verbatim>\<open>match\<close> cuts the last label off the text that is left,
  \<^verbatim>\<open>host[:end]\<close>; \<open>label_start\<close> is \<^verbatim>\<open>LastIndexByte(host[:end], '.') + 1\<close>.
\<close>

definition label_start :: "string \<Rightarrow> nat" where
  "label_start p = (case last_index_char p (CHR ''.'') of None \<Rightarrow> 0 | Some i \<Rightarrow> i + 1)"

lemma label_start_le: "label_start p \<le> length p"
  by (auto simp: label_start_def Suc_le_eq split: option.splits dest: last_index_char_bound)

function node_insert :: "suffix_node \<Rightarrow> string \<Rightarrow> int \<Rightarrow> suffix_node" where
  "node_insert n p rank =
     (if p = [] then set_node_rank n rank
      else let start = label_start p; label = drop start p;
               nxt = (case node_children n label of None \<Rightarrow> new_node | Some t \<Rightarrow> t);
               nxt' = (if start = 0 then set_node_rank nxt rank
                        else node_insert nxt (take (start - 1) p) rank)
           in Node ((node_children n)(label := Some nxt')) (node_rank n))"
  by pat_completeness auto
termination
proof (relation "measure (\<lambda>(n, p, r). length p)", goal_cases)
  case 1
  then show ?case by simp
next
  case (2 n p rank start label nxt)
  then have "start \<le> length p" by (simp add: label_start_le)
  with 2 show ?case by simp
qed

function node_match_from :: "suffix_node \<Rightarrow> string \<Rightarrow> int \<Rightarrow> int" where
  "node_match_from current p best =
     (if p = [] then best
      else let start = label_start p in
        case node_children current (drop start p) of
          None \<Rightarrow> best
        | Some nxt \<Rightarrow>
            let best' = (if 0 \<le> node_rank nxt \<and> (best < 0 \<or> node_rank nxt < best)
                         then node_rank nxt else best)
            in if start = 0 then best' else node_match_from nxt (take (start - 1) p) best')"
  by pat_completeness auto
termination
proof (relation "measure (\<lambda>(n, p, r). length p)", goal_cases)
  case 1
  then show ?case by simp
next
  case (2 current p best start nxt best')
  then have "start \<le> length p" by (simp add: label_start_le)
  with 2 show ?case by simp
qed

declare node_insert.simps [simp del] node_match_from.simps [simp del]

definition node_match :: "suffix_node \<Rightarrow> string \<Rightarrow> int" where
  "node_match n host = node_match_from n host (-1)"

section \<open>Compile\<close>

definition normalize_match_host :: "string \<Rightarrow> string" where
  "normalize_match_host s = to_lower (trim_cut ''.'' (trim_space s))"

record compiled_complex =
  cx_rank :: nat
  cx_keywords :: "string list"
  cx_regexps :: "string list"

record compiled =
  c_rules :: "rule list"
  c_exact :: "string \<Rightarrow> nat option"
  c_suffix :: suffix_node
  c_complex :: "compiled_complex list"

definition empty_compiled :: compiled where
  "empty_compiled = \<lparr>c_rules = [], c_exact = (\<lambda>_. None), c_suffix = new_node, c_complex = []\<rparr>"

definition exact_insert :: "(string \<Rightarrow> nat option) \<Rightarrow> string \<Rightarrow> nat \<Rightarrow> (string \<Rightarrow> nat option)" where
  "exact_insert m host rank = (case m host of
     Some current \<Rightarrow> if rank < current then m(host := Some rank) else m
   | None \<Rightarrow> m(host := Some rank))"

definition suffix_insert :: "suffix_node \<Rightarrow> string \<Rightarrow> nat \<Rightarrow> suffix_node" where
  "suffix_insert n host rank = node_insert n host (int rank)"

text \<open>The loops over the values of one rule; an empty name is an error.\<close>

fun add_hosts :: "('i \<Rightarrow> string \<Rightarrow> nat \<Rightarrow> 'i) \<Rightarrow> 'e \<Rightarrow> nat \<Rightarrow> 'i \<Rightarrow> string list \<Rightarrow> 'e + 'i" where
  "add_hosts ins err rank m [] = Inr m"
| "add_hosts ins err rank m (v # vs) =
     (let host = normalize_match_host v in
      if host = [] then Inl err else add_hosts ins err rank (ins m host rank) vs)"

definition compile_rule :: "regexp_pkg \<Rightarrow> compiled \<Rightarrow> rule \<Rightarrow> rules_error + compiled" where
  "compile_rule re c r =
     (let rank = length (c_rules c) in
      bind_sum (add_hosts exact_insert (CompileEmptyDomain (rl_name r)) rank (c_exact c) (rl_domain r)) (\<lambda>ex.
      bind_sum (add_hosts suffix_insert (CompileEmptySuffix (rl_name r)) rank (c_suffix c) (rl_domain_suffix r)) (\<lambda>sx.
      case find (\<lambda>p. \<not> re_compiles re p) (rl_domain_regex r) of
        Some p \<Rightarrow> Inl (CompileBadRegex (rl_name r) p)
      | None \<Rightarrow>
        let entry = \<lparr>cx_rank = rank, cx_keywords = map to_lower (rl_domain_keyword r),
                     cx_regexps = rl_domain_regex r\<rparr>
        in Inr \<lparr>c_rules = c_rules c @ [r], c_exact = ex, c_suffix = sx,
             c_complex = (if cx_keywords entry \<noteq> [] \<or> cx_regexps entry \<noteq> []
                          then c_complex c @ [entry] else c_complex c)\<rparr>)))"

fun compile_rules :: "regexp_pkg \<Rightarrow> compiled \<Rightarrow> rule list \<Rightarrow> rules_error + compiled" where
  "compile_rules re c [] = Inr c"
| "compile_rules re c (r # rs) =
     (if \<not> gateway r then compile_rules re c rs
      else bind_sum (compile_rule re c r) (\<lambda>c'. compile_rules re c' rs))"

definition compile :: "regexp_pkg \<Rightarrow> normalized \<Rightarrow> rules_error + compiled" where
  "compile re n = compile_rules re empty_compiled (n_rules n)"

section \<open>Matching\<close>

definition match_complex :: "regexp_pkg \<Rightarrow> compiled_complex \<Rightarrow> string \<Rightarrow> bool" where
  "match_complex re e host \<longleftrightarrow> list_ex (\<lambda>k. contains_str host k) (cx_keywords e) \<or>
     list_ex (\<lambda>p. re_matches re p host) (cx_regexps e)"

fun complex_loop :: "regexp_pkg \<Rightarrow> string \<Rightarrow> nat \<Rightarrow> compiled_complex list \<Rightarrow> nat" where
  "complex_loop re host best [] = best"
| "complex_loop re host best (e # es) =
     (if best \<le> cx_rank e then best
      else if match_complex re e host then cx_rank e
      else complex_loop re host best es)"

definition compiled_best :: "regexp_pkg \<Rightarrow> compiled \<Rightarrow> string \<Rightarrow> nat" where
  "compiled_best re c host =
     (let best = (case c_exact c host of Some rank \<Rightarrow> rank | None \<Rightarrow> length (c_rules c));
          srank = node_match (c_suffix c) host;
          best' = (if 0 \<le> srank \<and> srank < int best then nat srank else best)
      in complex_loop re host best' (c_complex c))"

text \<open>\<^verbatim>\<open>MatchGatewayDomain\<close>, also on a nil receiver.\<close>

definition compiled_match :: "regexp_pkg \<Rightarrow> compiled option \<Rightarrow> string \<Rightarrow> rule option" where
  "compiled_match re co host = (case co of None \<Rightarrow> None
     | Some c \<Rightarrow> (let best = compiled_best re c (normalize_match_host host) in
         if best = length (c_rules c) then None else Some (c_rules c ! best)))"

definition compiled_len :: "compiled option \<Rightarrow> nat" where
  "compiled_len co = (case co of None \<Rightarrow> 0 | Some c \<Rightarrow> length (c_rules c))"

section \<open>The contract of an index of ranks\<close>

locale rank_index =
  fixes empty :: 'i
    and insert :: "'i \<Rightarrow> string \<Rightarrow> nat \<Rightarrow> 'i"
    and lookup :: "'i \<Rightarrow> string \<Rightarrow> nat option"
    and covers :: "string \<Rightarrow> string \<Rightarrow> bool"
    and key_ok :: "string \<Rightarrow> bool"
    and host_ok :: "string \<Rightarrow> bool"
  assumes lookup_empty: "lookup empty h = None"
    and lookup_insert: "key_ok k \<Longrightarrow> host_ok h \<Longrightarrow> lookup (insert i k r) h =
      (if covers k h then Some (case lookup i h of None \<Rightarrow> r | Some a \<Rightarrow> min r a) else lookup i h)"
begin

definition below :: "nat \<Rightarrow> 'i \<Rightarrow> bool" where
  "below n i \<longleftrightarrow> (\<forall>h a. host_ok h \<longrightarrow> lookup i h = Some a \<longrightarrow> a < n)"

lemma below_empty: "below n empty"
  by (simp add: below_def lookup_empty)

lemma below_mono: "below n i \<Longrightarrow> n \<le> m \<Longrightarrow> below m i"
  by (fastforce simp: below_def)

text \<open>Adding a rule whose rank is above all others gives its rank to what no earlier rule covers.\<close>

lemma lookup_fold_insert:
  assumes "\<And>k. k \<in> set ks \<Longrightarrow> key_ok k" and "host_ok h" and "\<And>a. lookup i h = Some a \<Longrightarrow> a \<le> n"
  shows "lookup (foldl (\<lambda>i k. insert i k n) i ks) h =
     (case lookup i h of Some a \<Rightarrow> Some a
      | None \<Rightarrow> if \<exists>k\<in>set ks. covers k h then Some n else None)"
  using assms
proof (induction ks arbitrary: i)
  case Nil
  then show ?case by (simp split: option.splits)
next
  case (Cons k ks)
  have ins: "lookup (insert i k n) h =
      (if covers k h then Some (case lookup i h of None \<Rightarrow> n | Some a \<Rightarrow> min n a) else lookup i h)"
    using Cons.prems by (intro lookup_insert) auto
  have "lookup (foldl (\<lambda>i k. insert i k n) (insert i k n) ks) h =
     (case lookup (insert i k n) h of Some a \<Rightarrow> Some a
      | None \<Rightarrow> if \<exists>k\<in>set ks. covers k h then Some n else None)"
    using Cons.prems by (intro Cons.IH) (auto simp: ins split: if_splits option.splits)
  with Cons.prems(3) show ?case
    by (auto simp: ins min_def split: option.splits)
qed

lemma below_fold_insert:
  assumes "\<And>k. k \<in> set ks \<Longrightarrow> key_ok k" and "below n i"
  shows "below (Suc n) (foldl (\<lambda>i k. insert i k n) i ks)"
  unfolding below_def
proof (intro allI impI)
  fix h a
  assume h: "host_ok h" and a: "lookup (foldl (\<lambda>i k. insert i k n) i ks) h = Some a"
  have "\<And>a. lookup i h = Some a \<Longrightarrow> a < n"
    using assms(2) h by (simp add: below_def)
  with lookup_fold_insert [OF assms(1) h, where i = i and n = n] a show "a < Suc n"
    by (fastforce split: option.splits if_splits)
qed

end

text \<open>The hash map satisfies it: a key covers itself.\<close>

interpretation exact_index: rank_index "\<lambda>_. None" exact_insert "\<lambda>m h. m h" "(=)" "\<lambda>_. True" "\<lambda>_. True"
  by unfold_locales (auto simp: exact_insert_def min_def split: option.splits)


section \<open>The trie satisfies the contract\<close>

text \<open>The labels of a name as the two loops see them, from the last to the first.\<close>

function host_labels :: "string \<Rightarrow> string list" where
  "host_labels p =
     (if p = [] then []
      else let start = label_start p in
        drop start p # (if start = 0 then [] else host_labels (take (start - 1) p)))"
  by pat_completeness auto
termination
proof (relation "measure length", goal_cases)
  case 1
  then show ?case by simp
next
  case (2 p start)
  then have "start \<le> length p" by (simp add: label_start_le)
  with 2 show ?case by simp
qed

declare host_labels.simps [simp del]

lemma host_labels_Nil [simp]: "host_labels [] = []"
  by (simp add: host_labels.simps)

primrec insert_labels :: "suffix_node \<Rightarrow> string list \<Rightarrow> int \<Rightarrow> suffix_node" where
  "insert_labels n [] r = set_node_rank n r"
| "insert_labels n (l # ls) r = Node ((node_children n)(l := Some (insert_labels
     (case node_children n l of None \<Rightarrow> new_node | Some t \<Rightarrow> t) ls r))) (node_rank n)"

lemma node_insert_labels: "node_insert n p r = insert_labels n (host_labels p) r"
proof (induction n p r rule: node_insert.induct)
  case (1 n p r)
  show ?case
  proof (cases "p = []")
    case True
    then show ?thesis by (simp add: node_insert.simps)
  next
    case False
    with 1 show ?thesis
      by (subst node_insert.simps, subst host_labels.simps) (simp add: Let_def)
  qed
qed

text \<open>Ranks with \<open>-1\<close> for none, and the least rank on a path.\<close>

definition min_rank :: "int \<Rightarrow> int \<Rightarrow> int" where
  "min_rank a b = (if a < 0 then b else if b < 0 then a else min a b)"

lemma min_rank_assoc: "min_rank (min_rank a b) c = min_rank a (min_rank b c)"
  by (simp add: min_rank_def min_def)

lemma min_rank_swap: "0 \<le> a \<or> 0 \<le> b \<Longrightarrow> min_rank a b = min_rank b a"
  by (auto simp: min_rank_def min_def)

primrec path_rank :: "string list \<Rightarrow> suffix_node \<Rightarrow> int" where
  "path_rank [] n = node_rank n"
| "path_rank (l # ls) n = min_rank (node_rank n)
     (case node_children n l of None \<Rightarrow> -1 | Some t \<Rightarrow> path_rank ls t)"

definition below_root :: "suffix_node \<Rightarrow> string list \<Rightarrow> int" where
  "below_root n ls = (case ls of [] \<Rightarrow> -1
     | l # ls' \<Rightarrow> (case node_children n l of None \<Rightarrow> -1 | Some t \<Rightarrow> path_rank ls' t))"

lemma path_rank_below_root: "min_rank (node_rank n) (below_root n ls) = path_rank ls n \<or>
   (ls = [] \<and> path_rank ls n = node_rank n)"
  by (cases ls) (auto simp: below_root_def)

lemma min_rank_none_left [simp]: "min_rank (-1) b = b"
  by (simp add: min_rank_def)

lemma min_rank_none_right: "-1 \<le> a \<Longrightarrow> min_rank a (-1) = a"
  by (simp add: min_rank_def)

text \<open>Ranks in a trie built by \<open>insert\<close> never drop below \<open>-1\<close>; the match then is the path's least rank.\<close>

lemma node_match_from_path:
  "-1 \<le> best \<Longrightarrow> node_match_from n p best \<ge> -1 \<and>
   (node_match_from n p best < 0 \<longleftrightarrow> min_rank best (below_root n (host_labels p)) < 0) \<and>
   (0 \<le> node_match_from n p best \<longrightarrow>
      node_match_from n p best = min_rank best (below_root n (host_labels p)))"
proof (induction n p best rule: node_match_from.induct)
  case (1 n p best)
  show ?case
  proof (cases "p = []")
    case True
    with 1 show ?thesis by (simp add: node_match_from.simps below_root_def min_rank_none_right)
  next
    case False
    define s where "s = label_start p"
    have labels: "host_labels p = drop s p # (if s = 0 then [] else host_labels (take (s - 1) p))"
      using False by (subst host_labels.simps) (simp add: s_def Let_def)
    show ?thesis
    proof (cases "node_children n (drop s p)")
      case None
      with False "1.prems" labels show ?thesis
        by (subst (1 2 3 4) node_match_from.simps)
          (simp add: Let_def s_def [symmetric] below_root_def min_rank_none_right)
    next
      case (Some t)
      define b where "b = (if 0 \<le> node_rank t \<and> (best < 0 \<or> node_rank t < best) then node_rank t else best)"
      have b1: "-1 \<le> b" using "1.prems" by (simp add: b_def)
      have b: "b = min_rank best (node_rank t) \<or> b < 0 \<and> min_rank best (node_rank t) < 0"
        by (auto simp: b_def min_rank_def)
      have step: "node_match_from n p best =
          (if s = 0 then b else node_match_from t (take (s - 1) p) b)"
        using False Some by (subst node_match_from.simps) (simp add: Let_def s_def [symmetric] b_def)
      have below: "below_root n (host_labels p) =
          path_rank (if s = 0 then [] else host_labels (take (s - 1) p)) t"
        using Some by (simp add: labels below_root_def)
      show ?thesis
      proof (cases "s = 0")
        case True
        then show ?thesis
          unfolding step below using b b1 by auto
      next
        case s: False
        let ?ls = "host_labels (take (s - 1) p)"
        have IH: "node_match_from t (take (s - 1) p) b \<ge> -1 \<and>
           (node_match_from t (take (s - 1) p) b < 0 \<longleftrightarrow> min_rank b (below_root t ?ls) < 0) \<and>
           (0 \<le> node_match_from t (take (s - 1) p) b \<longrightarrow>
              node_match_from t (take (s - 1) p) b = min_rank b (below_root t ?ls))"
          using "1.IH" [OF False s_def Some b_def s] b1 .
        have path: "path_rank ?ls t = min_rank (node_rank t) (below_root t ?ls) \<or>
            below_root t ?ls < 0 \<and> path_rank ?ls t = node_rank t"
          using path_rank_below_root [of t ?ls] by (auto simp: below_root_def)
        show ?thesis
          unfolding step below using s IH path b
          by (auto simp: min_rank_def min_def split: if_splits)
      qed
    qed
  qed
qed

lemma path_rank_insert:
  "0 \<le> r \<Longrightarrow> path_rank hs (insert_labels n ks r) =
     (if prefix ks hs then min_rank r (path_rank hs n) else path_rank hs n)"
proof (induction ks arbitrary: n hs)
  case Nil
  have "node_rank (set_node_rank n r) = min_rank r (node_rank n)"
    and "node_children (set_node_rank n r) = node_children n"
    using Nil by (auto simp: set_node_rank_def min_rank_def)
  then show ?case
    by (cases hs) (simp_all add: min_rank_assoc)
next
  case (Cons k ks)
  show ?case
  proof (cases hs)
    case Nil
    then show ?thesis by simp
  next
    case (Cons h hs')
    let ?c = "case node_children n k of None \<Rightarrow> new_node | Some t \<Rightarrow> t"
    have child: "path_rank hs' ?c = (case node_children n k of None \<Rightarrow> -1 | Some t \<Rightarrow> path_rank hs' t)"
      by (cases hs') (auto simp: new_node_def split: option.splits)
    show ?thesis
    proof (cases "h = k")
      case True
      with Cons Cons.IH [where n = ?c and hs = hs'] Cons.prems show ?thesis
        by (auto simp: child min_rank_def min_def split: option.splits)
    next
      case False
      with Cons show ?thesis by simp
    qed
  qed
qed

lemma below_root_insert:
  assumes "0 \<le> r" and "ks \<noteq> []"
  shows "below_root (insert_labels n ks r) hs =
    (if prefix ks hs then min_rank r (below_root n hs) else below_root n hs)"
proof (cases hs)
  case Nil
  with assms(2) show ?thesis by (simp add: below_root_def)
next
  case (Cons h hs')
  obtain k ks' where ks: "ks = k # ks'" using assms(2) by (cases ks) auto
  have new: "path_rank hs' new_node = -1"
    by (cases hs') (simp_all add: new_node_def)
  show ?thesis
    using assms(1) new
    by (auto simp: Cons ks below_root_def path_rank_insert split: option.splits)
qed

text \<open>The suffix index: its lookup, and what it means that a name covers another.\<close>

definition suffix_lookup :: "suffix_node \<Rightarrow> string \<Rightarrow> nat option" where
  "suffix_lookup n host = (if 0 \<le> node_match n host then Some (nat (node_match n host)) else None)"

lemma suffix_lookup_eq:
  "suffix_lookup n host = (let r = below_root n (host_labels host) in if 0 \<le> r then Some (nat r) else None)"
  using node_match_from_path [of "-1" n host]
  by (auto simp: suffix_lookup_def node_match_def Let_def)

definition bare_host :: "string \<Rightarrow> bool" where
  "bare_host h \<longleftrightarrow> h \<noteq> [] \<and> hd h \<noteq> CHR ''.''"

lemma label_start_append: "CHR ''.'' \<notin> set b \<Longrightarrow> label_start (a @ CHR ''.'' # b) = Suc (length a)"
  by (simp add: label_start_def last_index_char_append)

lemma host_labels_last:
  "CHR ''.'' \<notin> set b \<Longrightarrow> host_labels (a @ CHR ''.'' # b) = b # host_labels a"
  by (subst host_labels.simps) (simp add: label_start_append)

lemma host_labels_single: "b \<noteq> [] \<Longrightarrow> CHR ''.'' \<notin> set b \<Longrightarrow> host_labels b = [b]"
  by (subst host_labels.simps) (simp add: label_start_def last_index_char_def)

text \<open>For a name that does not start with a dot, cutting labels loses nothing.\<close>

lemma host_labels_append:
  "bare_host k \<Longrightarrow> host_labels (a @ CHR ''.'' # k) = host_labels k @ host_labels a"
proof (induction k rule: length_induct)
  case (1 k)
  show ?case
  proof (cases "CHR ''.'' \<in> set k")
    case False
    with 1 show ?thesis by (simp add: bare_host_def host_labels_last host_labels_single)
  next
    case True
    then obtain k1 k2 where k: "k = k1 @ CHR ''.'' # k2" "CHR ''.'' \<notin> set k2"
      by (metis split_list_last)
    with "1.prems" have "bare_host k1"
      by (cases k1) (auto simp: bare_host_def)
    with "1.IH" k have "host_labels (a @ CHR ''.'' # k1) = host_labels k1 @ host_labels a"
      by auto
    with k host_labels_last [of k2 "a @ CHR ''.'' # k1"] host_labels_last [of k2 k1] show ?thesis
      by simp
  qed
qed

lemma host_labels_inject: "bare_host h \<Longrightarrow> bare_host k \<Longrightarrow> host_labels h = host_labels k \<Longrightarrow> h = k"
proof (induction h arbitrary: k rule: length_induct)
  case (1 h)
  show ?case
  proof (cases "CHR ''.'' \<in> set h")
    case False
    with 1 have h: "host_labels h = [h]" by (simp add: bare_host_def host_labels_single)
    show ?thesis
    proof (cases "CHR ''.'' \<in> set k")
      case False
      with 1 h show ?thesis by (simp add: bare_host_def host_labels_single)
    next
      case True
      then obtain k1 k2 where k: "k = k1 @ CHR ''.'' # k2" "CHR ''.'' \<notin> set k2"
        by (metis split_list_last)
      with "1.prems" have "k1 \<noteq> []" by (auto simp: bare_host_def)
      then have "host_labels k1 \<noteq> []" by (subst host_labels.simps) (simp add: Let_def)
      with h k "1.prems" show ?thesis by (simp add: host_labels_last)
    qed
  next
    case True
    then obtain h1 h2 where h: "h = h1 @ CHR ''.'' # h2" "CHR ''.'' \<notin> set h2"
      by (metis split_list_last)
    with "1.prems" have bh: "bare_host h1" by (cases h1) (auto simp: bare_host_def)
    then have ne: "host_labels h1 \<noteq> []"
      by (subst host_labels.simps) (simp add: bare_host_def Let_def)
    have "CHR ''.'' \<in> set k"
    proof (rule ccontr)
      assume "CHR ''.'' \<notin> set k"
      with "1.prems" have "host_labels k = [k]" by (simp add: bare_host_def host_labels_single)
      with h ne "1.prems" show False by (simp add: host_labels_last)
    qed
    then obtain k1 k2 where k: "k = k1 @ CHR ''.'' # k2" "CHR ''.'' \<notin> set k2"
      by (metis split_list_last)
    with "1.prems" have bk: "bare_host k1" by (cases k1) (auto simp: bare_host_def)
    from h k "1.prems" have "h2 = k2" "host_labels h1 = host_labels k1"
      by (simp_all add: host_labels_last)
    with "1.IH" h bh bk k show ?thesis by auto
  qed
qed


lemma host_labels_not_Nil: "h \<noteq> [] \<Longrightarrow> host_labels h \<noteq> []"
  by (subst host_labels.simps) (simp add: Let_def)

lemma host_labels_prefix:
  "bare_host k \<Longrightarrow> bare_host h \<Longrightarrow> host_labels h = host_labels k @ ls \<Longrightarrow> ls \<noteq> [] \<Longrightarrow>
   \<exists>a. h = a @ CHR ''.'' # k"
proof (induction k arbitrary: h rule: length_induct)
  case (1 k)
  have "host_labels k \<noteq> []"
    using "1.prems"(1) by (simp add: bare_host_def host_labels_not_Nil)
  have dot: "CHR ''.'' \<in> set h"
  proof (rule ccontr)
    assume "CHR ''.'' \<notin> set h"
    with "1.prems" have "host_labels k @ ls = [h]"
      by (simp add: bare_host_def host_labels_single)
    with \<open>host_labels k \<noteq> []\<close> "1.prems"(4) show False
      by (cases "host_labels k") auto
  qed
  then obtain h1 h2 where h: "h = h1 @ CHR ''.'' # h2" "CHR ''.'' \<notin> set h2"
    by (metis split_list_last)
  with "1.prems"(2) have bh: "bare_host h1" by (cases h1) (auto simp: bare_host_def)
  show ?case
  proof (cases "CHR ''.'' \<in> set k")
    case False
    with "1.prems" h have "h2 = k" by (simp add: bare_host_def host_labels_single host_labels_last)
    with h show ?thesis by auto
  next
    case True
    then obtain k1 k2 where k: "k = k1 @ CHR ''.'' # k2" "CHR ''.'' \<notin> set k2"
      by (metis split_list_last)
    with "1.prems"(1) have bk: "bare_host k1" by (cases k1) (auto simp: bare_host_def)
    from h k "1.prems"(3) have "h2 = k2" "host_labels h1 = host_labels k1 @ ls"
      by (simp_all add: host_labels_last)
    moreover have "length k1 < length k" using k by simp
    ultimately obtain a where "h1 = a @ CHR ''.'' # k1"
      using "1.IH" bk bh "1.prems"(4) by blast
    with h k \<open>h2 = k2\<close> show ?thesis by simp
  qed
qed

lemma suffix_covers_iff:
  assumes k: "bare_host k" and h: "bare_host h"
  shows "prefix (host_labels k) (host_labels h) \<longleftrightarrow> suffix_matches h k"
proof
  assume "prefix (host_labels k) (host_labels h)"
  then obtain ls where ls: "host_labels h = host_labels k @ ls"
    by (auto simp: prefix_def)
  show "suffix_matches h k"
  proof (cases "ls = []")
    case True
    with ls have "h = k" using host_labels_inject [OF h k] by simp
    then show ?thesis by (simp add: suffix_matches_def)
  next
    case False
    from host_labels_prefix [OF k h ls this] show ?thesis
      by (auto simp: suffix_matches_def has_suffix_iff)
  qed
next
  assume "suffix_matches h k"
  then show "prefix (host_labels k) (host_labels h)"
    using host_labels_append [OF k] by (auto simp: suffix_matches_def has_suffix_iff)
qed

lemma suffix_matches_Nil: "bare_host k \<Longrightarrow> \<not> suffix_matches [] k"
  by (auto simp: suffix_matches_def has_suffix_def bare_host_def)

interpretation suffix_index: rank_index new_node suffix_insert suffix_lookup
  "\<lambda>k h. suffix_matches h k" bare_host "\<lambda>h. h = [] \<or> bare_host h"
proof
  fix h
  have "below_root new_node ls = -1" for ls
    by (simp add: below_root_def new_node_def split: list.splits)
  then show "suffix_lookup new_node h = None"
    by (simp add: suffix_lookup_eq)
next
  fix k h i r
  assume k: "bare_host k" and h: "h = [] \<or> bare_host h"
  then have ne: "host_labels k \<noteq> []"
    by (simp add: bare_host_def host_labels_not_Nil)
  have covers: "suffix_matches h k \<longleftrightarrow> prefix (host_labels k) (host_labels h)"
    using h suffix_covers_iff [OF k] suffix_matches_Nil [OF k] ne by auto
  show "suffix_lookup (suffix_insert i k r) h =
      (if suffix_matches h k then Some (case suffix_lookup i h of None \<Rightarrow> r | Some a \<Rightarrow> min r a)
       else suffix_lookup i h)"
    unfolding covers
    by (auto simp: suffix_insert_def suffix_lookup_eq node_insert_labels below_root_insert ne
        min_rank_def Let_def min_def)
qed

end
