(* ===== verification/Matching.thy ===== *)
theory Matching
  imports Compiled
begin

text \<open>
  The correctness of the compiled matcher of \<^verbatim>\<open>internal/rules/compiled.go\<close>: it returns the first
  gateway rule that matches, and agrees with the reference matcher of \<^verbatim>\<open>rules.go\<close>.
\<close>

section \<open>The compiled matcher finds the first matching gateway rule\<close>

text \<open>What it means for a rule to match a normalised name, on the normalised matchers.\<close>

definition rule_covers :: "regexp_pkg \<Rightarrow> string \<Rightarrow> rule \<Rightarrow> bool" where
  "rule_covers re host r \<longleftrightarrow>
     (\<exists>v\<in>set (rl_domain r). normalize_match_host v = host) \<or>
     (\<exists>v\<in>set (rl_domain_suffix r). suffix_matches host (normalize_match_host v)) \<or>
     (\<exists>v\<in>set (rl_domain_keyword r). contains_str host (to_lower v)) \<or>
     (\<exists>p\<in>set (rl_domain_regex r). re_matches re p host)"


lemma normalize_match_host_bare:
  "normalize_match_host s = [] \<or> bare_host (normalize_match_host s)"
proof -
  define a where "a = trim_left (\<lambda>c. c \<in> set ''.'') (trim_space s)"
  define b where "b = trim_right (\<lambda>c. c \<in> set ''.'') a"
  have b: "normalize_match_host s = to_lower b"
    by (simp add: normalize_match_host_def trim_cut_def a_def b_def)
  show ?thesis
  proof (cases "b = []")
    case True
    then show ?thesis by (simp add: b)
  next
    case False
    then have "hd b = hd a"
      unfolding b_def by (rule trim_right_hd)
    moreover have "a \<noteq> []"
      using False by (auto simp: b_def trim_right_def)
    ultimately have "hd b \<noteq> CHR ''.''"
      using trim_left_hd [of "\<lambda>c. c \<in> set ''.''" "trim_space s"] by (simp add: a_def)
    with False show ?thesis
      by (cases b) (auto simp: b bare_host_def to_lower_Cons)
  qed
qed

lemma add_hosts_fold:
  "add_hosts ins err n m vs = Inr m' \<Longrightarrow>
   m' = foldl (\<lambda>i k. ins i k n) m (map normalize_match_host vs) \<and>
   (\<forall>v\<in>set vs. bare_host (normalize_match_host v))"
  using normalize_match_host_bare
  by (induction vs arbitrary: m) (auto simp: Let_def split: if_splits)

text \<open>The state of the compiler between two rules: every rank is that of a rule seen so far.\<close>

definition compiled_inv :: "compiled \<Rightarrow> bool" where
  "compiled_inv c \<longleftrightarrow> exact_index.below (length (c_rules c)) (c_exact c) \<and>
     suffix_index.below (length (c_rules c)) (c_suffix c) \<and>
     (\<forall>e\<in>set (c_complex c). cx_rank e < length (c_rules c))"

lemma compiled_inv_empty: "compiled_inv empty_compiled"
  by (simp add: compiled_inv_def empty_compiled_def exact_index.below_empty suffix_index.below_empty)

lemma complex_loop_below:
  "\<forall>e\<in>set es. cx_rank e < b \<Longrightarrow> complex_loop re h b es =
     (case find (\<lambda>e. match_complex re e h) es of Some e \<Rightarrow> cx_rank e | None \<Rightarrow> b)"
  by (induction es) auto

lemma complex_loop_high: "b \<le> cx_rank e \<Longrightarrow> complex_loop re h b (es @ [e]) = complex_loop re h b es"
  by (induction es) auto

lemma complex_loop_le: "complex_loop re h b es \<le> b"
  by (induction es) auto

text \<open>The best rank of the two indexes.\<close>

definition index_best :: "compiled \<Rightarrow> string \<Rightarrow> nat" where
  "index_best c h = (case (c_exact c h, suffix_lookup (c_suffix c) h) of
     (None, None) \<Rightarrow> length (c_rules c) | (Some a, None) \<Rightarrow> a | (None, Some b) \<Rightarrow> b
   | (Some a, Some b) \<Rightarrow> min a b)"

lemma compiled_best_eq:
  assumes "compiled_inv c" and "h = [] \<or> bare_host h"
  shows "compiled_best re c h = complex_loop re h (index_best c h) (c_complex c)"
proof -
  have "\<And>b. suffix_lookup (c_suffix c) h = Some b \<Longrightarrow> b < length (c_rules c)"
    using assms by (auto simp: compiled_inv_def suffix_index.below_def)
  then show ?thesis
    by (auto simp: compiled_best_def index_best_def suffix_lookup_def Let_def min_def
        split: option.splits if_splits)
qed


text \<open>One more rule: what was matched before keeps its rank, the rest is the new rule's if it matches.\<close>

definition compiled_rank :: "regexp_pkg \<Rightarrow> compiled \<Rightarrow> string \<Rightarrow> nat option" where
  "compiled_rank re c h = (let b = compiled_best re c h in if b = length (c_rules c) then None else Some b)"

lemma compile_rule_cases:
  assumes "compile_rule re c r = Inr c'"
  obtains ex sx where
    "c_rules c' = c_rules c @ [r]"
    "c_exact c' = foldl (\<lambda>i k. exact_insert i k (length (c_rules c))) (c_exact c)
       (map normalize_match_host (rl_domain r))"
    "c_suffix c' = foldl (\<lambda>i k. suffix_insert i k (length (c_rules c))) (c_suffix c)
       (map normalize_match_host (rl_domain_suffix r))"
    "\<And>v. v \<in> set (rl_domain_suffix r) \<Longrightarrow> bare_host (normalize_match_host v)"
    "c_complex c' = c_complex c @ (if rl_domain_keyword r = [] \<and> rl_domain_regex r = [] then []
       else [\<lparr>cx_rank = length (c_rules c), cx_keywords = map to_lower (rl_domain_keyword r),
              cx_regexps = rl_domain_regex r\<rparr>])"
proof -
  from assms obtain ex sx where
    ex: "add_hosts exact_insert (CompileEmptyDomain (rl_name r)) (length (c_rules c)) (c_exact c) (rl_domain r) = Inr ex"
    and sx: "add_hosts suffix_insert (CompileEmptySuffix (rl_name r)) (length (c_rules c)) (c_suffix c)
      (rl_domain_suffix r) = Inr sx"
    and c': "c' = \<lparr>c_rules = c_rules c @ [r], c_exact = ex, c_suffix = sx,
      c_complex = c_complex c @ (if rl_domain_keyword r = [] \<and> rl_domain_regex r = [] then []
       else [\<lparr>cx_rank = length (c_rules c), cx_keywords = map to_lower (rl_domain_keyword r),
              cx_regexps = rl_domain_regex r\<rparr>])\<rparr>"
    by (auto simp: compile_rule_def Let_def bind_sum_eq_Inr split: option.splits if_splits)
  show ?thesis
    using add_hosts_fold [OF ex] add_hosts_fold [OF sx] by (intro that) (auto simp: c')
qed

lemma compiled_inv_step:
  assumes inv: "compiled_inv c" and step: "compile_rule re c r = Inr c'"
  shows "compiled_inv c'"
  using step
proof (rule compile_rule_cases)
  assume c': "c_rules c' = c_rules c @ [r]"
    "c_exact c' = foldl (\<lambda>i k. exact_insert i k (length (c_rules c))) (c_exact c)
       (map normalize_match_host (rl_domain r))"
    "c_suffix c' = foldl (\<lambda>i k. suffix_insert i k (length (c_rules c))) (c_suffix c)
       (map normalize_match_host (rl_domain_suffix r))"
    "\<And>v. v \<in> set (rl_domain_suffix r) \<Longrightarrow> bare_host (normalize_match_host v)"
    "c_complex c' = c_complex c @ (if rl_domain_keyword r = [] \<and> rl_domain_regex r = [] then []
       else [\<lparr>cx_rank = length (c_rules c), cx_keywords = map to_lower (rl_domain_keyword r),
              cx_regexps = rl_domain_regex r\<rparr>])"
  have "exact_index.below (Suc (length (c_rules c))) (c_exact c')"
    using inv unfolding c'(2) compiled_inv_def
    by (intro exact_index.below_fold_insert) auto
  moreover have "suffix_index.below (Suc (length (c_rules c))) (c_suffix c')"
    using inv c'(4) unfolding c'(3) compiled_inv_def
    by (intro suffix_index.below_fold_insert) auto
  ultimately show ?thesis
    using inv by (auto simp: compiled_inv_def c'(1,5) less_SucI)
qed

lemma index_best_step:
  assumes inv: "compiled_inv c" and step: "compile_rule re c r = Inr c'" and h: "h = [] \<or> bare_host h"
  shows "index_best c' h = (if index_best c h < length (c_rules c) then index_best c h
     else if (\<exists>v\<in>set (rl_domain r). normalize_match_host v = h) \<or>
       (\<exists>v\<in>set (rl_domain_suffix r). suffix_matches h (normalize_match_host v))
     then length (c_rules c) else Suc (length (c_rules c)))"
  using step
proof (rule compile_rule_cases)
  let ?n = "length (c_rules c)"
  assume c': "c_rules c' = c_rules c @ [r]"
    "c_exact c' = foldl (\<lambda>i k. exact_insert i k ?n) (c_exact c) (map normalize_match_host (rl_domain r))"
    "c_suffix c' = foldl (\<lambda>i k. suffix_insert i k ?n) (c_suffix c)
       (map normalize_match_host (rl_domain_suffix r))"
    "\<And>v. v \<in> set (rl_domain_suffix r) \<Longrightarrow> bare_host (normalize_match_host v)"
  have ex_lt: "\<And>a. c_exact c h = Some a \<Longrightarrow> a < ?n"
    using inv by (simp add: compiled_inv_def exact_index.below_def)
  have sx_lt: "\<And>a. suffix_lookup (c_suffix c) h = Some a \<Longrightarrow> a < ?n"
    using inv h by (auto simp: compiled_inv_def suffix_index.below_def)
  have ex: "c_exact c' h = (case c_exact c h of Some a \<Rightarrow> Some a
      | None \<Rightarrow> if \<exists>k\<in>set (map normalize_match_host (rl_domain r)). k = h then Some ?n else None)"
    unfolding c'(2) using ex_lt by (intro exact_index.lookup_fold_insert) (auto intro: less_imp_le)
  have sx: "suffix_lookup (c_suffix c') h = (case suffix_lookup (c_suffix c) h of Some a \<Rightarrow> Some a
      | None \<Rightarrow> if \<exists>k\<in>set (map normalize_match_host (rl_domain_suffix r)). suffix_matches h k
                then Some ?n else None)"
    unfolding c'(3) using sx_lt c'(4) h
    by (intro suffix_index.lookup_fold_insert) (auto intro: less_imp_le)
  show ?thesis
    using ex_lt sx_lt unfolding index_best_def ex sx c'(1)
    by (auto simp: min_def split: option.splits if_splits)
qed

lemma compiled_rank_step:
  assumes inv: "compiled_inv c" and step: "compile_rule re c r = Inr c'" and h: "h = [] \<or> bare_host h"
  shows "compiled_rank re c' h = (case compiled_rank re c h of Some i \<Rightarrow> Some i
     | None \<Rightarrow> if rule_covers re h r then Some (length (c_rules c)) else None)"
  using step
proof (rule compile_rule_cases)
  let ?n = "length (c_rules c)"
  let ?e = "\<lparr>cx_rank = ?n, cx_keywords = map to_lower (rl_domain_keyword r), cx_regexps = rl_domain_regex r\<rparr>"
  let ?dom = "(\<exists>v\<in>set (rl_domain r). normalize_match_host v = h) \<or>
       (\<exists>v\<in>set (rl_domain_suffix r). suffix_matches h (normalize_match_host v))"
  assume rules: "c_rules c' = c_rules c @ [r]" and
    cx: "c_complex c' = c_complex c @ (if rl_domain_keyword r = [] \<and> rl_domain_regex r = [] then [] else [?e])"
  have inv': "compiled_inv c'" using inv step by (rule compiled_inv_step)
  have lt: "\<forall>e\<in>set (c_complex c). cx_rank e < ?n" using inv by (simp add: compiled_inv_def)
  then have lt': "\<forall>e\<in>set (c_complex c). cx_rank e < Suc ?n" by auto
  have covers: "rule_covers re h r \<longleftrightarrow> ?dom \<or> match_complex re ?e h"
    by (auto simp: rule_covers_def match_complex_def list_ex_iff)
  have none: "rl_domain_keyword r = [] \<and> rl_domain_regex r = [] \<Longrightarrow> \<not> match_complex re ?e h"
    by (simp add: match_complex_def)
  note best = compiled_best_eq [OF inv h] compiled_best_eq [OF inv' h] index_best_step [OF inv step h]
  show ?thesis
  proof (cases "index_best c h < ?n")
    case True
    then have "complex_loop re h (index_best c h) (c_complex c') = complex_loop re h (index_best c h) (c_complex c)"
      by (simp add: cx complex_loop_high)
    moreover have "complex_loop re h (index_best c h) (c_complex c) < ?n"
      using True complex_loop_le le_less_trans by blast
    ultimately show ?thesis
      using True by (simp add: compiled_rank_def Let_def best rules)
  next
    case False
    then have n: "index_best c h = ?n"
      using inv h by (auto simp: index_best_def compiled_inv_def exact_index.below_def
          suffix_index.below_def min_def split: option.splits)
    have old: "compiled_rank re c h = (case find (\<lambda>e. match_complex re e h) (c_complex c) of
        Some e \<Rightarrow> Some (cx_rank e) | None \<Rightarrow> None)"
      using lt by (auto simp: compiled_rank_def Let_def best n complex_loop_below
          split: option.splits dest!: find_SomeD)
    have dom: "?dom \<Longrightarrow> compiled_best re c' h = (case find (\<lambda>e. match_complex re e h) (c_complex c) of
        Some e \<Rightarrow> cx_rank e | None \<Rightarrow> ?n)"
      using lt by (simp add: best n cx complex_loop_high complex_loop_below)
    have nodom: "\<not> ?dom \<Longrightarrow> compiled_best re c' h = (case find (\<lambda>e. match_complex re e h) (c_complex c') of
        Some e \<Rightarrow> cx_rank e | None \<Rightarrow> Suc ?n)"
      using inv' by (simp add: best n compiled_inv_def rules complex_loop_below)
    have new: "compiled_best re c' h = (case find (\<lambda>e. match_complex re e h) (c_complex c) of
        Some e \<Rightarrow> cx_rank e
      | None \<Rightarrow> if ?dom \<or> match_complex re ?e h then ?n else Suc ?n)"
    proof (cases ?dom)
      case True
      then show ?thesis using dom by (simp split: option.splits)
    next
      case False
      then show ?thesis using nodom none by (auto simp: cx find_append split: option.splits)
    qed
    show ?thesis
    proof (cases "find (\<lambda>e. match_complex re e h) (c_complex c)")
      case None
      then show ?thesis
        unfolding compiled_rank_def [of re c'] new old covers by (simp add: rules Let_def)
    next
      case (Some e)
      then have "cx_rank e < ?n" using lt find_SomeD by fastforce
      with Some show ?thesis
        unfolding compiled_rank_def [of re c'] new old by (simp add: rules Let_def)
    qed
  qed
qed

lemma compile_rule_rules: "compile_rule re c r = Inr c' \<Longrightarrow> c_rules c' = c_rules c @ [r]"
  by (erule compile_rule_cases) simp

text \<open>The rank of a host is the index of the first rule seen so far that matches it.\<close>

definition rank_ok :: "regexp_pkg \<Rightarrow> string \<Rightarrow> compiled \<Rightarrow> bool" where
  "rank_ok re h c \<longleftrightarrow> (case compiled_rank re c h of
     None \<Rightarrow> find (rule_covers re h) (c_rules c) = None
   | Some i \<Rightarrow> i < length (c_rules c) \<and> find (rule_covers re h) (c_rules c) = Some (c_rules c ! i))"

lemma rank_ok_step:
  assumes "compiled_inv c" and "compile_rule re c r = Inr c'" and "h = [] \<or> bare_host h"
    and "rank_ok re h c"
  shows "rank_ok re h c'"
  using assms(4) unfolding rank_ok_def compiled_rank_step [OF assms(1-3)]
  by (auto simp: compile_rule_rules [OF assms(2)] find_append nth_append split: option.splits)

lemma compile_rules_spec:
  assumes "compile_rules re c rs = Inr c'" and "compiled_inv c" and h: "h = [] \<or> bare_host h"
    and "rank_ok re h c"
  shows "c_rules c' = c_rules c @ filter gateway rs \<and> rank_ok re h c'"
  using assms(1,2,4)
proof (induction rs arbitrary: c)
  case Nil
  then show ?case by simp
next
  case (Cons r rs)
  show ?case
  proof (cases "gateway r")
    case False
    with Cons show ?thesis by simp
  next
    case True
    with Cons.prems(1) obtain c1 where c1: "compile_rule re c r = Inr c1"
      and rest: "compile_rules re c1 rs = Inr c'"
      by (auto simp: bind_sum_eq_Inr)
    from Cons.IH [OF rest compiled_inv_step [OF Cons.prems(2) c1] rank_ok_step [OF Cons.prems(2) c1 h Cons.prems(3)]]
    show ?thesis using True by (simp add: compile_rule_rules [OF c1])
  qed
qed

lemma compiled_match_first:
  assumes "compile re n = Inr c"
  shows "compiled_match re (Some c) host =
    find (rule_covers re (normalize_match_host host)) (gateway_rules n)"
proof -
  let ?h = "normalize_match_host host"
  have h: "?h = [] \<or> bare_host ?h" by (rule normalize_match_host_bare)
  have "compiled_rank re empty_compiled ?h = None"
    using compiled_best_eq [OF compiled_inv_empty h]
    by (simp add: compiled_rank_def Let_def index_best_def empty_compiled_def suffix_index.lookup_empty)
  then have "rank_ok re ?h empty_compiled"
    by (simp add: rank_ok_def empty_compiled_def)
  from compile_rules_spec [OF assms [unfolded compile_def] compiled_inv_empty h this]
  have spec: "c_rules c = gateway_rules n" "rank_ok re ?h c"
    by (simp_all add: gateway_rules_def empty_compiled_def)
  then show ?thesis
    by (auto simp: compiled_match_def rank_ok_def compiled_rank_def Let_def split: if_splits)
qed

section \<open>Agreement with the reference matcher\<close>

text \<open>
  The reference strips one trailing dot of a name (and one leading dot of a suffix), the
  compiled matcher strips white space and every outer dot. They agree on names where that is
  the same.
\<close>

definition plain_name :: "string \<Rightarrow> bool" where
  "plain_name s \<longleftrightarrow> normalize_match_host s = to_lower (trim_suffix s ''.'')"

definition plain_suffix :: "string \<Rightarrow> bool" where
  "plain_suffix s \<longleftrightarrow> normalize_match_host s = to_lower (trim_prefix (trim_suffix s ''.'') ''.'')"

definition plain_rule :: "rule \<Rightarrow> bool" where
  "plain_rule r \<longleftrightarrow> list_all plain_name (rl_domain r) \<and> list_all plain_suffix (rl_domain_suffix r)"

lemma match_rule_domain_covers:
  assumes "plain_rule r" and "\<And>p. p \<in> set (rl_domain_regex r) \<Longrightarrow> re_compiles re p"
    and "to_lower h = h"
  shows "match_rule_domain re r h = Ret (rule_covers re h r)"
  using assms
  by (auto simp: match_rule_domain_total rule_covers_def list_ex_iff plain_rule_def plain_name_def
      plain_suffix_def list_all_iff equal_fold_def)

lemma compile_rules_regexes:
  "compile_rules re c rs = Inr c' \<Longrightarrow> r \<in> set rs \<Longrightarrow> gateway r \<Longrightarrow> p \<in> set (rl_domain_regex r) \<Longrightarrow>
   re_compiles re p"
proof (induction rs arbitrary: c)
  case Nil
  then show ?case by simp
next
  case (Cons r0 rs)
  then show ?case
    by (auto simp: bind_sum_eq_Inr compile_rule_def Let_def find_None_iff split: if_splits option.splits)
qed


section \<open>Properties\<close>

text \<open>
  Claim C1. The compiled matcher is correct: when \<^verbatim>\<open>Compile\<close> accepts the normalised rules, a
  lookup returns the first gateway rule, in rule order, one of whose exact names, suffixes,
  keywords or patterns matches the normalised host, and nothing when no gateway rule does. The
  hash map, the suffix trie, the rank comparison and the early exit of the keyword loop are all
  covered.
\<close>

theorem compiled_match_correct:
  assumes "compile re n = Inr c"
  shows "compiled_match re (Some c) host =
    find (rule_covers re (normalize_match_host host)) (gateway_rules n)"
  using assms by (rule compiled_match_first)

definition sample_re :: regexp_pkg where
  "sample_re = \<lparr>re_compiles = (\<lambda>p. True), re_matches = (\<lambda>p s. p = s)\<rparr>"

definition sample_norm :: normalized where
  "sample_norm = \<lparr>n_rules = [
     empty_rule\<lparr>rl_name := ''a'', rl_exit := ''x'', rl_domain_suffix := [''a.io'']\<rparr>,
     empty_rule\<lparr>rl_name := ''b'', rl_exit := ''y'', rl_domain := [''w.a.io'', ''b.io'']\<rparr>], n_warnings = []\<rparr>"

lemma sample_compiles: "\<exists>c. compile sample_re sample_norm = Inr c"
  by (simp add: compile_def sample_norm_def sample_re_def empty_rule_def gateway_def compile_rule_def
      normalize_match_host_def trim_cut_def trim_space_def trim_left_def trim_right_def is_space_def
      to_lower_def lower_char_def Let_def)

theorem compiled_match_correct_witness:
  "\<exists>c. compile sample_re sample_norm = Inr c \<and>
     map_option rl_name (compiled_match sample_re (Some c) ''W.a.io.'') = Some ''a'' \<and>
     map_option rl_name (compiled_match sample_re (Some c) ''b.io'') = Some ''b'' \<and>
     compiled_match sample_re (Some c) ''ba.io'' = None"
proof -
  obtain c where c: "compile sample_re sample_norm = Inr c"
    using sample_compiles by blast
  have "map_option rl_name (find (rule_covers sample_re (normalize_match_host ''W.a.io.'')) (gateway_rules sample_norm)) = Some ''a''"
    "map_option rl_name (find (rule_covers sample_re (normalize_match_host ''b.io'')) (gateway_rules sample_norm)) = Some ''b''"
    "find (rule_covers sample_re (normalize_match_host ''ba.io'')) (gateway_rules sample_norm) = None"
    by code_simp+
  with c compiled_match_correct [OF c] show ?thesis by auto
qed



end
