(* ===== verification/Config.thy ===== *)
theory Config
  imports Rules
begin

text \<open>
  The configuration of \<^verbatim>\<open>internal/config\<close>: its structs as records, the identifiers derived from
  exit names, the defaults that \<^verbatim>\<open>ApplyDefaults\<close> fills in and the lookups on a configuration.

  A Go pointer field (\<^verbatim>\<open>*int\<close>, \<^verbatim>\<open>*bool\<close>) and a slice whose \<^verbatim>\<open>nil\<close> matters (\<^verbatim>\<open>CustomPools\<close>) are
  options. Go's 64-bit \<^verbatim>\<open>int\<close> fields hold parsed values only and are compared, never computed with,
  so they are integers. SHA-256, printed in hexadecimal, is the parameter \<open>sha\<close>.
\<close>

section \<open>The structs\<close>

record system_config =
  sy_config_dir :: string
  sy_state_dir :: string
  sy_run_dir :: string
  sy_user :: string

record panel_config =
  pa_listen :: string
  pa_allowed_cidrs :: "string list"

record network_config =
  nw_gateway_ip :: string
  nw_internal_cidr :: string
  nw_ingress_iface :: string
  nw_http_redirect_port :: int
  nw_https_redirect_port :: int
  nw_quic_redirect_port :: int
  nw_tcp_redirect_port :: int
  nw_haproxy_max_connections :: "int option"
  nw_quic_policy :: string
  nw_encrypted_dns_policy :: string

record routing_config =
  ro_fallback_exit :: string

record dns_pool_config =
  po_name :: string
  po_probe_domain :: string
  po_upstreams :: "string list"

record dns_config =
  dn_binary :: string
  dn_dot_domain :: string
  dn_listen_udp :: string
  dn_listen_tcp :: string
  dn_listen_dot :: string
  dn_listen_public_dot :: string
  dn_backend_resolvers :: "string list"
  dn_cert_dir :: string
  dn_cert_file :: string
  dn_key_file :: string
  dn_cache_size :: int
  dn_upstreams_cn :: "string list"
  dn_upstreams_overseas_private :: "string list"
  dn_upstreams_overseas_public :: "string list"
  dn_custom_pools :: "dns_pool_config list option"

record logging_config =
  lg_level :: string
  lg_access :: "bool option"

record ios_config =
  io_enabled :: bool
  io_listen :: string
  io_base_url :: string
  io_organization :: string
  io_profile_identifier :: string

record exit_config =
  ex_name :: string
  ex_type :: string
  ex_fwmark :: int
  ex_server :: string
  ex_server_port :: int
  ex_method :: string
  ex_password :: string
  ex_username :: string
  ex_listen_address :: string
  ex_listen_port :: int
  ex_tcp :: "bool option"
  ex_udp :: "bool option"
  ex_timeout_seconds :: int

record config =
  cf_system :: system_config
  cf_panel :: panel_config
  cf_network :: network_config
  cf_routing :: routing_config
  cf_dns :: dns_config
  cf_logging :: logging_config
  cf_ios :: ios_config
  cf_exits :: "exit_config list"

section \<open>Identifiers of exits\<close>

definition is_id_char :: "char \<Rightarrow> bool" where
  "is_id_char c \<longleftrightarrow> is_alnum c \<or> c = CHR ''_''"

text \<open>\<^verbatim>\<open>exitIDUnsafePattern.ReplaceAllString(name, "_")\<close>: every maximal run of unsafe bytes.\<close>

fun replace_unsafe :: "bool \<Rightarrow> string \<Rightarrow> string" where
  "replace_unsafe run [] = []"
| "replace_unsafe run (c # s) =
     (if is_id_char c then c # replace_unsafe False s
      else if run then replace_unsafe True s else CHR ''_'' # replace_unsafe True s)"

definition exit_id :: "(string \<Rightarrow> string) \<Rightarrow> string \<Rightarrow> string" where
  "exit_id sha name =
     (if name \<noteq> [] \<and> list_all is_id_char name then name
      else let slug0 = trim_cut ''_'' (replace_unsafe False name);
               slug = (if slug0 = [] then ''exit'' else slug0)
           in if name \<noteq> [] \<and> list_all is_name_char name then slug
              else take 48 slug @ ''_'' @ take 16 (sha name))"

lemma is_id_char_us [simp]: "is_id_char CHR ''_''"
  by (simp add: is_id_char_def)

lemma replace_unsafe_id: "list_all is_id_char (replace_unsafe b s)"
  by (induction b s rule: replace_unsafe.induct) auto

lemma list_all_trim_cut: "list_all P s \<Longrightarrow> list_all P (trim_cut cs s)"
  unfolding list_all_iff trim_cut_def
  using set_trim_right [of "\<lambda>c. c \<in> set cs" "trim_left (\<lambda>c. c \<in> set cs) s"]
    set_trim_left [of "\<lambda>c. c \<in> set cs" s] by blast

lemma list_all_take: "list_all P s \<Longrightarrow> list_all P (take n s)"
  by (auto simp: list_all_iff dest: in_set_takeD)

text \<open>
  An identifier is never empty and has only letters, digits and underscores (given that a digest
  prints as such characters).
\<close>

lemma exit_id_safe:
  assumes "\<And>s. list_all is_id_char (sha s)"
  shows "exit_id sha name \<noteq> [] \<and> list_all is_id_char (exit_id sha name)"
proof -
  define slug where "slug = (let s = trim_cut ''_'' (replace_unsafe False name) in if s = [] then ''exit'' else s)"
  have "is_alnum c" if "c \<in> set ''exit''" for c
    using that by (auto simp: is_alnum_def)
  then have "list_all is_id_char ''exit''"
    by (simp add: list_all_iff is_id_char_def)
  then have slug: "slug \<noteq> []" "list_all is_id_char slug"
    by (auto simp: slug_def Let_def intro: list_all_trim_cut replace_unsafe_id)
  have "exit_id sha name = (if name \<noteq> [] \<and> list_all is_id_char name then name
      else if name \<noteq> [] \<and> list_all is_name_char name then slug
      else take 48 slug @ ''_'' @ take 16 (sha name))"
    by (simp add: exit_id_def slug_def Let_def)
  with slug list_all_take [OF assms [of name]] list_all_take [OF slug(2)] show ?thesis
    by auto
qed

section \<open>Accessors\<close>

definition access_enabled :: "logging_config \<Rightarrow> bool" where
  "access_enabled l = (case lg_access l of None \<Rightarrow> True | Some b \<Rightarrow> b)"

definition tcp_enabled :: "exit_config \<Rightarrow> bool" where
  "tcp_enabled e = (case ex_tcp e of None \<Rightarrow> True | Some b \<Rightarrow> b)"

definition udp_enabled :: "exit_config \<Rightarrow> bool" where
  "udp_enabled e = (case ex_udp e of None \<Rightarrow> True | Some b \<Rightarrow> b)"

definition ss_rust_mode :: "exit_config \<Rightarrow> string" where
  "ss_rust_mode e =
     (if tcp_enabled e \<and> udp_enabled e then ''tcp_and_udp''
      else if tcp_enabled e then ''tcp_only''
      else if udp_enabled e then ''udp_only'' else [])"

definition find_exit :: "exit_config list \<Rightarrow> string \<Rightarrow> exit_config option" where
  "find_exit es name = find (\<lambda>e. ex_name e = name) es"

definition exit_by_name :: "config \<Rightarrow> string \<Rightarrow> exit_config option" where
  "exit_by_name c name = find_exit (cf_exits c) name"

lemma find_exit_SomeD: "find_exit es n = Some e \<Longrightarrow> e \<in> set es \<and> ex_name e = n"
  unfolding find_exit_def by (rule find_SomeD)

lemma find_exit_distinct:
  "distinct (map ex_name es) \<Longrightarrow> e \<in> set es \<Longrightarrow> find_exit es (ex_name e) = Some e"
proof (induction es)
  case Nil
  then show ?case by simp
next
  case (Cons a es)
  then show ?case by (auto simp: find_exit_def)
qed

section \<open>Pools\<close>

definition pools :: "dns_config \<Rightarrow> dns_pool_config list" where
  "pools d =
     [\<lparr>po_name = ''cn'', po_probe_domain = ''www.baidu.com'', po_upstreams = dn_upstreams_cn d\<rparr>,
      \<lparr>po_name = ''overseas_private'', po_probe_domain = ''www.cloudflare.com'',
        po_upstreams = dn_upstreams_overseas_private d\<rparr>,
      \<lparr>po_name = ''overseas_public'', po_probe_domain = ''www.cloudflare.com'',
        po_upstreams = dn_upstreams_overseas_public d\<rparr>]
     @ (case dn_custom_pools d of None \<Rightarrow> [] | Some ps \<Rightarrow> ps)"

definition pool_names :: "dns_config \<Rightarrow> string list" where
  "pool_names d = map po_name (pools d)"

definition default_netease_dns_pool :: dns_pool_config where
  "default_netease_dns_pool = \<lparr>po_name = ''cn_netease'', po_probe_domain = ''music.163.com'',
     po_upstreams = [''117.50.10.10'', ''52.80.66.66'', ''210.2.4.8'']\<rparr>"

definition default_unicom_dns_pool :: dns_pool_config where
  "default_unicom_dns_pool = \<lparr>po_name = ''cn_unicom'', po_probe_domain = ''img.client.10010.com'',
     po_upstreams = [''180.76.76.76'', ''1.2.4.8'']\<rparr>"

section \<open>Migration of the domestic upstreams\<close>

definition default_cn_upstreams :: "string list" where
  "default_cn_upstreams = [''223.5.5.5'', ''223.6.6.6'', ''119.29.29.29'', ''180.76.76.76'',
     ''https://dns.alidns.com/dns-query'', ''tls://dns.alidns.com'']"

definition legacy_expanded_cn_upstreams :: "string list" where
  "legacy_expanded_cn_upstreams = [''180.76.76.76'', ''101.226.4.6'', ''218.30.118.6'',
     ''114.114.114.114'', ''114.114.115.115'', ''117.50.10.10'', ''52.80.66.66'', ''223.5.5.5'',
     ''223.6.6.6'', ''https://dns.alidns.com/dns-query'', ''tls://dns.alidns.com'', ''119.29.29.29'',
     ''https://doh.pub/dns-query'', ''tls://1.12.12.12'', ''180.184.1.1'', ''180.184.2.2'',
     ''https://doh.360.cn/dns-query'', ''tls://dot.360.cn'', ''https://doh-pure.onedns.net/dns-query'',
     ''tls://dot-pure.onedns.net'', ''1.2.4.8'', ''210.2.4.8'']"

definition dot_pub_old :: string where
  "dot_pub_old = ''tls://dot.pub''"

definition dot_pub_replacement :: string where
  "dot_pub_replacement = ''tls://1.12.12.12''"

fun migrate_loop :: "bool \<Rightarrow> string list \<Rightarrow> string list" where
  "migrate_loop present [] = []"
| "migrate_loop present (v # vs) =
     (if v \<noteq> dot_pub_old then v # migrate_loop present vs
      else if \<not> present then dot_pub_replacement # migrate_loop True vs
      else migrate_loop present vs)"

definition migrate_dot_pub_upstream :: "string list \<Rightarrow> string list" where
  "migrate_dot_pub_upstream vs = migrate_loop (dot_pub_replacement \<in> set vs) vs"

definition legacy_cn_lists :: "string list list" where
  "legacy_cn_lists =
     [[''180.76.76.76'', ''101.226.4.6'', ''218.30.118.6''],
      [''180.76.76.76'', ''101.226.4.6'', ''218.30.118.6'', ''114.114.114.114'', ''114.114.115.115'',
       ''117.50.10.10'', ''52.80.66.66'']]"

definition uses_legacy_cn_upstreams :: "string list \<Rightarrow> bool" where
  "uses_legacy_cn_upstreams vs \<longleftrightarrow> vs \<in> set legacy_cn_lists"

fun append_missing_loop :: "string list \<Rightarrow> string list \<Rightarrow> string list" where
  "append_missing_loop out [] = out"
| "append_missing_loop out (a # as) = append_missing_loop (if a \<in> set out then out else out @ [a]) as"

definition append_missing :: "string list \<Rightarrow> string list \<Rightarrow> string list" where
  "append_missing vs additions = append_missing_loop vs additions"

section \<open>ApplyDefaults\<close>

definition or_string :: "string \<Rightarrow> string \<Rightarrow> string" where
  "or_string s d = (if s = [] then d else s)"

definition or_int :: "int \<Rightarrow> int \<Rightarrow> int" where
  "or_int i d = (if i = 0 then d else i)"

definition or_list :: "'a list \<Rightarrow> 'a list \<Rightarrow> 'a list" where
  "or_list xs d = (if xs = [] then d else xs)"

definition default_haproxy_max_connections :: int where
  "default_haproxy_max_connections = 16384"

definition default_system :: "system_config \<Rightarrow> system_config" where
  "default_system s = \<lparr>sy_config_dir = or_string (sy_config_dir s) ''/etc/5gws'',
     sy_state_dir = or_string (sy_state_dir s) ''/var/lib/5gws'',
     sy_run_dir = or_string (sy_run_dir s) ''/run/5gws'',
     sy_user = or_string (sy_user s) ''5gws''\<rparr>"

definition default_panel :: "string \<Rightarrow> panel_config \<Rightarrow> panel_config" where
  "default_panel cidr p = \<lparr>pa_listen = or_string (pa_listen p) ''127.0.0.1:19443'',
     pa_allowed_cidrs = (if pa_allowed_cidrs p = [] \<and> cidr \<noteq> []
       then [''127.0.0.0/8'', ''::1/128'', cidr] else pa_allowed_cidrs p)\<rparr>"

definition default_network :: "network_config \<Rightarrow> network_config" where
  "default_network n = n\<lparr>nw_http_redirect_port := or_int (nw_http_redirect_port n) 18080,
     nw_https_redirect_port := or_int (nw_https_redirect_port n) 18443,
     nw_quic_redirect_port := or_int (nw_quic_redirect_port n) 18443,
     nw_tcp_redirect_port := or_int (nw_tcp_redirect_port n) 18082,
     nw_haproxy_max_connections := (case nw_haproxy_max_connections n of
         None \<Rightarrow> Some default_haproxy_max_connections | Some v \<Rightarrow> Some v),
     nw_quic_policy := or_string (nw_quic_policy n) ''reject'',
     nw_encrypted_dns_policy := or_string (nw_encrypted_dns_policy n) ''reject''\<rparr>"

definition default_upstreams_cn :: "string list \<Rightarrow> string list" where
  "default_upstreams_cn vs = migrate_dot_pub_upstream
     (if vs = [] then default_cn_upstreams
      else if uses_legacy_cn_upstreams vs then append_missing vs legacy_expanded_cn_upstreams
      else vs)"

definition default_dns :: "system_config \<Rightarrow> dns_config \<Rightarrow> dns_config" where
  "default_dns s d = d\<lparr>dn_binary := or_string (dn_binary d) ''smartdns'',
     dn_listen_udp := or_string (dn_listen_udp d) ''0.0.0.0:1053'',
     dn_listen_tcp := or_string (dn_listen_tcp d) ''0.0.0.0:1053'',
     dn_listen_dot := or_string (dn_listen_dot d) ''0.0.0.0:1853'',
     dn_listen_public_dot := or_string (dn_listen_public_dot d) ''0.0.0.0:853'',
     dn_backend_resolvers := or_list (dn_backend_resolvers d) [''1.1.1.1:53'', ''1.0.0.1:53'',
       ''8.8.8.8:53'', ''8.8.4.4:53'', ''9.9.9.9:53'', ''22.22.22.22:53''],
     dn_cert_dir := or_string (dn_cert_dir d) (sy_state_dir s @ ''/ios''),
     dn_cert_file := or_string (dn_cert_file d) (sy_config_dir s @ ''/certs/fullchain.pem''),
     dn_key_file := or_string (dn_key_file d) (sy_config_dir s @ ''/certs/privkey.pem''),
     dn_cache_size := or_int (dn_cache_size d) 8192,
     dn_upstreams_cn := default_upstreams_cn (dn_upstreams_cn d),
     dn_upstreams_overseas_private := or_list (dn_upstreams_overseas_private d) [''22.22.22.22''],
     dn_upstreams_overseas_public := or_list (dn_upstreams_overseas_public d) [''1.1.1.1'',
       ''8.8.8.8'', ''9.9.9.9'', ''https://cloudflare-dns.com/dns-query'',
       ''https://dns.quad9.net/dns-query''],
     dn_custom_pools := (case dn_custom_pools d of
         None \<Rightarrow> Some [default_netease_dns_pool, default_unicom_dns_pool] | Some ps \<Rightarrow> Some ps)\<rparr>"

definition default_ios :: "string \<Rightarrow> string \<Rightarrow> ios_config \<Rightarrow> ios_config" where
  "default_ios gateway_ip dot_domain i = i\<lparr>
     io_base_url := (if (io_base_url i = [] \<or> io_base_url i = ''http://'' @ gateway_ip @ '':8088'') \<and>
         dot_domain \<noteq> [] then ''https://'' @ dot_domain else io_base_url i),
     io_organization := or_string (io_organization i) ''5gws'',
     io_profile_identifier := or_string (io_profile_identifier i) ''dev.5gws.dot''\<rparr>"

definition default_exit :: "exit_config \<Rightarrow> exit_config" where
  "default_exit e = (if ex_type e \<noteq> ''shadowsocks-rust'' then e
     else e\<lparr>ex_method := or_string (ex_method e) ''2022-blake3-aes-128-gcm'',
       ex_timeout_seconds := or_int (ex_timeout_seconds e) 300\<rparr>)"

definition apply_defaults :: "config \<Rightarrow> config" where
  "apply_defaults c =
     (let sy = default_system (cf_system c) in
      \<lparr>cf_system = sy,
       cf_panel = default_panel (nw_internal_cidr (cf_network c)) (cf_panel c),
       cf_network = default_network (cf_network c),
       cf_routing = \<lparr>ro_fallback_exit = or_string (ro_fallback_exit (cf_routing c)) ''direct''\<rparr>,
       cf_dns = default_dns sy (cf_dns c),
       cf_logging = (cf_logging c)\<lparr>lg_level := or_string (lg_level (cf_logging c)) ''info''\<rparr>,
       cf_ios = default_ios (nw_gateway_ip (cf_network c)) (dn_dot_domain (cf_dns c)) (cf_ios c),
       cf_exits = map default_exit (cf_exits c)\<rparr>)"

section \<open>The defaults are stable\<close>

text \<open>
  The migration of the domestic upstreams removes every \<^verbatim>\<open>tls://dot.pub\<close>, and a list it changed
  has the replacement, which no legacy list has.
\<close>

lemma migrate_loop_no_old: "dot_pub_old \<notin> set vs \<Longrightarrow> migrate_loop b vs = vs"
  by (induction b vs rule: migrate_loop.induct) auto

lemma repl_old [simp]: "dot_pub_replacement \<noteq> dot_pub_old" "dot_pub_old \<noteq> dot_pub_replacement"
  by (simp_all add: dot_pub_replacement_def dot_pub_old_def)

lemma old_notin_migrate: "dot_pub_old \<notin> set (migrate_loop b vs)"
  by (induction b vs rule: migrate_loop.induct) auto

lemma migrate_loop_keeps_repl: "dot_pub_replacement \<in> set vs \<Longrightarrow> dot_pub_replacement \<in> set (migrate_loop b vs)"
  by (induction b vs rule: migrate_loop.induct) auto

lemma migrate_loop_adds: "dot_pub_old \<in> set vs \<Longrightarrow> dot_pub_replacement \<in> set (migrate_loop False vs)"
  by (induction vs) auto

lemma migrate_changed: "migrate_dot_pub_upstream vs = vs \<or> dot_pub_replacement \<in> set (migrate_dot_pub_upstream vs)"
  by (metis migrate_dot_pub_upstream_def migrate_loop_adds migrate_loop_keeps_repl migrate_loop_no_old)

lemma legacy_no_repl: "uses_legacy_cn_upstreams vs \<Longrightarrow> dot_pub_replacement \<notin> set vs"
  by (auto simp: uses_legacy_cn_upstreams_def legacy_cn_lists_def dot_pub_replacement_def)

lemma migrate_idem: "migrate_dot_pub_upstream (migrate_dot_pub_upstream vs) = migrate_dot_pub_upstream vs"
  by (simp add: migrate_dot_pub_upstream_def migrate_loop_no_old old_notin_migrate)

lemma migrate_nonempty: "migrate_dot_pub_upstream vs = [] \<longleftrightarrow> vs = []"
  by (metis empty_iff list.set(1) migrate_changed migrate_dot_pub_upstream_def migrate_loop.simps(1))

lemma append_missing_set: "set (append_missing_loop vs as) = set vs \<union> set as"
  by (induction vs as rule: append_missing_loop.induct) auto

lemma not_legacy_after: "\<not> uses_legacy_cn_upstreams (default_upstreams_cn vs)"
proof
  assume l: "uses_legacy_cn_upstreams (default_upstreams_cn vs)"
  define ws where "ws = (if vs = [] then default_cn_upstreams
      else if uses_legacy_cn_upstreams vs then append_missing vs legacy_expanded_cn_upstreams else vs)"
  have "default_upstreams_cn vs = migrate_dot_pub_upstream ws" by (simp add: default_upstreams_cn_def ws_def)
  with l legacy_no_repl migrate_changed [of ws] have ws: "uses_legacy_cn_upstreams ws" by metis
  have "\<not> uses_legacy_cn_upstreams default_cn_upstreams" by code_simp
  moreover have "dot_pub_replacement \<in> set legacy_expanded_cn_upstreams" by code_simp
  then have "\<not> uses_legacy_cn_upstreams (append_missing vs legacy_expanded_cn_upstreams)"
    using legacy_no_repl by (metis UnI2 append_missing_def append_missing_set)
  ultimately show False using ws by (auto simp: ws_def split: if_splits)
qed

lemma default_upstreams_cn_idem: "default_upstreams_cn (default_upstreams_cn vs) = default_upstreams_cn vs"
proof -
  have "append_missing vs legacy_expanded_cn_upstreams \<noteq> []" if "vs \<noteq> []"
    using that append_missing_set [of vs legacy_expanded_cn_upstreams]
    by (metis Un_empty append_missing_def set_empty)
  then have "default_upstreams_cn vs \<noteq> []"
    by (simp add: default_upstreams_cn_def migrate_nonempty default_cn_upstreams_def)
  then show ?thesis
    using not_legacy_after [of vs]
    by (subst default_upstreams_cn_def) (simp add: default_upstreams_cn_def migrate_idem)
qed

lemma or_string_idem [simp]: "or_string (or_string s d) d = or_string s d"
  by (simp add: or_string_def)

lemma or_int_idem [simp]: "or_int (or_int s d) d = or_int s d"
  by (simp add: or_int_def)

lemma or_list_idem [simp]: "or_list (or_list s d) d = or_list s d"
  by (simp add: or_list_def)

lemma default_system_idem [simp]: "default_system (default_system s) = default_system s"
  by (simp add: default_system_def)

lemma default_panel_idem: "default_panel k (default_panel k p) = default_panel k p"
  by (simp add: default_panel_def)

lemma default_network_idem [simp]: "default_network (default_network n) = default_network n"
  by (simp add: default_network_def split: option.splits)

lemma default_dns_idem: "default_dns s (default_dns s d) = default_dns s d"
  by (simp add: default_dns_def default_upstreams_cn_idem split: option.splits)

lemma default_ios_idem: "default_ios g d (default_ios g d i) = default_ios g d i"
  by (simp add: default_ios_def)

lemma default_exit_idem: "default_exit (default_exit e) = default_exit e"
  by (simp add: default_exit_def)

lemma default_frame [simp]:
  "nw_internal_cidr (default_network n) = nw_internal_cidr n"
  "nw_gateway_ip (default_network n) = nw_gateway_ip n"
  "dn_dot_domain (default_dns s d) = dn_dot_domain d"
  by (simp_all add: default_network_def default_dns_def)

lemma apply_defaults_twice: "apply_defaults (apply_defaults c) = apply_defaults c"
  by (simp add: apply_defaults_def Let_def default_panel_idem default_dns_idem default_ios_idem
      default_exit_idem)

text \<open>
  \<^verbatim>\<open>ApplyDefaults\<close> is idempotent: applying the defaults to a configuration that already
  has them changes nothing, migrations of old upstream lists included, so a stored configuration
  survives any number of load and save cycles.
\<close>

theorem apply_defaults_idem: "apply_defaults (apply_defaults c) = apply_defaults c"
  by (rule apply_defaults_twice)

end
