(* ===== verification/Go_Base64.thy ===== *)
theory Go_Base64
  imports Go_Net
begin

text \<open>
  \<^verbatim>\<open>base64.StdEncoding\<close>: the decoder (not strict: carriage returns and line feeds are skipped, the
  unused low bits of the last character are not checked).
\<close>

definition b64_val :: "char \<Rightarrow> nat option" where
  "b64_val c = (let n = of_char c :: nat in
     if 65 \<le> n \<and> n \<le> 90 then Some (n - 65)
     else if 97 \<le> n \<and> n \<le> 122 then Some (n - 71)
     else if 48 \<le> n \<and> n \<le> 57 then Some (n + 4)
     else if n = 43 then Some 62 else if n = 47 then Some 63 else None)"

fun decode_quanta :: "string \<Rightarrow> bytes option" where
  "decode_quanta [] = Some []"
| "decode_quanta (a # b # c # d # r) =
     (case (b64_val a, b64_val b) of (Some x, Some y) \<Rightarrow>
        (case b64_val c of
           None \<Rightarrow> if c = CHR ''='' \<and> d = CHR ''='' \<and> r = []
             then Some [word_of_nat (4 * x + y div 16)] else None
         | Some z \<Rightarrow> (case b64_val d of
             None \<Rightarrow> if d = CHR ''='' \<and> r = []
               then Some [word_of_nat (4 * x + y div 16), word_of_nat (16 * y + z div 4)] else None
           | Some w \<Rightarrow> map_option (\<lambda>bs. word_of_nat (4 * x + y div 16) #
               word_of_nat (16 * y + z div 4) # word_of_nat (64 * z + w) # bs) (decode_quanta r)))
      | _ \<Rightarrow> None)"
| "decode_quanta _ = None"

definition decode_base64 :: "string \<Rightarrow> bytes option" where
  "decode_base64 s = decode_quanta (filter (\<lambda>c. c \<noteq> CHR 0x0A \<and> c \<noteq> CHR 0x0D) s)"

end
