(* ===== verification/Config_Validate.thy ===== *)
theory Config_Validate
  imports Config Go_Base64
begin

text \<open>
  \<^verbatim>\<open>Config.Validate\<close> and the checks it is made of. Every error message of the code is a value of
  \<open>config_error\<close>; the order of the checks is that of the code, except that the two loops over a
  Go map (the redirect ports and the listen addresses) run in no fixed order there and in the
  order listed here, which can change which error is reported but not whether there is one.

  \<^verbatim>\<open>url.Parse\<close> is the parameter \<open>up\<close>: its result is the parts of the URL that the code reads.
\<close>

record url =
  u_scheme :: string
  u_host :: string
  u_has_user :: bool
  u_path :: string
  u_raw_query :: string
  u_fragment :: string

datatype (plugins only: code size) config_error =
    GatewayIPInvalid string | InternalCIDRInvalid string | IngressIfaceRequired
  | PortInvalid string int | HAProxyMaxRequired | HAProxyMaxNegative
  | QUICPolicyInvalid string | EncryptedDNSPolicyInvalid string
  | AddrNotHostPort string | AddrPortRequired string | AddrPortInvalid string string
  | AddrHostNotIP string string | AddrNotLoopback string string
  | AllowedCIDRsRequired | AllowedCIDRInvalid string | ExitsRequired
  | LogLevelInvalid string
  | IOSBaseURLNotHTTPS string | IOSBaseURLNotOrigin string | IOSOrganizationRequired
  | IOSProfileIdentifierInvalid string
  | DNSBinaryRequired | DOTDomainRequired | DomainIsIP string string | DomainInvalid string string
  | BackendResolversRequired | CertDirRequired | CertPairRequired | CertRequiredForPublicDOT
  | CacheSizeNegative | UpstreamsRequired | PoolNameInvalid string | PoolNameDuplicate string
  | PoolUpstreamsRequired string | UpstreamInvalid string string
  | ExitNameTypeRequired | ExitTypeUnsupported string string | ExitServerRequired string
  | ExitServerPortInvalid string | ExitPasswordRequired string
  | KeyColonUnsupported string | KeyPartEmpty string string | KeyPartNotBase64 string string
  | KeyPartWrongLength string string nat
  | ExitNoTransport string | ExitTimeoutNegative string | ExitDuplicate string
  | FallbackRequired | FallbackNoTCP string | FallbackUnknown string

section \<open>Addresses, ports and names\<close>

definition validate_port :: "string \<Rightarrow> int \<Rightarrow> config_error option" where
  "validate_port field p = err_if (p \<le> 0 \<or> 65535 < p) (PortInvalid field p)"

definition validate_host_port :: "string \<Rightarrow> string \<Rightarrow> bool \<Rightarrow> config_error option" where
  "validate_host_port field addr require_loopback = (case split_host_port addr of
     None \<Rightarrow> Some (AddrNotHostPort field)
   | Some (host, port) \<Rightarrow>
     if port = [] then Some (AddrPortRequired field)
     else case atoi port of None \<Rightarrow> Some (AddrPortInvalid field port)
     | Some n \<Rightarrow>
       if n \<le> 0 \<or> 65535 < n then Some (AddrPortInvalid field port)
       else case parse_ip host of None \<Rightarrow> Some (AddrHostNotIP field host)
       | Some ip \<Rightarrow>
         if require_loopback \<and> \<not> ip_is_loopback ip then Some (AddrNotLoopback field host) else None)"

definition is_lower_alnum_dash :: "char \<Rightarrow> bool" where
  "is_lower_alnum_dash c \<longleftrightarrow> (let n = of_char c :: nat in
     (97 \<le> n \<and> n \<le> 122) \<or> (48 \<le> n \<and> n \<le> 57) \<or> c = CHR ''-'')"

definition label_ok :: "string \<Rightarrow> bool" where
  "label_ok l \<longleftrightarrow> l \<noteq> [] \<and> length l \<le> 63 \<and> hd l \<noteq> CHR ''-'' \<and> last l \<noteq> CHR ''-'' \<and>
     list_all is_lower_alnum_dash l"

definition validate_domain_name :: "string \<Rightarrow> string \<Rightarrow> config_error option" where
  "validate_domain_name field v =
     (if parse_ip v \<noteq> None then Some (DomainIsIP field v)
      else let name = trim_suffix (to_lower (trim_space v)) ''.'' in
        if name = [] \<or> 253 < length name \<or> CHR ''.'' \<notin> set name then Some (DomainInvalid field v)
        else err_if (\<not> list_all label_ok (split_char CHR ''.'' name)) (DomainInvalid field v))"

section \<open>The parts of a configuration\<close>

definition validate_network :: "network_config \<Rightarrow> config_error option" where
  "validate_network n = first_err
     [validate_port ''network.http_redirect_port'' (nw_http_redirect_port n),
      validate_port ''network.https_redirect_port'' (nw_https_redirect_port n),
      validate_port ''network.quic_redirect_port'' (nw_quic_redirect_port n),
      validate_port ''network.tcp_redirect_port'' (nw_tcp_redirect_port n),
      (case nw_haproxy_max_connections n of None \<Rightarrow> Some HAProxyMaxRequired
         | Some v \<Rightarrow> err_if (v < 0) HAProxyMaxNegative),
      err_if (nw_quic_policy n \<notin> {''reject'', ''proxy''}) (QUICPolicyInvalid (nw_quic_policy n)),
      err_if (nw_encrypted_dns_policy n \<notin> {''reject'', ''allow''})
        (EncryptedDNSPolicyInvalid (nw_encrypted_dns_policy n))]"

definition validate_panel :: "panel_config \<Rightarrow> config_error option" where
  "validate_panel p = first_err
     (validate_host_port ''panel.listen'' (pa_listen p) False
      # err_if (pa_allowed_cidrs p = []) AllowedCIDRsRequired
      # map (\<lambda>v. err_if (parse_cidr v = None) (AllowedCIDRInvalid v)) (pa_allowed_cidrs p))"

definition validate_logging :: "logging_config \<Rightarrow> config_error option" where
  "validate_logging l =
     err_if (lg_level l \<notin> {''debug'', ''info'', ''warn'', ''error''}) (LogLevelInvalid (lg_level l))"

definition profile_char :: "char \<Rightarrow> bool" where
  "profile_char c \<longleftrightarrow> is_alnum c \<or> c \<in> {CHR ''.'', CHR ''-''}"

definition validate_ios :: "(string \<Rightarrow> url option) \<Rightarrow> ios_config \<Rightarrow> config_error option" where
  "validate_ios up i =
     (if \<not> io_enabled i then None
      else case up (io_base_url i) of None \<Rightarrow> Some (IOSBaseURLNotHTTPS (io_base_url i))
      | Some u \<Rightarrow> first_err
        [err_if (u_scheme u \<noteq> ''https'' \<or> u_host u = []) (IOSBaseURLNotHTTPS (io_base_url i)),
         err_if (u_has_user u \<or> (u_path u \<noteq> [] \<and> u_path u \<noteq> ''/'') \<or> u_raw_query u \<noteq> [] \<or>
           u_fragment u \<noteq> []) (IOSBaseURLNotOrigin (io_base_url i)),
         err_if (io_organization i = []) IOSOrganizationRequired,
         err_if (io_profile_identifier i = [] \<or> \<not> list_all profile_char (io_profile_identifier i))
           (IOSProfileIdentifierInvalid (io_profile_identifier i))])"

fun validate_pools :: "string list \<Rightarrow> dns_pool_config list \<Rightarrow> config_error option" where
  "validate_pools seen [] = None"
| "validate_pools seen (p # ps) =
     (if \<not> valid_dns_pool_name (po_name p) then Some (PoolNameInvalid (po_name p))
      else if po_name p \<in> set seen then Some (PoolNameDuplicate (po_name p))
      else case validate_domain_name ''dns.custom_pools.probe_domain'' (po_probe_domain p) of
        Some e \<Rightarrow> Some e
      | None \<Rightarrow>
        if po_upstreams p = [] then Some (PoolUpstreamsRequired (po_name p))
        else validate_pools (po_name p # seen) ps)"

definition upstream_bad :: "string \<Rightarrow> bool" where
  "upstream_bad u \<longleftrightarrow> trim_space u = [] \<or> list_ex is_space u"

definition validate_upstreams :: "dns_pool_config list \<Rightarrow> config_error option" where
  "validate_upstreams ps = first_err (concat (map (\<lambda>p.
     map (\<lambda>u. err_if (upstream_bad u) (UpstreamInvalid (po_name p) u)) (po_upstreams p)) ps))"

definition validate_dns :: "dns_config \<Rightarrow> config_error option" where
  "validate_dns d = first_err
     ([err_if (dn_binary d = []) DNSBinaryRequired,
       validate_host_port ''dns.listen_udp'' (dn_listen_udp d) False,
       validate_host_port ''dns.listen_tcp'' (dn_listen_tcp d) False,
       validate_host_port ''dns.listen_dot'' (dn_listen_dot d) False,
       (if dn_listen_public_dot d = [] then None
        else first_err
          [validate_host_port ''dns.listen_public_dot'' (dn_listen_public_dot d) False,
           err_if (dn_dot_domain d = []) DOTDomainRequired,
           validate_domain_name ''dns.dot_domain'' (dn_dot_domain d)]),
       err_if (dn_backend_resolvers d = []) BackendResolversRequired]
      @ map (\<lambda>r. validate_host_port ''dns.backend_resolvers'' r False) (dn_backend_resolvers d)
      @ [err_if (dn_cert_dir d = []) CertDirRequired,
         err_if ((dn_cert_file d = []) \<noteq> (dn_key_file d = [])) CertPairRequired,
         err_if (dn_listen_public_dot d \<noteq> [] \<and> (dn_cert_file d = [] \<or> dn_key_file d = []))
           CertRequiredForPublicDOT,
         err_if (dn_cache_size d < 0) CacheSizeNegative,
         err_if (dn_upstreams_cn d = [] \<or> dn_upstreams_overseas_private d = [] \<or>
           dn_upstreams_overseas_public d = []) UpstreamsRequired,
         validate_pools [''cn'', ''overseas_private'', ''overseas_public'']
           (case dn_custom_pools d of None \<Rightarrow> [] | Some ps \<Rightarrow> ps),
         validate_upstreams (pools d)])"

section \<open>Shadowsocks keys\<close>

definition ss2022_key_spec :: "string \<Rightarrow> (nat \<times> bool) option" where
  "ss2022_key_spec m =
     (if m = ''2022-blake3-aes-128-gcm'' then Some (16, True)
      else if m = ''2022-blake3-aes-256-gcm'' then Some (32, True)
      else if m = ''2022-blake3-chacha20-poly1305'' then Some (32, False)
      else None)"

definition ss_key_part_name :: "nat \<Rightarrow> nat \<Rightarrow> string" where
  "ss_key_part_name i n = (if Suc i = n then ''user key'' else ''identity key '' @ nat_str (i + 1))"

definition validate_ss_key_part :: "string \<Rightarrow> string \<Rightarrow> string \<Rightarrow> nat \<Rightarrow> config_error option" where
  "validate_ss_key_part meth name v want =
     (if v = [] then Some (KeyPartEmpty name meth)
      else case decode_base64 v of None \<Rightarrow> Some (KeyPartNotBase64 name meth)
      | Some key \<Rightarrow> err_if (length key \<noteq> want) (KeyPartWrongLength name meth (length key)))"

definition validate_ss_key :: "string \<Rightarrow> string \<Rightarrow> config_error option" where
  "validate_ss_key meth password = (case ss2022_key_spec meth of None \<Rightarrow> None
     | Some (n, chain) \<Rightarrow>
       if \<not> chain \<and> CHR '':'' \<in> set password then Some (KeyColonUnsupported meth)
       else let parts = (if chain then split_char CHR '':'' password else [password]) in
         first_err (map (\<lambda>(i, p). validate_ss_key_part meth (ss_key_part_name i (length parts)) p n)
           (zip [0..<length parts] parts)))"

section \<open>Exits and routing\<close>

definition validate_shadowsocks_exit :: "exit_config \<Rightarrow> config_error option" where
  "validate_shadowsocks_exit e = first_err
     [err_if (ex_server e = []) (ExitServerRequired (ex_name e)),
      err_if (ex_server_port e \<le> 0 \<or> 65535 < ex_server_port e) (ExitServerPortInvalid (ex_name e)),
      err_if (ex_password e = [] \<and> \<not> has_prefix (ex_method e) ''2022-blake3-'')
        (ExitPasswordRequired (ex_name e)),
      validate_ss_key (ex_method e) (ex_password e),
      validate_host_port (''exit '' @ ex_name e @ '' listen'')
        (join_host_port (ex_listen_address e) (int_str (ex_listen_port e))) True,
      err_if (\<not> tcp_enabled e \<and> \<not> udp_enabled e) (ExitNoTransport (ex_name e)),
      err_if (ex_timeout_seconds e < 0) (ExitTimeoutNegative (ex_name e))]"

definition validate_exit :: "exit_config \<Rightarrow> config_error option" where
  "validate_exit e =
     (if trim_space (ex_name e) = [] \<or> ex_type e = [] then Some ExitNameTypeRequired
      else if ex_type e = ''direct'' then None
      else if ex_type e = ''shadowsocks-rust'' then validate_shadowsocks_exit e
      else Some (ExitTypeUnsupported (ex_name e) (ex_type e)))"

fun validate_exits :: "string list \<Rightarrow> exit_config list \<Rightarrow> config_error option" where
  "validate_exits seen [] = None"
| "validate_exits seen (e # es) = (case validate_exit e of Some err \<Rightarrow> Some err
     | None \<Rightarrow> if ex_name e \<in> set seen then Some (ExitDuplicate (ex_name e))
         else validate_exits (ex_name e # seen) es)"

definition validate_routing :: "routing_config \<Rightarrow> exit_config list \<Rightarrow> config_error option" where
  "validate_routing r es =
     (if ro_fallback_exit r = [] then Some FallbackRequired
      else case find (\<lambda>e. ex_name e = ro_fallback_exit r) es of
        None \<Rightarrow> Some (FallbackUnknown (ro_fallback_exit r))
      | Some e \<Rightarrow> err_if (ex_type e = ''shadowsocks-rust'' \<and> \<not> tcp_enabled e) (FallbackNoTCP (ex_name e)))"

definition validate :: "(string \<Rightarrow> url option) \<Rightarrow> config \<Rightarrow> config_error option" where
  "validate up c = first_err
     [err_if (parse_ip (nw_gateway_ip (cf_network c)) = None) (GatewayIPInvalid (nw_gateway_ip (cf_network c))),
      err_if (parse_cidr (nw_internal_cidr (cf_network c)) = None)
        (InternalCIDRInvalid (nw_internal_cidr (cf_network c))),
      err_if (nw_ingress_iface (cf_network c) = []) IngressIfaceRequired,
      validate_network (cf_network c),
      validate_panel (cf_panel c),
      err_if (cf_exits c = []) ExitsRequired,
      validate_dns (cf_dns c),
      validate_logging (cf_logging c),
      validate_ios up (cf_ios c),
      validate_exits [] (cf_exits c),
      validate_routing (cf_routing c) (cf_exits c)]"

section \<open>What the checks establish\<close>

lemma validate_host_port_None:
  "validate_host_port f a lb = None \<longleftrightarrow> (\<exists>h p n ip. split_host_port a = Some (h, p) \<and> atoi p = Some n \<and>
     1 \<le> n \<and> n \<le> 65535 \<and> parse_ip h = Some ip \<and> (lb \<longrightarrow> ip_is_loopback ip))"
  by (auto simp: validate_host_port_def atoi_def split: option.splits if_splits)

lemma validate_exits_None:
  "validate_exits seen es = None \<longleftrightarrow> (\<forall>e\<in>set es. validate_exit e = None) \<and>
     distinct (map ex_name es) \<and> set (map ex_name es) \<inter> set seen = {}"
  by (induction seen es rule: validate_exits.induct) (auto split: option.splits)

lemma validate_pools_None:
  "validate_pools seen ps = None \<Longrightarrow> distinct (map po_name ps) \<and> set (map po_name ps) \<inter> set seen = {} \<and>
     (\<forall>p\<in>set ps. valid_dns_pool_name (po_name p) \<and> po_upstreams p \<noteq> [])"
  by (induction seen ps rule: validate_pools.induct) (auto split: option.splits if_splits)

lemma validate_dns_pools:
  assumes "validate_dns d = None"
  shows "distinct (pool_names d)" "\<And>p. p \<in> set (pools d) \<Longrightarrow> po_upstreams p \<noteq> []"
    "\<And>p u. p \<in> set (pools d) \<Longrightarrow> u \<in> set (po_upstreams p) \<Longrightarrow> u \<noteq> [] \<and> \<not> list_ex is_space u"
proof -
  from assms have v: "validate_pools [''cn'', ''overseas_private'', ''overseas_public'']
      (case dn_custom_pools d of None \<Rightarrow> [] | Some ps \<Rightarrow> ps) = None"
    and ne: "dn_upstreams_cn d \<noteq> []" "dn_upstreams_overseas_private d \<noteq> []" "dn_upstreams_overseas_public d \<noteq> []"
    and up: "validate_upstreams (pools d) = None"
    by (simp_all add: validate_dns_def)
  note p = validate_pools_None [OF v]
  show "distinct (pool_names d)" using p by (simp add: pool_names_def pools_def)
  show "\<And>p. p \<in> set (pools d) \<Longrightarrow> po_upstreams p \<noteq> []" using p ne by (auto simp: pools_def)
  show "\<And>p u. p \<in> set (pools d) \<Longrightarrow> u \<in> set (po_upstreams p) \<Longrightarrow> u \<noteq> [] \<and> \<not> list_ex is_space u"
    using up by (fastforce simp: validate_upstreams_def upstream_bad_def trim_space_def trim_right_def trim_left_def)
qed

lemma no_colon_int_str: "CHR '':'' \<notin> set (int_str i)"
  by (auto simp: int_str_def dest!: nat_str_digit simp: is_digit_def)

lemma join_split_port:
  assumes "split_host_port (join_host_port h p) = Some (h', p')" and "CHR '':'' \<notin> set p"
  shows "p' = p"
proof -
  have "\<exists>t. join_host_port h p = t @ CHR '':'' # p"
    by (auto simp: join_host_port_def)
  then obtain t where t: "join_host_port h p = t @ CHR '':'' # p" ..
  from split_host_port_port [OF assms(1)] obtain u where u: "join_host_port h p = u @ CHR '':'' # p'" "CHR '':'' \<notin> set p'"
    by blast
  have "last_index_char (t @ CHR '':'' # p) (CHR '':'') = Some (length t)"
    using assms(2) by (rule last_index_char_append)
  moreover have "last_index_char (u @ CHR '':'' # p') (CHR '':'') = Some (length u)"
    using u(2) by (rule last_index_char_append)
  moreover have "t @ CHR '':'' # p = u @ CHR '':'' # p'" using t u(1) by simp
  ultimately show ?thesis by simp
qed

lemma atoi_int_str: "atoi (int_str i) = Some n \<Longrightarrow> n = i"
proof (cases "i < 0")
  case True
  assume a: "atoi (int_str i) = Some n"
  have "nat_str (nat (- i)) \<noteq> []" "list_all is_digit (nat_str (nat (- i)))" using nat_str_digits by simp_all
  with True a show ?thesis
    by (auto simp: int_str_def atoi_def signed_digits_def Let_def split: if_splits)
next
  case False
  assume a: "atoi (int_str i) = Some n"
  obtain c r where cr: "nat_str (nat i) = c # r" by (cases "nat_str (nat i)") auto
  then have "is_digit c" using nat_str_digit [of c "nat i"] by simp
  then have c: "c \<noteq> CHR ''-''" "c \<noteq> CHR ''+''" by (auto simp: is_digit_def)
  have "digits_val (c # r) = nat i" using cr digits_val_nat_str by metis
  with a False cr c show ?thesis
    by (auto simp: int_str_def atoi_def signed_digits_def Let_def split: if_splits)
qed

lemma validate_shadowsocks_listen:
  assumes "validate_shadowsocks_exit e = None"
  shows "1 \<le> ex_listen_port e \<and> ex_listen_port e \<le> 65535 \<and> (\<exists>h ip.
     split_host_port (join_host_port (ex_listen_address e) (int_str (ex_listen_port e))) =
       Some (h, int_str (ex_listen_port e)) \<and> parse_ip h = Some ip \<and> ip_is_loopback ip)"
proof -
  from assms have "validate_host_port (''exit '' @ ex_name e @ '' listen'')
        (join_host_port (ex_listen_address e) (int_str (ex_listen_port e))) True = None"
    by (simp add: validate_shadowsocks_exit_def)
  then obtain h p n ip where sp: "split_host_port (join_host_port (ex_listen_address e) (int_str (ex_listen_port e))) = Some (h, p)"
    and n: "atoi p = Some n" "1 \<le> n" "n \<le> 65535" and ip: "parse_ip h = Some ip" "ip_is_loopback ip"
    by (auto simp: validate_host_port_None)
  have "p = int_str (ex_listen_port e)" using join_split_port [OF sp no_colon_int_str] .
  with n sp ip show ?thesis using atoi_int_str by auto
qed

lemma validate_parts:
  assumes "validate up c = None"
  shows "parse_ip (nw_gateway_ip (cf_network c)) \<noteq> None" "parse_cidr (nw_internal_cidr (cf_network c)) \<noteq> None"
    "validate_network (cf_network c) = None" "validate_panel (cf_panel c) = None" "validate_dns (cf_dns c) = None"
    "validate_exits [] (cf_exits c) = None" "validate_routing (cf_routing c) (cf_exits c) = None"
  using assms by (simp_all add: validate_def)

text \<open>A configuration that sets as little as possible.\<close>

definition sample_exit :: exit_config where
  "sample_exit = \<lparr>ex_name = ''hk'', ex_type = ''shadowsocks-rust'', ex_fwmark = 0, ex_server = ''hk.example.com'',
     ex_server_port = 8388, ex_method = ''aes-256-gcm'', ex_password = ''secret'', ex_username = [],
     ex_listen_address = ''127.0.0.1'', ex_listen_port = 11080, ex_tcp = None, ex_udp = Some False,
     ex_timeout_seconds = 300\<rparr>"

definition draft :: "string \<Rightarrow> string \<Rightarrow> string \<Rightarrow> string \<Rightarrow> exit_config list \<Rightarrow> config" where
  "draft ip cidr iface domain exits = \<lparr>cf_system = \<lparr>sy_config_dir = [], sy_state_dir = [], sy_run_dir = [], sy_user = []\<rparr>,
     cf_panel = \<lparr>pa_listen = [], pa_allowed_cidrs = []\<rparr>,
     cf_network = \<lparr>nw_gateway_ip = ip, nw_internal_cidr = cidr, nw_ingress_iface = iface,
       nw_http_redirect_port = 0, nw_https_redirect_port = 0, nw_quic_redirect_port = 0,
       nw_tcp_redirect_port = 0, nw_haproxy_max_connections = None, nw_quic_policy = [],
       nw_encrypted_dns_policy = []\<rparr>,
     cf_routing = \<lparr>ro_fallback_exit = []\<rparr>,
     cf_dns = \<lparr>dn_binary = [], dn_dot_domain = domain, dn_listen_udp = [], dn_listen_tcp = [],
       dn_listen_dot = [], dn_listen_public_dot = [], dn_backend_resolvers = [], dn_cert_dir = [],
       dn_cert_file = [], dn_key_file = [], dn_cache_size = 0, dn_upstreams_cn = [],
       dn_upstreams_overseas_private = [], dn_upstreams_overseas_public = [], dn_custom_pools = None\<rparr>,
     cf_logging = \<lparr>lg_level = [], lg_access = None\<rparr>,
     cf_ios = \<lparr>io_enabled = False, io_listen = [], io_base_url = [], io_organization = [],
       io_profile_identifier = []\<rparr>,
     cf_exits = exits\<rparr>"

definition direct_exit :: exit_config where
  "direct_exit = \<lparr>ex_name = ''direct'', ex_type = ''direct'', ex_fwmark = 0, ex_server = [],
     ex_server_port = 0, ex_method = [], ex_password = [], ex_username = [], ex_listen_address = [],
     ex_listen_port = 0, ex_tcp = None, ex_udp = None, ex_timeout_seconds = 0\<rparr>"

lemma draft_host_ports:
  "validate_host_port f ''127.0.0.1:19443'' False = None"
  "validate_host_port f ''0.0.0.0:1053'' False = None"
  "validate_host_port f ''0.0.0.0:1853'' False = None"
  "validate_host_port f ''0.0.0.0:853'' False = None"
  "validate_host_port f ''1.1.1.1:53'' False = None"
  "validate_host_port f ''1.0.0.1:53'' False = None"
  "validate_host_port f ''8.8.8.8:53'' False = None"
  "validate_host_port f ''8.8.4.4:53'' False = None"
  "validate_host_port f ''9.9.9.9:53'' False = None"
  "validate_host_port f ''22.22.22.22:53'' False = None"
  by code_simp+

lemma draft_dns_valid:
  assumes "validate_domain_name ''dns.dot_domain'' d = None"
  shows "validate_dns (cf_dns (apply_defaults (draft ip cidr iface d es))) = None"
proof -
  have pools: "validate_pools [''cn'', ''overseas_private'', ''overseas_public'']
      [default_netease_dns_pool, default_unicom_dns_pool] = None"
    by code_simp
  have ups: "validate_upstreams (pools (cf_dns (apply_defaults (draft [] [] [] [] [])))) = None"
    by code_simp
  have same: "pools (cf_dns (apply_defaults (draft ip cidr iface d es))) =
      pools (cf_dns (apply_defaults (draft [] [] [] [] [])))"
    by (simp add: pools_def apply_defaults_def draft_def default_dns_def Let_def)
  have "validate_domain_name ''dns.dot_domain'' [] \<noteq> None"
    by code_simp
  then have d: "d \<noteq> []" using assms by auto
  have cn: "default_upstreams_cn [] \<noteq> []" by code_simp
  show ?thesis
    unfolding validate_dns_def first_err_None set_append same using assms d ups pools cn
    by (simp add: apply_defaults_def draft_def default_dns_def or_string_def or_list_def or_int_def Let_def
      draft_host_ports default_system_def)
qed

section \<open>Properties\<close>

text \<open>
  Claim C4. What a validated configuration guarantees the components that run it: exit names and
  DNS pool names are unique, the fallback exit exists and carries TCP, and every shadowsocks exit
  has a transport and listens on a loopback address with a port between 1 and 65535, which is the
  port its local address splits into.
\<close>

theorem validate_sound:
  assumes "validate up c = None"
  shows "distinct (map ex_name (cf_exits c)) \<and> distinct (pool_names (cf_dns c)) \<and>
    (\<exists>e. exit_by_name c (ro_fallback_exit (cf_routing c)) = Some e \<and>
       (ex_type e = ''direct'' \<or> ex_type e = ''shadowsocks-rust'' \<and> tcp_enabled e)) \<and>
    (\<forall>e\<in>set (cf_exits c). ex_type e = ''shadowsocks-rust'' \<longrightarrow>
       ss_rust_mode e \<noteq> [] \<and> 1 \<le> ex_listen_port e \<and> ex_listen_port e \<le> 65535 \<and>
       (\<exists>h ip. split_host_port (join_host_port (ex_listen_address e) (int_str (ex_listen_port e))) =
         Some (h, int_str (ex_listen_port e)) \<and> parse_ip h = Some ip \<and> ip_is_loopback ip))"
proof -
  note v = validate_parts [OF assms]
  from v(6) have ex: "\<forall>e\<in>set (cf_exits c). validate_exit e = None" "distinct (map ex_name (cf_exits c))"
    by (simp_all add: validate_exits_None)
  from v(7) obtain e where e: "find_exit (cf_exits c) (ro_fallback_exit (cf_routing c)) = Some e"
      "\<not> (ex_type e = ''shadowsocks-rust'' \<and> \<not> tcp_enabled e)"
    by (auto simp: validate_routing_def find_exit_def split: option.splits if_splits)
  with ex(1) have "validate_exit e = None" using find_exit_SomeD by blast
  with e(2) have "ex_type e = ''direct'' \<or> ex_type e = ''shadowsocks-rust'' \<and> tcp_enabled e"
    by (auto simp: validate_exit_def split: if_splits)
  moreover have "ss_rust_mode e \<noteq> [] \<and> validate_shadowsocks_exit e = None"
    if "e \<in> set (cf_exits c)" "ex_type e = ''shadowsocks-rust''" for e
  proof -
    from that ex(1) have "validate_shadowsocks_exit e = None"
      by (auto simp: validate_exit_def split: if_splits)
    then show ?thesis by (auto simp: ss_rust_mode_def validate_shadowsocks_exit_def)
  qed
  ultimately show ?thesis
    using validate_dns_pools(1) [OF v(5)] ex(2) e(1) validate_shadowsocks_listen
    by (auto simp: exit_by_name_def)
qed

theorem validate_sound_witness:
  "exit_by_name (apply_defaults (draft ''10.0.0.1'' ''10.0.0.0/24'' ''eth0'' ''dns.example.com''
     [sample_exit, direct_exit])) ''direct'' = Some direct_exit \<and> ss_rust_mode sample_exit \<noteq> []"
proof -
  define c where "c = apply_defaults (draft ''10.0.0.1'' ''10.0.0.0/24'' ''eth0'' ''dns.example.com''
     [sample_exit, direct_exit])"
  have "validate (\<lambda>_. None) c = None"
    unfolding c_def by code_simp
  note s = validate_sound [OF this]
  have "ro_fallback_exit (cf_routing c) = ''direct''" "cf_exits c = [sample_exit, direct_exit]"
    "ex_type sample_exit = ''shadowsocks-rust''" "ex_name sample_exit \<noteq> ''direct''"
    "ex_name direct_exit = ''direct''"
    unfolding c_def by code_simp+
  with s have "exit_by_name c ''direct'' = Some direct_exit" "ss_rust_mode sample_exit \<noteq> []"
    by (auto simp: exit_by_name_def find_exit_def)
  then show ?thesis by (simp add: c_def)
qed

text \<open>
  The defaults are complete: a draft that names only the gateway address, the internal
  network, the interface, the DoT domain and one direct exit is accepted once the defaults are
  filled in.
\<close>

theorem draft_validates:
  assumes "parse_ip ip \<noteq> None" "parse_cidr cidr \<noteq> None" "iface \<noteq> []"
    and "validate_domain_name ''dns.dot_domain'' d = None"
  shows "validate up (apply_defaults (draft ip cidr iface d [direct_exit])) = None"
proof -
  define c where "c = apply_defaults (draft ip cidr iface d [direct_exit])"
  have parts: "nw_gateway_ip (cf_network c) = ip" "nw_internal_cidr (cf_network c) = cidr"
    "nw_ingress_iface (cf_network c) = iface" "cf_exits c = [direct_exit]"
    "io_enabled (cf_ios c) = False" "ro_fallback_exit (cf_routing c) = ''direct''"
    "lg_level (cf_logging c) = ''info''"
    by (simp_all add: c_def apply_defaults_def draft_def default_network_def default_ios_def or_string_def
      default_exit_def direct_exit_def Let_def)
  have "cidr \<noteq> []"
    using assms(2) by (auto simp: parse_cidr_def index_char_def)
  moreover have "parse_cidr ''127.0.0.0/8'' \<noteq> None" "parse_cidr ''::1/128'' \<noteq> None" by code_simp+
  ultimately have panel: "validate_panel (cf_panel c) = None"
    using assms(2)
    by (simp add: c_def apply_defaults_def draft_def validate_panel_def default_panel_def or_string_def
      draft_host_ports Let_def)
  have net: "validate_network (cf_network c) = None"
    by (simp add: c_def apply_defaults_def draft_def validate_network_def default_network_def or_string_def
      or_int_def validate_port_def default_haproxy_max_connections_def Let_def)
  have exits: "validate_exits [] [direct_exit] = None" and routing:
    "validate_routing (cf_routing c) [direct_exit] = None"
    unfolding parts(6) validate_routing_def by code_simp+
  have dns: "validate_dns (cf_dns c) = None"
    unfolding c_def by (rule draft_dns_valid) (rule assms(4))
  have "validate up c = None"
    unfolding validate_def first_err_None parts(1-4)
    using assms(1-3) parts(5,7) panel net exits routing dns
    by (simp del: validate_exits.simps add: validate_ios_def validate_logging_def)
  then show ?thesis by (simp add: c_def)
qed

theorem draft_validates_witness:
  "validate (\<lambda>_. None) (apply_defaults (draft ''10.0.0.1'' ''10.0.0.0/24'' ''eth0'' ''dns.example.com''
     [direct_exit])) = None"
proof (rule draft_validates)
  show "parse_ip ''10.0.0.1'' \<noteq> None" by code_simp
  show "parse_cidr ''10.0.0.0/24'' \<noteq> None" by code_simp
  show "''eth0'' \<noteq> []" by simp
  show "validate_domain_name ''dns.dot_domain'' ''dns.example.com'' = None" by code_simp
qed

end
