(* ===== verification/Ssrust.thy ===== *)
theory Ssrust
  imports Config_Validate
begin

text \<open>
  \<^verbatim>\<open>internal/ssrust\<close>: the configuration file of one local shadowsocks client, with the part of
  \<^verbatim>\<open>encoding/json\<close> that prints it (\<^verbatim>\<open>MarshalIndent\<close> of a flat struct of strings and integers).
\<close>

section \<open>JSON text\<close>

text \<open>
  The escapes of \<^verbatim>\<open>json.Marshal\<close> on ASCII bytes; a byte from 128 on is taken as part of valid
  UTF-8 and copied.
\<close>

definition hex4 :: "nat \<Rightarrow> string" where
  "hex4 n = ''00'' @ [hex_digit (n div 16), hex_digit (n mod 16)]"

definition bslash :: char where
  "bslash = CHR 0x5C"

definition dquote :: char where
  "dquote = CHR 0x22"

definition newline :: string where
  "newline = [CHR 0x0A]"

definition json_escape :: "char \<Rightarrow> string" where
  "json_escape c = (let n = of_char c :: nat in
     if n = 34 \<or> n = 92 then [bslash, c]
     else if n = 8 then [bslash, CHR ''b''] else if n = 12 then [bslash, CHR ''f'']
     else if n = 10 then [bslash, CHR ''n''] else if n = 13 then [bslash, CHR ''r'']
     else if n = 9 then [bslash, CHR ''t'']
     else if n < 32 \<or> n = 60 \<or> n = 62 \<or> n = 38 then bslash # CHR ''u'' # hex4 n
     else [c])"

definition json_quote :: "string \<Rightarrow> string" where
  "json_quote s = dquote # concat (map json_escape s) @ [dquote]"

definition json_object :: "(string \<times> string) list \<Rightarrow> string" where
  "json_object fs = CHR ''{'' # newline @ join_str ('','' @ newline)
     (map (\<lambda>(k, v). ''  '' @ json_quote k @ '': '' @ v) fs) @ newline @ ''}''"

section \<open>The client configuration\<close>

record local_config =
  lc_server :: string
  lc_server_port :: int
  lc_local_address :: string
  lc_local_port :: int
  lc_password :: string
  lc_timeout :: int
  lc_method :: string
  lc_mode :: string

datatype ssrust_error = NotShadowsocksRust string string

definition ss_local_config :: "exit_config \<Rightarrow> ssrust_error + local_config" where
  "ss_local_config e =
     (if ex_type e \<noteq> ''shadowsocks-rust'' then Inl (NotShadowsocksRust (ex_name e) (ex_type e))
      else Inr \<lparr>lc_server = ex_server e, lc_server_port = ex_server_port e,
        lc_local_address = ex_listen_address e, lc_local_port = ex_listen_port e,
        lc_password = ex_password e,
        lc_timeout = (if ex_timeout_seconds e = 0 then 300 else ex_timeout_seconds e),
        lc_method = ex_method e, lc_mode = ss_rust_mode e\<rparr>)"

text \<open>The field \<^verbatim>\<open>timeout\<close> is \<^verbatim>\<open>omitempty\<close>: a zero would be left out.\<close>

definition local_config_json :: "local_config \<Rightarrow> string" where
  "local_config_json l = json_object
     ([(''server'', json_quote (lc_server l)), (''server_port'', int_str (lc_server_port l)),
       (''local_address'', json_quote (lc_local_address l)), (''local_port'', int_str (lc_local_port l)),
       (''password'', json_quote (lc_password l))]
      @ (if lc_timeout l = 0 then [] else [(''timeout'', int_str (lc_timeout l))])
      @ [(''method'', json_quote (lc_method l)), (''mode'', json_quote (lc_mode l))])"

definition ssrust_config :: "exit_config \<Rightarrow> ssrust_error + string" where
  "ssrust_config e = map_sum id (\<lambda>l. local_config_json l @ newline) (ss_local_config e)"

definition local_addr :: "exit_config \<Rightarrow> string" where
  "local_addr e = join_host_port (ex_listen_address e) (int_str (ex_listen_port e))"

definition service_name :: "(string \<Rightarrow> string) \<Rightarrow> exit_config \<Rightarrow> string" where
  "service_name sha e = ''5gws-ssrust-'' @ exit_id sha (ex_name e) @ ''.service''"

definition config_file_name :: "(string \<Rightarrow> string) \<Rightarrow> exit_config \<Rightarrow> string" where
  "config_file_name sha e = exit_id sha (ex_name e) @ ''.json''"

lemma ssrust_config_ok: "ex_type e = ''shadowsocks-rust'' \<Longrightarrow> \<exists>t. ssrust_config e = Inr t"
  by (simp add: ssrust_config_def ss_local_config_def)

text \<open>
  The local address of a validated exit splits into a loopback host and its listen port.
\<close>

lemma local_addr_loopback:
  assumes "validate_shadowsocks_exit e = None"
  shows "\<exists>h ip. split_host_port (local_addr e) = Some (h, int_str (ex_listen_port e)) \<and>
     parse_ip h = Some ip \<and> ip_is_loopback ip"
  using validate_shadowsocks_listen [OF assms] by (simp add: local_addr_def)

end
