(* ===== verification/Smartdns.thy ===== *)
theory Smartdns
  imports Ssrust Rule_Import "HOL-Library.Char_ord" "HOL-Library.List_Lexorder" "HOL-Library.Product_Lexorder"
begin

text \<open>
  \<^verbatim>\<open>internal/smartdns\<close>: the plan that assigns every domain of the rules to the gateway or to one
  DNS pool, and the text of the SmartDNS configuration with its list files.

  Go's string comparison is by bytes; it is the lexicographic order of the libraries imported
  here. A Go map that is used as a set is a list without regard to order.
\<close>

record dns_pool_rule =
  dp_domain :: string
  dp_pool :: string

record render_plan =
  pl_gateway_domains :: "string list"
  pl_pool_rules :: "dns_pool_rule list"

datatype smartdns_error =
    RuleNotRepresentable string | RuleEmptyDomain string | RuleUnknownPool string

section \<open>The plan\<close>

text \<open>The maps of \<^verbatim>\<open>buildPlan\<close>; \<^verbatim>\<open>poolSeen\<close> holds the pairs that its composed keys stand for.\<close>

record plan_state =
  ps_gateway :: "string list"
  ps_pool_seen :: "(string \<times> string) list"
  ps_decided :: "string list"
  ps_rules :: "dns_pool_rule list"

definition normalize_domain :: "string \<Rightarrow> string" where
  "normalize_domain v = to_lower (trim_prefix (trim_suffix (trim_space v) ''.'') ''.'')"

definition add_domain_rule :: "rule \<Rightarrow> string \<Rightarrow> plan_state \<Rightarrow> smartdns_error + plan_state" where
  "add_domain_rule r d st =
     (if d = [] then Inl (RuleEmptyDomain (rl_name r))
      else if d \<in> set (ps_decided st) then Inr st
      else if dns_only r then
        Inr ((if (rl_dns_pool r, d) \<in> set (ps_pool_seen st) then st
              else st\<lparr>ps_rules := ps_rules st @ [\<lparr>dp_domain = d, dp_pool = rl_dns_pool r\<rparr>],
                      ps_pool_seen := (rl_dns_pool r, d) # ps_pool_seen st\<rparr>)
             \<lparr>ps_decided := d # ps_decided st\<rparr>)
      else if gateway r then
        Inr (st\<lparr>ps_gateway := d # ps_gateway st, ps_decided := d # ps_decided st\<rparr>)
      else Inr st)"

fun add_domains :: "rule \<Rightarrow> string list \<Rightarrow> plan_state \<Rightarrow> smartdns_error + plan_state" where
  "add_domains r [] st = Inr st"
| "add_domains r (v # vs) st = (case add_domain_rule r (normalize_domain v) st of
     Inl e \<Rightarrow> Inl e | Inr st' \<Rightarrow> add_domains r vs st')"

fun plan_rules :: "rule list \<Rightarrow> plan_state \<Rightarrow> smartdns_error + plan_state" where
  "plan_rules [] st = Inr st"
| "plan_rules (r # rs) st =
     (if rl_domain_keyword r \<noteq> [] \<or> rl_domain_regex r \<noteq> [] \<or> rl_ip_cidr r \<noteq> [] \<or> rl_rule_set r \<noteq> []
      then Inl (RuleNotRepresentable (rl_name r))
      else case add_domains r (rl_domain r @ rl_domain_suffix r) st of
        Inl e \<Rightarrow> Inl e | Inr st' \<Rightarrow> plan_rules rs st')"

definition build_plan :: "normalized \<Rightarrow> smartdns_error + render_plan" where
  "build_plan n = map_sum id (\<lambda>st.
     \<lparr>pl_gateway_domains = sort (remdups (ps_gateway st)),
      pl_pool_rules = sort_key (\<lambda>p. (dp_domain p, dp_pool p)) (ps_rules st)\<rparr>)
     (plan_rules (n_rules n) \<lparr>ps_gateway = [], ps_pool_seen = [], ps_decided = [], ps_rules = []\<rparr>)"

section \<open>The configuration text\<close>

definition cache_file :: string where
  "cache_file = ''/var/log/smartdns/smartdns.cache''"

definition line :: "string list \<Rightarrow> string" where
  "line ws = concat ws @ newline"

definition head_lines :: "dns_config \<Rightarrow> string" where
  "head_lines d =
     line [''# Generated by 5gws. Do not edit.'']
     @ line [''bind '', dn_listen_udp d]
     @ line [''bind-tcp '', dn_listen_tcp d]
     @ line [''bind-tls '', dn_listen_dot d]
     @ (if dn_listen_public_dot d \<noteq> [] then
          line [''bind-tls '', dn_listen_public_dot d, '' -group overseas_public -no-rule-addr -no-rule-soa'']
        else [])
     @ line [''bind-cert-file '', dn_cert_file d]
     @ line [''bind-cert-key-file '', dn_key_file d]
     @ line [''cache-size '', int_str (dn_cache_size d)]
     @ line [''cache-persist yes'']
     @ line [''cache-file '', cache_file]
     @ line [''prefetch-domain yes'']
     @ line [''response-mode fastest-response'']
     @ line [''force-AAAA-SOA yes'']
     @ line [''force-qtype-soa 64''] @ line [''force-qtype-soa 65'']"

definition server_lines :: "dns_config \<Rightarrow> string" where
  "server_lines d =
     concat (map (\<lambda>u. line [''server '', u, '' -group cn -exclude-default-group'']) (dn_upstreams_cn d))
     @ concat (map (\<lambda>u. line [''server '', u, '' -group overseas_private'']) (dn_upstreams_overseas_private d))
     @ concat (map (\<lambda>u. line [''server '', u, '' -group overseas_public -exclude-default-group''])
         (dn_upstreams_overseas_public d))
     @ concat (map (\<lambda>p. concat (map (\<lambda>u.
           line [''server '', u, '' -group '', po_name p, '' -exclude-default-group'']) (po_upstreams p)))
         (case dn_custom_pools d of None \<Rightarrow> [] | Some ps \<Rightarrow> ps))"

definition lines_file :: "string list \<Rightarrow> string" where
  "lines_file ls = join_str newline ls @ newline"

definition pool_domains :: "render_plan \<Rightarrow> string \<Rightarrow> string list" where
  "pool_domains p name = map dp_domain (filter (\<lambda>r. dp_pool r = name) (pl_pool_rules p))"

definition pool_section :: "string \<Rightarrow> render_plan \<Rightarrow> dns_pool_config \<Rightarrow> string \<times> (string \<times> string) list" where
  "pool_section dir pl po = (let ds = pool_domains pl (po_name po); name = ''pool_'' @ po_name po in
     if ds = [] then ([], [])
     else (line [''domain-set -name '', name, '' -type list -file '', dir, ''/'', name, ''.list'']
           @ line [''nameserver /domain-set:'', name, ''/'', po_name po],
           [(name @ ''.list'', lines_file ds)]))"

definition gateway_section :: "string \<Rightarrow> render_plan \<Rightarrow> string \<Rightarrow> string \<times> (string \<times> string) list" where
  "gateway_section dir pl gw =
     (if pl_gateway_domains pl = [] then ([], [])
      else (line [''domain-set -name gateway -type list -file '', dir, ''/gateway.list'']
            @ line [''address /domain-set:gateway/'', gw],
            [(''gateway.list'', lines_file (pl_gateway_domains pl))]))"

record smartdns_output =
  so_config :: string
  so_files :: "(string \<times> string) list"

text \<open>\<^verbatim>\<open>net.ParseIP(s).String()\<close>, also on an address that does not parse.\<close>

definition ip_string :: "string \<Rightarrow> string" where
  "ip_string s = (case parse_ip s of None \<Rightarrow> ''<nil>'' | Some a \<Rightarrow> ip_str a)"

definition smartdns_generate_at :: "config \<Rightarrow> normalized \<Rightarrow> string \<Rightarrow> smartdns_error + smartdns_output" where
  "smartdns_generate_at c n dir = (case build_plan n of Inl e \<Rightarrow> Inl e
     | Inr pl \<Rightarrow>
       (case find (\<lambda>r. dp_pool r \<notin> set (pool_names (cf_dns c))) (pl_pool_rules pl) of
          Some r \<Rightarrow> Inl (RuleUnknownPool (dp_pool r))
        | None \<Rightarrow>
          let ps = map (pool_section dir pl) (pools (cf_dns c));
              g = gateway_section dir pl (ip_string (nw_gateway_ip (cf_network c)))
          in Inr \<lparr>so_config = head_lines (cf_dns c) @ server_lines (cf_dns c) @ concat (map fst ps) @ fst g,
                  so_files = concat (map snd ps) @ snd g\<rparr>))"

definition smartdns_generate :: "config \<Rightarrow> normalized \<Rightarrow> smartdns_error + smartdns_output" where
  "smartdns_generate c n = smartdns_generate_at c n (sy_state_dir (cf_system c) @ ''/rendered/smartdns'')"

section \<open>The plan is that of the first rule\<close>

text \<open>The pairs of a rule and a domain in the order in which the plan sees them.\<close>

definition domain_pairs :: "rule list \<Rightarrow> (rule \<times> string) list" where
  "domain_pairs rs = concat (map (\<lambda>r. map (\<lambda>v. (r, normalize_domain v)) (rl_domain r @ rl_domain_suffix r)) rs)"

definition decider :: "(rule \<times> string) list \<Rightarrow> string \<Rightarrow> rule option" where
  "decider ps d = map_option fst (find (\<lambda>(r, d'). d' = d \<and> (gateway r \<or> dns_only r)) ps)"

definition plan_inv :: "(rule \<times> string) list \<Rightarrow> plan_state \<Rightarrow> bool" where
  "plan_inv ps st \<longleftrightarrow>
     (\<forall>d. d \<in> set (ps_decided st) \<longleftrightarrow> decider ps d \<noteq> None) \<and>
     (\<forall>d. d \<in> set (ps_gateway st) \<longleftrightarrow> (\<exists>r. decider ps d = Some r \<and> \<not> dns_only r)) \<and>
     (\<forall>x. x \<in> set (ps_rules st) \<longleftrightarrow>
        (\<exists>r. decider ps (dp_domain x) = Some r \<and> dns_only r \<and> dp_pool x = rl_dns_pool r)) \<and>
     distinct (map dp_domain (ps_rules st)) \<and>
     snd ` set (ps_pool_seen st) \<subseteq> set (ps_decided st)"

lemma decider_append:
  "decider (ps @ [(r, d)]) d' = (case decider ps d' of Some x \<Rightarrow> Some x
     | None \<Rightarrow> if d' = d \<and> (gateway r \<or> dns_only r) then Some r else None)"
  by (auto simp: decider_def find_append split: option.splits)

lemma dns_pool_rule_eq_iff: "x = \<lparr>dp_domain = d, dp_pool = q\<rparr> \<longleftrightarrow> dp_domain x = d \<and> dp_pool x = q"
  by (cases x) simp

lemma plan_inv_step:
  assumes "plan_inv ps st" and "add_domain_rule r d st = Inr st'"
  shows "plan_inv (ps @ [(r, d)]) st'"
proof -
  consider (old) "d \<in> set (ps_decided st)" "st' = st"
    | (pool) "d \<notin> set (ps_decided st)" "dns_only r"
        "st' = st\<lparr>ps_rules := ps_rules st @ [\<lparr>dp_domain = d, dp_pool = rl_dns_pool r\<rparr>],
           ps_pool_seen := (rl_dns_pool r, d) # ps_pool_seen st, ps_decided := d # ps_decided st\<rparr>"
    | (gate) "d \<notin> set (ps_decided st)" "gateway r" "\<not> dns_only r"
        "st' = st\<lparr>ps_gateway := d # ps_gateway st, ps_decided := d # ps_decided st\<rparr>"
    | (none) "\<not> gateway r" "\<not> dns_only r" "st' = st"
  proof -
    have "(rl_dns_pool r, d) \<in> set (ps_pool_seen st) \<Longrightarrow> d \<in> set (ps_decided st)"
      using assms(1) by (force simp: plan_inv_def)
    with assms(2) that show thesis
      by (auto simp: add_domain_rule_def split: if_splits)
  qed
  then show ?thesis
  proof cases
    case old
    with assms(1) have "decider (ps @ [(r, d)]) d' = decider ps d'" for d'
      by (auto simp: decider_append plan_inv_def split: option.splits)
    with assms(1) old show ?thesis by (simp add: plan_inv_def)
  next
    case none
    then have "decider (ps @ [(r, d)]) d' = decider ps d'" for d'
      by (auto simp: decider_append split: option.splits)
    with assms(1) none show ?thesis by (simp add: plan_inv_def)
  next
    case pool
    with assms(1) have fresh: "decider ps d = None" by (auto simp: plan_inv_def)
    then have "decider (ps @ [(r, d)]) d' = (if d' = d then Some r else decider ps d')" for d'
      using pool by (auto simp: decider_append split: option.splits)
    moreover have "d \<notin> dp_domain ` set (ps_rules st)"
      using assms(1) fresh by (auto simp: plan_inv_def)
    ultimately show ?thesis
      using assms(1) pool fresh by (auto simp: plan_inv_def dns_pool_rule_eq_iff)
  next
    case gate
    with assms(1) have fresh: "decider ps d = None" by (auto simp: plan_inv_def)
    then have "decider (ps @ [(r, d)]) d' = (if d' = d then Some r else decider ps d')" for d'
      using gate by (auto simp: decider_append split: option.splits)
    then show ?thesis
      using assms(1) gate fresh by (auto simp: plan_inv_def)
  qed
qed

lemma plan_inv_domains:
  "add_domains r vs st = Inr st' \<Longrightarrow> plan_inv ps st \<Longrightarrow>
   plan_inv (ps @ map (\<lambda>v. (r, normalize_domain v)) vs) st'"
proof (induction r vs st arbitrary: ps rule: add_domains.induct)
  case (1 r st)
  then show ?case by simp
next
  case (2 r v vs st)
  then obtain st1 where st1: "add_domain_rule r (normalize_domain v) st = Inr st1"
    by (auto split: sum.splits)
  with 2 show ?case
    using 2(1) [OF st1 _ plan_inv_step [OF 2(3) st1]] by simp
qed

lemma plan_inv_rules:
  "plan_rules rs st = Inr st' \<Longrightarrow> plan_inv ps st \<Longrightarrow> plan_inv (ps @ domain_pairs rs) st'"
proof (induction rs st arbitrary: ps rule: plan_rules.induct)
  case (1 st)
  then show ?case by (simp add: domain_pairs_def)
next
  case (2 r rs st)
  then obtain st1 where st1: "add_domains r (rl_domain r @ rl_domain_suffix r) st = Inr st1"
      "plan_rules rs st1 = Inr st'"
    and nr: "\<not> (rl_domain_keyword r \<noteq> [] \<or> rl_domain_regex r \<noteq> [] \<or> rl_ip_cidr r \<noteq> [] \<or> rl_rule_set r \<noteq> [])"
    by (auto split: sum.splits if_splits)
  show ?case
    using 2(1) [OF nr st1(1) st1(2) plan_inv_domains [OF st1(1) 2(3)]]
    by (simp add: domain_pairs_def)
qed

lemma plan_inv_init: "plan_inv [] \<lparr>ps_gateway = [], ps_pool_seen = [], ps_decided = [], ps_rules = []\<rparr>"
  by (simp add: plan_inv_def decider_def)

lemma sorted_distinct_domains:
  "sorted (map (\<lambda>p. (dp_domain p, dp_pool p)) ys) \<Longrightarrow> distinct (map dp_domain ys) \<Longrightarrow>
   sorted_wrt (\<lambda>a b. dp_domain a < dp_domain b) ys"
proof (induction ys)
  case Nil
  then show ?case by simp
next
  case (Cons y ys)
  have "dp_domain y < dp_domain x" if "x \<in> set ys" for x
  proof -
    have "(dp_domain y, dp_pool y) \<le> (dp_domain x, dp_pool x)" using Cons.prems(1) that by simp
    then have "dp_domain y \<le> dp_domain x" by (auto simp: less_eq_prod_def)
    moreover have "dp_domain y \<noteq> dp_domain x" using Cons.prems(2) that by (auto simp: image_iff)
    ultimately show ?thesis by simp
  qed
  with Cons show ?case by simp
qed

lemma sorted_wrt_sort_key:
  assumes "distinct (map dp_domain xs)"
  shows "sorted_wrt (\<lambda>a b. dp_domain a < dp_domain b) (sort_key (\<lambda>p. (dp_domain p, dp_pool p)) xs)"
proof (rule sorted_distinct_domains)
  show "distinct (map dp_domain (sort_key (\<lambda>p. (dp_domain p, dp_pool p)) xs))"
    using assms by (simp add: distinct_map)
qed simp

text \<open>
  Claim C5. The DNS plan: every domain is decided by the first rule, in rule order, that names it.
  A domain is in the gateway list exactly when that rule is a gateway rule, and assigned to a pool
  exactly when that rule is a DNS rule for the pool; no domain is in both, and both lists are
  strictly sorted by domain, whatever the iteration order of the code's maps.
\<close>

theorem build_plan_correct:
  assumes "build_plan n = Inr p"
  shows "(\<forall>d. d \<in> set (pl_gateway_domains p) \<longleftrightarrow>
       (\<exists>r. decider (domain_pairs (n_rules n)) d = Some r \<and> \<not> dns_only r)) \<and>
    (\<forall>d pool. \<lparr>dp_domain = d, dp_pool = pool\<rparr> \<in> set (pl_pool_rules p) \<longleftrightarrow>
       (\<exists>r. decider (domain_pairs (n_rules n)) d = Some r \<and> dns_only r \<and> pool = rl_dns_pool r)) \<and>
    sorted_wrt (<) (pl_gateway_domains p) \<and>
    sorted_wrt (\<lambda>a b. dp_domain a < dp_domain b) (pl_pool_rules p)"
proof -
  from assms obtain st where
    run: "plan_rules (n_rules n) \<lparr>ps_gateway = [], ps_pool_seen = [], ps_decided = [], ps_rules = []\<rparr> = Inr st"
    and p: "p = \<lparr>pl_gateway_domains = sort (remdups (ps_gateway st)),
      pl_pool_rules = sort_key (\<lambda>p. (dp_domain p, dp_pool p)) (ps_rules st)\<rparr>"
    by (auto simp: build_plan_def map_sum_eq_Inr)
  have inv: "plan_inv (domain_pairs (n_rules n)) st"
    using plan_inv_rules [OF run plan_inv_init] by simp
  then have "distinct (map dp_domain (ps_rules st))" by (simp add: plan_inv_def)
  with inv show ?thesis
    unfolding p by (simp add: plan_inv_def sorted_wrt_sort_key strict_sorted_iff)
qed

definition plan_sample :: normalized where
  "plan_sample = \<lparr>n_rules =
     [empty_rule\<lparr>rl_name := ''g'', rl_exit := ''hk'', rl_domain := [''B.example.'']\<rparr>,
      empty_rule\<lparr>rl_name := ''d'', rl_dns_pool := ''cn'', rl_domain_suffix := [''b.example'', ''a.example'']\<rparr>],
     n_warnings = []\<rparr>"

theorem build_plan_correct_witness:
  "\<exists>p. build_plan plan_sample = Inr p \<and> ''b.example'' \<in> set (pl_gateway_domains p) \<and>
     \<lparr>dp_domain = ''a.example'', dp_pool = ''cn''\<rparr> \<in> set (pl_pool_rules p)"
proof -
  define p where "p = \<lparr>pl_gateway_domains = [''b.example''],
     pl_pool_rules = [\<lparr>dp_domain = ''a.example'', dp_pool = ''cn''\<rparr>]\<rparr>"
  have run: "build_plan plan_sample = Inr p"
    unfolding p_def by code_simp
  have "decider (domain_pairs (n_rules plan_sample)) ''b.example'' = Some (n_rules plan_sample ! 0)"
    "decider (domain_pairs (n_rules plan_sample)) ''a.example'' = Some (n_rules plan_sample ! 1)"
    "\<not> dns_only (n_rules plan_sample ! 0)" "dns_only (n_rules plan_sample ! 1)"
    "rl_dns_pool (n_rules plan_sample ! 1) = ''cn''"
    by code_simp+
  with build_plan_correct [OF run] run show ?thesis by auto
qed

end
