(* ===== verification/Go_Path.thy ===== *)
theory Go_Path
  imports Go_Prelude
begin

text \<open>
  \<^verbatim>\<open>filepath.Clean\<close> and \<^verbatim>\<open>filepath.Join\<close> on slash-separated paths.
\<close>

definition clean_step :: "bool \<Rightarrow> string \<Rightarrow> string list \<Rightarrow> string list" where
  "clean_step rooted w st =
     (if w = [] \<or> w = ''.'' then st
      else if w = ''..'' then
        (case st of [] \<Rightarrow> if rooted then [] else [''..'']
         | t # ts \<Rightarrow> if t = ''..'' then ''..'' # st else ts)
      else w # st)"

definition path_clean :: "string \<Rightarrow> string" where
  "path_clean s =
     (let rooted = has_prefix s ''/'';
          ws = rev (fold (clean_step rooted) (split_char CHR ''/'' s) []);
          p = join_str ''/'' ws
      in if rooted then ''/'' @ p else if ws = [] then ''.'' else p)"

definition path_join :: "string list \<Rightarrow> string" where
  "path_join ps = (let qs = dropWhile (\<lambda>p. p = []) ps in
     if qs = [] then [] else path_clean (join_str ''/'' qs))"

end
