(* ===== verification/Render.thy ===== *)
theory Render
  imports Smartdns Go_Path
begin

text \<open>
  \<^verbatim>\<open>internal/render\<close>: the views of rules and exits, the port lists, the two templates as functions
  from their data to text, and \<^verbatim>\<open>GenerateAt\<close>, which puts the files of a deployment together.

  A template is written out line by line; a \<^verbatim>\<open>{{-\<close> of the source swallows the white space before
  it, so each line here carries the line feed in front of it (\<open>nl\<close>). Executing the two fixed
  templates on their data structs cannot fail, so the panics left are those of \<^verbatim>\<open>mustPort\<close> and of
  the nil pointer \<^verbatim>\<open>HAProxyMaxConnections\<close>.
\<close>

record output_file =
  of_path :: string
  of_content :: string
  of_mode :: nat

datatype render_error =
    ExitUnknown string string | ExitNoTCP string string
  | SmartdnsError smartdns_error | SsrustError ssrust_error

section \<open>Checks\<close>

definition validate_tcp_exit :: "config \<Rightarrow> string \<Rightarrow> string \<Rightarrow> render_error option" where
  "validate_tcp_exit c name label = (case exit_by_name c name of
     None \<Rightarrow> Some (ExitUnknown label name)
   | Some e \<Rightarrow> err_if (ex_type e = ''shadowsocks-rust'' \<and> \<not> tcp_enabled e) (ExitNoTCP label name))"

definition render_validate_exits :: "config \<Rightarrow> normalized \<Rightarrow> render_error option" where
  "render_validate_exits c n = first_err
     (validate_tcp_exit c (ro_fallback_exit (cf_routing c)) ''routing.fallback_exit''
      # map (\<lambda>r. validate_tcp_exit c (rl_exit r) (''rule '' @ rl_name r)) (gateway_rules n))"

section \<open>Ports\<close>

definition must_port :: "string \<Rightarrow> int go" where
  "must_port addr = (case split_host_port addr of None \<Rightarrow> Panic
     | Some (h, p) \<Rightarrow> (case atoi p of None \<Rightarrow> Panic | Some n \<Rightarrow> Ret n))"

fun unique_loop :: "int list \<Rightarrow> int list \<Rightarrow> int list" where
  "unique_loop out [] = out"
| "unique_loop out (v # vs) = unique_loop (if v \<in> set out then out else out @ [v]) vs"

definition unique_ints :: "int list \<Rightarrow> int list" where
  "unique_ints vs = sort (unique_loop [] vs)"

definition join_ints :: "int list \<Rightarrow> string" where
  "join_ints vs = join_str '', '' (map int_str vs)"

definition tcp_gateway_excluded_ports :: "config \<Rightarrow> int list go" where
  "tcp_gateway_excluded_ports c =
     go_bind (must_port (dn_listen_tcp (cf_dns c))) (\<lambda>t.
     go_bind (must_port (dn_listen_dot (cf_dns c))) (\<lambda>d.
     let ps = [53, 80, 443, t, d, nw_http_redirect_port (cf_network c),
               nw_https_redirect_port (cf_network c), nw_tcp_redirect_port (cf_network c)]
     in if dn_listen_public_dot (cf_dns c) \<noteq> [] then
          go_bind (must_port (dn_listen_public_dot (cf_dns c))) (\<lambda>p. Ret (unique_ints (ps @ [p])))
        else Ret (unique_ints ps)))"

definition protected_tcp_ports :: "config \<Rightarrow> int list go" where
  "protected_tcp_ports c =
     go_bind (must_port (dn_listen_tcp (cf_dns c))) (\<lambda>t.
     go_bind (must_port (dn_listen_dot (cf_dns c))) (\<lambda>d.
     Ret (unique_ints [t, d, nw_http_redirect_port (cf_network c),
       nw_https_redirect_port (cf_network c), nw_tcp_redirect_port (cf_network c)])))"

definition protected_udp_ports :: "config \<Rightarrow> bool \<Rightarrow> int list go" where
  "protected_udp_ports c quic_proxy =
     go_bind (must_port (dn_listen_udp (cf_dns c))) (\<lambda>u.
     Ret (unique_ints (u # (if quic_proxy then [nw_quic_redirect_port (cf_network c)] else []))))"

section \<open>Views of rules and exits\<close>

record rule_view =
  rv_id :: string
  rv_exit :: string
  rv_exact_file :: string
  rv_suffix_file :: string
  rv_suffix_root_file :: string
  rv_rule :: rule

record exit_view =
  ev_name :: string
  ev_type :: string
  ev_socks4 :: string

definition encrypted_dns_domains :: "string list" where
  "encrypted_dns_domains = [''cloudflare-dns.com'', ''dns.google'', ''dns.google.com'', ''dns.quad9.net'',
     ''dns.adguard-dns.com'', ''dns.nextdns.io'', ''one.one.one.one'', ''1dot1dot1dot1.cloudflare-dns.com'']"

definition rule_list_path :: "string \<Rightarrow> string \<Rightarrow> string" where
  "rule_list_path root file = path_join [root, ''haproxy'', ''rules'', file]"

definition rule_list_file :: "string \<Rightarrow> string list \<Rightarrow> output_file" where
  "rule_list_file file ls = \<lparr>of_path = path_join [''haproxy'', ''rules'', file],
     of_content = lines_file ls, of_mode = 384\<rparr>"

definition rule_view_of :: "(string \<Rightarrow> string) \<Rightarrow> string \<Rightarrow> nat \<Rightarrow> rule \<Rightarrow> rule_view \<times> output_file list" where
  "rule_view_of sha root i r =
     (let rid = ''r'' @ nat_str (i + 1);
          exact = rid @ ''_exact.lst''; suffix = rid @ ''_suffix.lst''; sroot = rid @ ''_suffix_root.lst''
      in (\<lparr>rv_id = rid, rv_exit = exit_id sha (rl_exit r),
           rv_exact_file = (if rl_domain r = [] then [] else rule_list_path root exact),
           rv_suffix_file = (if rl_domain_suffix r = [] then [] else rule_list_path root suffix),
           rv_suffix_root_file = (if rl_domain_suffix r = [] then [] else rule_list_path root sroot),
           rv_rule = r\<rparr>,
          (if rl_domain r = [] then [] else [rule_list_file exact (rl_domain r)])
          @ (if rl_domain_suffix r = [] then []
             else [rule_list_file suffix (map (\<lambda>d. ''.'' @ d) (rl_domain_suffix r)),
                   rule_list_file sroot (rl_domain_suffix r)])))"

definition build_rule_views :: "(string \<Rightarrow> string) \<Rightarrow> rule list \<Rightarrow> string \<Rightarrow> rule_view list \<times> output_file list" where
  "build_rule_views sha rs root =
     (let vs = map (\<lambda>(i, r). rule_view_of sha root i r) (zip [0..<length rs] rs)
      in (map fst vs, concat (map snd vs)))"

text \<open>\<^verbatim>\<open>exitsForHAProxy\<close>: the keys of a map, sorted.\<close>

definition exits_for_haproxy :: "normalized \<Rightarrow> string \<Rightarrow> string list" where
  "exits_for_haproxy n fallback = sort (remdups (fallback # map rl_exit (gateway_rules n)))"

text \<open>An unknown name gives the zero value of \<^verbatim>\<open>ExitConfig\<close>, of which only the type is read.\<close>

definition exit_view_of :: "config \<Rightarrow> string \<Rightarrow> exit_view" where
  "exit_view_of c name = (case exit_by_name c name of
     None \<Rightarrow> \<lparr>ev_name = name, ev_type = [], ev_socks4 = []\<rparr>
   | Some e \<Rightarrow> \<lparr>ev_name = name, ev_type = ex_type e,
       ev_socks4 = (if ex_type e = ''shadowsocks-rust'' then local_addr e else [])\<rparr>)"

definition build_exit_views :: "config \<Rightarrow> string list \<Rightarrow> exit_view list" where
  "build_exit_views c names = map (exit_view_of c) names"

definition acl_names :: "string \<Rightarrow> rule_view \<Rightarrow> string list" where
  "acl_names pre v = (let nm = (\<lambda>kind. pre @ ''_'' @ rv_id v @ ''_'' @ kind) in
     (if rl_domain (rv_rule v) \<noteq> [] then [nm ''exact''] else [])
     @ (if rl_domain_keyword (rv_rule v) \<noteq> [] then [nm ''keyword''] else [])
     @ (if rl_domain_regex (rv_rule v) \<noteq> [] then [nm ''regex''] else [])
     @ (if rl_domain_suffix (rv_rule v) \<noteq> [] then [nm ''suffix'', nm ''root''] else []))"

definition acl_any :: "string \<Rightarrow> rule_view \<Rightarrow> string" where
  "acl_any pre v = (let names = acl_names pre v in
     if names = [] then ''FALSE'' else join_str '' || '' names)"

definition acl_any_all :: "string \<Rightarrow> rule_view list \<Rightarrow> string" where
  "acl_any_all pre vs = (let es = filter (\<lambda>e. e \<noteq> ''FALSE'') (map (acl_any pre) vs) in
     if es = [] then ''FALSE'' else join_str '' || '' es)"

definition http3_capable :: "rule \<Rightarrow> bool" where
  "http3_capable r \<longleftrightarrow> rl_domain r \<noteq> [] \<or> rl_domain_suffix r \<noteq> [] \<or> rl_domain_keyword r \<noteq> [] \<or>
     rl_domain_regex r \<noteq> []"

definition quote_str :: "string \<Rightarrow> string" where
  "quote_str s = dquote # concat (map (\<lambda>c. if c = dquote then [bslash, dquote] else [c]) s) @ [dquote]"

end
