(* ===== verification/Render_Templates.thy ===== *)
theory Render_Templates
  imports Render
begin

text \<open>
  The texts of \<^verbatim>\<open>haproxyTemplate\<close> and \<^verbatim>\<open>nftTemplate\<close>, and \<^verbatim>\<open>GenerateAt\<close>.
\<close>

definition nl :: "string list \<Rightarrow> string" where
  "nl ws = newline @ concat ws"

definition text_if :: "bool \<Rightarrow> string \<Rightarrow> string" where
  "text_if b s = (if b then s else [])"

definition each :: "'a list \<Rightarrow> ('a \<Rightarrow> string) \<Rightarrow> string" where
  "each xs f = concat (map f xs)"

section \<open>HAProxy\<close>

record haproxy_data =
  hd_config :: config
  hd_rules :: "rule_view list"
  hd_exits :: "exit_view list"
  hd_fallback_exit :: string
  hd_max_conn :: int
  hd_access_log :: bool
  hd_reject_encrypted_dns :: bool

definition haproxy_global :: "haproxy_data \<Rightarrow> string" where
  "haproxy_global d =
     ''# Generated by 5gws. Do not edit.''
     @ nl [''global'']
     @ nl [''    log stdout format raw local0'']
     @ nl [''    stats socket '', sy_run_dir (cf_system (hd_config d)), ''/haproxy.sock mode 660 level admin'']
     @ text_if (hd_max_conn d \<noteq> 0) (nl [''    maxconn '', int_str (hd_max_conn d)])
     @ nl [] @ nl [''defaults'']
     @ nl [''    log global'']
     @ nl [''    timeout connect 5s'']
     @ nl [''    timeout client  60s'']
     @ nl [''    timeout server  60s'']
     @ nl [] @ nl [''resolvers realdns'']
     @ each (zip [0..<length (dn_backend_resolvers (cf_dns (hd_config d)))]
           (dn_backend_resolvers (cf_dns (hd_config d))))
         (\<lambda>(i, r). nl [''    nameserver dns'', nat_str i, '' '', r])
     @ nl [''    accepted_payload_size 8192'']
     @ nl [''    resolve_retries 3'']
     @ nl [''    timeout retry 1s'']
     @ nl [''    hold valid 10s'']"

text \<open>The ACLs of one rule; \<open>pre\<close> is the ACL prefix and \<open>key\<close> the sample they look at.\<close>

definition rule_acls :: "string \<Rightarrow> string \<Rightarrow> rule_view \<Rightarrow> string" where
  "rule_acls pre key v =
     text_if (rv_exact_file v \<noteq> [])
       (nl [''    acl '', pre, ''_'', rv_id v, ''_exact '', key, '' -m str -i -f '', rv_exact_file v])
     @ text_if (rv_suffix_file v \<noteq> [])
       (nl [''    acl '', pre, ''_'', rv_id v, ''_suffix '', key, '' -m end -i -f '', rv_suffix_file v]
        @ nl [''    acl '', pre, ''_'', rv_id v, ''_root '', key, '' -m str -i -f '', rv_suffix_root_file v])
     @ each (rl_domain_keyword (rv_rule v))
       (\<lambda>k. nl [''    acl '', pre, ''_'', rv_id v, ''_keyword '', key, '' -m sub -i '', k])
     @ each (rl_domain_regex (rv_rule v))
       (\<lambda>k. nl [''    acl '', pre, ''_'', rv_id v, ''_regex '', key, '' -m reg '', k])"

definition use_backends :: "(string \<Rightarrow> string) \<Rightarrow> string \<Rightarrow> string \<Rightarrow> rule_view list \<Rightarrow> string" where
  "use_backends sha proto pre vs = each vs (\<lambda>v.
     nl [''    use_backend '', proto, ''_'', exit_id sha (rv_exit v), '' if '', acl_any pre v])"

definition log_q :: string where
  "log_q = [dquote]"

definition haproxy_http :: "(string \<Rightarrow> string) \<Rightarrow> haproxy_data \<Rightarrow> string" where
  "haproxy_http sha d =
     nl [] @ nl [''frontend http_in'']
     @ nl [''    bind 0.0.0.0:'', int_str (nw_http_redirect_port (cf_network (hd_config d)))]
     @ nl [''    mode http'']
     @ text_if (hd_access_log d)
       (nl [''    option httplog'']
        @ nl [''    log-format '', log_q,
           ''5gws http src=%ci:%cp fe=%ft be=%b host=%[var(txn.host)] status=%ST bytes=%B term=%ts'', log_q])
     @ nl [''    http-request set-var(txn.host) req.hdr(host),lower'']
     @ nl [''    acl has_host var(txn.host) -m found'']
     @ text_if (hd_reject_encrypted_dns d) (each encrypted_dns_domains (\<lambda>x.
         nl [''    acl encrypted_dns_host var(txn.host) -m str -i '', x]
         @ nl [''    acl encrypted_dns_host var(txn.host) -m end -i .'', x]))
     @ each (hd_rules d) (rule_acls ''host'' ''var(txn.host)'')
     @ nl [''    http-request deny deny_status 403 unless has_host'']
     @ text_if (hd_reject_encrypted_dns d)
       (nl [''    http-request deny deny_status 403 if encrypted_dns_host''])
     @ use_backends sha ''http'' ''host'' (hd_rules d)
     @ nl [''    default_backend http_'', hd_fallback_exit d]"

definition haproxy_tls :: "(string \<Rightarrow> string) \<Rightarrow> haproxy_data \<Rightarrow> string" where
  "haproxy_tls sha d =
     nl [] @ nl [''frontend tls_in'']
     @ nl [''    bind 0.0.0.0:'', int_str (nw_https_redirect_port (cf_network (hd_config d)))]
     @ nl [''    mode tcp'']
     @ text_if (hd_access_log d)
       (nl [''    option tcplog'']
        @ nl [''    log-format '', log_q,
           ''5gws tls src=%ci:%cp fe=%ft be=%b sni=%[var(sess.sni)] dst=%[var(sess.dst)] bytes=%B term=%ts'', log_q])
     @ nl [''    tcp-request inspect-delay 5s'']
     @ nl [''    acl has_sni req.ssl_sni -m found'']
     @ nl [''    acl client_hello req_ssl_hello_type 1'']
     @ nl [''    tcp-request content set-var(sess.sni) req.ssl_sni if has_sni'']
     @ text_if (hd_reject_encrypted_dns d) (each encrypted_dns_domains (\<lambda>x.
         nl [''    acl encrypted_dns_sni req.ssl_sni,lower -m str -i '', x]
         @ nl [''    acl encrypted_dns_sni req.ssl_sni,lower -m end -i .'', x])
         @ nl [''    tcp-request content reject if encrypted_dns_sni''])
     @ nl [''    tcp-request content do-resolve(sess.dst,realdns,ipv4) var(sess.sni) if has_sni'']
     @ nl [''    tcp-request content set-dst var(sess.dst) if has_sni'']
     @ nl [''    tcp-request content reject if client_hello !has_sni'']
     @ nl [''    tcp-request content accept if client_hello'']
     @ each (hd_rules d) (rule_acls ''sni'' ''req.ssl_sni,lower'')
     @ use_backends sha ''tls'' ''sni'' (hd_rules d)
     @ nl [''    default_backend tls_'', hd_fallback_exit d]"

definition socks4_suffix :: "exit_view \<Rightarrow> string" where
  "socks4_suffix e = text_if (ev_socks4 e \<noteq> []) ('' socks4 '' @ ev_socks4 e)"

definition haproxy_backend :: "(string \<Rightarrow> string) \<Rightarrow> exit_view \<Rightarrow> string" where
  "haproxy_backend sha e =
     nl [''backend http_'', exit_id sha (ev_name e)]
     @ nl [''    mode http'']
     @ nl [''    http-request do-resolve(txn.dst,realdns,ipv4) var(txn.host)'']
     @ nl [''    http-request set-dst var(txn.dst)'']
     @ nl [''    server dyn 0.0.0.0:80'', socks4_suffix e]
     @ nl [] @ nl [''backend tls_'', exit_id sha (ev_name e)]
     @ nl [''    mode tcp'']
     @ nl [''    server dyn 0.0.0.0:443'', socks4_suffix e]
     @ newline"

definition haproxy_text :: "(string \<Rightarrow> string) \<Rightarrow> haproxy_data \<Rightarrow> string" where
  "haproxy_text sha d = haproxy_global d @ haproxy_http sha d @ haproxy_tls sha d
     @ each (hd_exits d) (haproxy_backend sha) @ newline"

definition haproxy_at :: "(string \<Rightarrow> string) \<Rightarrow> config \<Rightarrow> normalized \<Rightarrow> string
    \<Rightarrow> (string \<times> output_file list) go" where
  "haproxy_at sha c n root = (case nw_haproxy_max_connections (cf_network c) of None \<Rightarrow> Panic
     | Some m \<Rightarrow>
       (let (views, files) = build_rule_views sha (gateway_rules n) root;
            exits = exits_for_haproxy n (ro_fallback_exit (cf_routing c))
        in Ret (haproxy_text sha \<lparr>hd_config = c, hd_rules = views, hd_exits = build_exit_views c exits,
             hd_fallback_exit = exit_id sha (ro_fallback_exit (cf_routing c)), hd_max_conn = m,
             hd_access_log = access_enabled (cf_logging c),
             hd_reject_encrypted_dns = (nw_encrypted_dns_policy (cf_network c) = ''reject'')\<rparr>, files)))"

section \<open>nftables\<close>

text \<open>The matches that most rules start with.\<close>

definition nft_iface :: "config \<Rightarrow> string" where
  "nft_iface c = ''        iifname '' @ quote_str (nw_ingress_iface (cf_network c))"

definition nft_from :: "config \<Rightarrow> string" where
  "nft_from c = nft_iface c @ '' ip saddr '' @ nw_internal_cidr (cf_network c)"

definition nft_to_gateway :: "config \<Rightarrow> string" where
  "nft_to_gateway c = nft_from c @ '' ip daddr '' @ nw_gateway_ip (cf_network c)"

definition nft_text :: "config \<Rightarrow> int \<Rightarrow> int \<Rightarrow> int \<Rightarrow> bool \<Rightarrow> int list \<Rightarrow> int list \<Rightarrow> int list \<Rightarrow> string" where
  "nft_text c udp tcp dot quic_proxy excluded ptcp pudp =
     ''#!/usr/sbin/nft -f''
     @ nl [''# Generated by 5gws. This replaces only table inet fivegws.'']
     @ nl [''destroy table inet fivegws'']
     @ nl [] @ nl [''table inet fivegws {'']
     @ text_if (\<not> quic_proxy)
       (nl [''    chain early_filter {'']
        @ nl [''        type filter hook prerouting priority filter; policy accept;'']
        @ nl [nft_to_gateway c, '' udp dport 443 counter reject'']
        @ nl [''    }''])
     @ nl [''    chain prerouting {'']
     @ nl [''        type nat hook prerouting priority dstnat; policy accept;'']
     @ nl [nft_from c, '' udp dport 53 counter redirect to :'', int_str udp]
     @ nl [nft_from c, '' tcp dport 53 counter redirect to :'', int_str tcp]
     @ nl [nft_from c, '' tcp dport 853 counter redirect to :'', int_str dot]
     @ nl [nft_to_gateway c, '' tcp dport 80 counter redirect to :'',
           int_str (nw_http_redirect_port (cf_network c))]
     @ nl [nft_to_gateway c, '' tcp dport 443 counter redirect to :'',
           int_str (nw_https_redirect_port (cf_network c))]
     @ text_if quic_proxy (nl [nft_to_gateway c, '' udp dport 443 counter redirect to :'',
           int_str (nw_quic_redirect_port (cf_network c))])
     @ nl [nft_to_gateway c, '' tcp dport != { '', join_ints excluded, '' } counter redirect to :'',
           int_str (nw_tcp_redirect_port (cf_network c))]
     @ nl [''    }'']
     @ nl [] @ nl [''    chain input {'']
     @ nl [''        type filter hook input priority filter; policy accept;'']
     @ nl [nft_iface c, '' ip saddr != '', nw_internal_cidr (cf_network c), '' udp dport { '',
           join_ints pudp, '' } drop'']
     @ nl [nft_iface c, '' ip saddr != '', nw_internal_cidr (cf_network c), '' tcp dport { '',
           join_ints ptcp, '' } reject with tcp reset'']
     @ nl [''    }''] @ nl [''}''] @ newline"

definition nftables :: "config \<Rightarrow> string go" where
  "nftables c =
     (let quic = nw_quic_policy (cf_network c) = ''proxy'' in
     go_bind (must_port (dn_listen_udp (cf_dns c))) (\<lambda>u.
     go_bind (must_port (dn_listen_tcp (cf_dns c))) (\<lambda>t.
     go_bind (must_port (dn_listen_dot (cf_dns c))) (\<lambda>d.
     go_bind (tcp_gateway_excluded_ports c) (\<lambda>ex.
     go_bind (protected_tcp_ports c) (\<lambda>pt.
     go_bind (protected_udp_ports c quic) (\<lambda>pu.
     Ret (nft_text c u t d quic ex pt pu))))))))"

section \<open>GenerateAt\<close>

fun ssrust_files :: "(string \<Rightarrow> string) \<Rightarrow> exit_config list \<Rightarrow> render_error + output_file list" where
  "ssrust_files sha [] = Inr []"
| "ssrust_files sha (e # es) =
     (if ex_type e \<noteq> ''shadowsocks-rust'' then ssrust_files sha es
      else case ssrust_config e of Inl err \<Rightarrow> Inl (SsrustError err)
      | Inr t \<Rightarrow> map_sum id (\<lambda>fs.
          \<lparr>of_path = ''ssrust/'' @ exit_id sha (ex_name e) @ ''.json'', of_content = t, of_mode = 384\<rparr> # fs)
          (ssrust_files sha es))"

definition generate_at :: "(string \<Rightarrow> string) \<Rightarrow> config \<Rightarrow> normalized \<Rightarrow> string
    \<Rightarrow> (render_error + output_file list) go" where
  "generate_at sha c n root = (case render_validate_exits c n of Some e \<Rightarrow> Ret (Inl e)
     | None \<Rightarrow> (case smartdns_generate_at c n (path_join [root, ''smartdns'']) of
         Inl e \<Rightarrow> Ret (Inl (SmartdnsError e))
       | Inr out \<Rightarrow>
         go_bind (haproxy_at sha c n root) (\<lambda>(ha, acls).
         go_bind (nftables c) (\<lambda>nft.
         Ret (map_sum id (\<lambda>ss.
           [\<lparr>of_path = ''haproxy/haproxy.cfg'', of_content = ha, of_mode = 384\<rparr>,
            \<lparr>of_path = ''nftables/5gws.nft'', of_content = nft, of_mode = 384\<rparr>,
            \<lparr>of_path = ''smartdns/smartdns.conf'', of_content = so_config out, of_mode = 384\<rparr>]
           @ acls
           @ map (\<lambda>(name, t). \<lparr>of_path = ''smartdns/'' @ name, of_content = t, of_mode = 384\<rparr>) (so_files out)
           @ ss)
           (ssrust_files sha (cf_exits c)))))))"

definition generate :: "(string \<Rightarrow> string) \<Rightarrow> config \<Rightarrow> normalized \<Rightarrow> (render_error + output_file list) go" where
  "generate sha c n = generate_at sha c n (path_join [sy_state_dir (cf_system c), ''rendered''])"

end
