(* ===== verification/Render_Props.thy ===== *)
theory Render_Props
  imports Render_Templates
begin

text \<open>
  What rendering guarantees: it does not panic on a validated configuration, its port lists keep
  the program's own listeners out of the catch-all redirect, and every backend that a rule names is
  written. The last property shows that runtime identifiers of exits are not unique.
\<close>

section \<open>Ports of a validated configuration\<close>

lemma must_port_ok: "validate_host_port f a lb = None \<Longrightarrow> \<exists>n. must_port a = Ret n \<and> 1 \<le> n \<and> n \<le> 65535"
  by (auto simp: validate_host_port_None must_port_def)

lemma validate_dns_ports:
  assumes "validate_dns d = None"
  shows "\<exists>n. must_port (dn_listen_udp d) = Ret n \<and> 1 \<le> n \<and> n \<le> 65535"
    "\<exists>n. must_port (dn_listen_tcp d) = Ret n \<and> 1 \<le> n \<and> n \<le> 65535"
    "\<exists>n. must_port (dn_listen_dot d) = Ret n \<and> 1 \<le> n \<and> n \<le> 65535"
    "dn_listen_public_dot d \<noteq> [] \<Longrightarrow> \<exists>n. must_port (dn_listen_public_dot d) = Ret n \<and> 1 \<le> n \<and> n \<le> 65535"
proof -
  from assms have "validate_host_port ''dns.listen_udp'' (dn_listen_udp d) False = None"
    "validate_host_port ''dns.listen_tcp'' (dn_listen_tcp d) False = None"
    "validate_host_port ''dns.listen_dot'' (dn_listen_dot d) False = None"
    "dn_listen_public_dot d \<noteq> [] \<Longrightarrow> validate_host_port ''dns.listen_public_dot'' (dn_listen_public_dot d) False = None"
    by (simp_all add: validate_dns_def)
  from this(1-3) this(4) show
    "\<exists>n. must_port (dn_listen_udp d) = Ret n \<and> 1 \<le> n \<and> n \<le> 65535"
    "\<exists>n. must_port (dn_listen_tcp d) = Ret n \<and> 1 \<le> n \<and> n \<le> 65535"
    "\<exists>n. must_port (dn_listen_dot d) = Ret n \<and> 1 \<le> n \<and> n \<le> 65535"
    "dn_listen_public_dot d \<noteq> [] \<Longrightarrow> \<exists>n. must_port (dn_listen_public_dot d) = Ret n \<and> 1 \<le> n \<and> n \<le> 65535"
    using must_port_ok by blast+
qed

lemma unique_loop_set: "distinct out \<Longrightarrow> distinct (unique_loop out vs) \<and> set (unique_loop out vs) = set out \<union> set vs"
  by (induction out vs rule: unique_loop.induct) auto

lemma unique_ints_correct: "sorted_wrt (<) (unique_ints vs) \<and> set (unique_ints vs) = set vs"
  using unique_loop_set [of "[]" vs] by (simp add: unique_ints_def strict_sorted_iff)

text \<open>The TCP ports that the program itself listens on behind the catch-all redirect.\<close>

definition own_tcp_ports :: "config \<Rightarrow> int go set" where
  "own_tcp_ports c = {must_port (dn_listen_tcp (cf_dns c)), must_port (dn_listen_dot (cf_dns c)),
     Ret (nw_http_redirect_port (cf_network c)), Ret (nw_https_redirect_port (cf_network c)),
     Ret (nw_tcp_redirect_port (cf_network c))} \<union>
     (if dn_listen_public_dot (cf_dns c) = [] then {} else {must_port (dn_listen_public_dot (cf_dns c))})"

lemma validate_network_ports:
  "validate_network n = None \<Longrightarrow> 1 \<le> nw_http_redirect_port n \<and> nw_http_redirect_port n \<le> 65535 \<and>
     1 \<le> nw_https_redirect_port n \<and> nw_https_redirect_port n \<le> 65535 \<and>
     1 \<le> nw_tcp_redirect_port n \<and> nw_tcp_redirect_port n \<le> 65535 \<and> (\<exists>m. nw_haproxy_max_connections n = Some m)"
  by (auto simp: validate_network_def validate_port_def split: option.splits)

lemma ssrust_files_ok: "\<exists>fs. ssrust_files sha es = Inr fs"
proof (induction es)
  case Nil
  then show ?case by simp
next
  case (Cons e es)
  then show ?case using ssrust_config_ok [of e] by auto
qed

definition tcp_capable :: "config \<Rightarrow> string \<Rightarrow> bool" where
  "tcp_capable c name \<longleftrightarrow> (\<exists>e. exit_by_name c name = Some e \<and> (ex_type e = ''shadowsocks-rust'' \<longrightarrow> tcp_enabled e))"

lemma validate_tcp_exit_None: "validate_tcp_exit c name label = None \<longleftrightarrow> tcp_capable c name"
  by (auto simp: validate_tcp_exit_def tcp_capable_def split: option.splits)

lemma validate_routing_tcp: "validate up c = None \<Longrightarrow> tcp_capable c (ro_fallback_exit (cf_routing c))"
  using validate_parts(7) [of up c]
  by (auto simp: validate_routing_def tcp_capable_def exit_by_name_def find_exit_def split: option.splits if_splits)

lemma nftables_ok: "validate up c = None \<Longrightarrow> \<exists>t. nftables c = Ret t"
proof -
  assume v: "validate up c = None"
  from validate_dns_ports [OF validate_parts(5) [OF v]] show ?thesis
    by (fastforce simp: nftables_def protected_tcp_ports_def protected_udp_ports_def tcp_gateway_excluded_ports_def Let_def)
qed

lemma exit_id_idem: 
  assumes "\<And>s. list_all is_id_char (sha s)"
  shows "exit_id sha (exit_id sha name) = exit_id sha name"
  using exit_id_safe [of sha name] assms by (simp add: exit_id_def [of sha "exit_id sha name"])

definition sample_two :: config where
  "sample_two = apply_defaults (draft ''10.0.0.1'' ''10.0.0.0/24'' ''eth0'' ''dns.example.com''
     [direct_exit, sample_exit\<lparr>ex_name := ''hk.1''\<rparr>, sample_exit\<lparr>ex_name := ''hk-1'', ex_listen_port := 11081\<rparr>])"

lemma sample_two_valid: "validate (\<lambda>_. None) sample_two = None"
  by code_simp

lemma exit_id_legacy:
  "list_all is_name_char name \<Longrightarrow> \<not> list_all is_id_char name \<Longrightarrow>
   trim_cut ''_'' (replace_unsafe False name) = slug \<Longrightarrow> slug \<noteq> [] \<Longrightarrow> exit_id sha name = slug"
  by (auto simp: exit_id_def Let_def)

definition udp_only_norm :: normalized where
  "udp_only_norm = \<lparr>n_rules = [empty_rule\<lparr>rl_name := ''x'', rl_exit := ''nope'', rl_domain := [''a.example'']\<rparr>],
     n_warnings = []\<rparr>"

section \<open>Properties\<close>

text \<open>
  Claim C6. Rendering a validated configuration never panics, and it fails only for the two reasons
  the code gives: a gateway rule whose exit is unknown or cannot carry TCP, or rules that SmartDNS
  cannot represent.
\<close>

theorem generate_total:
  assumes "validate up c = None"
  shows "\<exists>r. generate_at sha c n root = Ret r \<and>
    ((\<exists>files. r = Inr files) \<longleftrightarrow> (\<forall>ru\<in>set (gateway_rules n). tcp_capable c (rl_exit ru)) \<and>
       (\<exists>out. smartdns_generate_at c n (path_join [root, ''smartdns'']) = Inr out))"
proof -
  obtain nft where nft: "nftables c = Ret nft" using nftables_ok [OF assms] ..
  obtain m where m: "nw_haproxy_max_connections (cf_network c) = Some m"
    using validate_network_ports [OF validate_parts(3) [OF assms]] by blast
  obtain ha where ha: "haproxy_at sha c n root = Ret ha"
    using m by (cases "build_rule_views sha (gateway_rules n) root") (simp add: haproxy_at_def)
  obtain ss where ss: "ssrust_files sha (cf_exits c) = Inr ss"
    using ssrust_files_ok by blast
  have "render_validate_exits c n = None \<longleftrightarrow> (\<forall>ru\<in>set (gateway_rules n). tcp_capable c (rl_exit ru))"
    using validate_routing_tcp [OF assms] by (simp add: render_validate_exits_def validate_tcp_exit_None)
  then show ?thesis
    by (cases "render_validate_exits c n"; cases "smartdns_generate_at c n (path_join [root, ''smartdns''])")
      (auto simp: generate_at_def nft ha ss split: prod.splits)
qed

theorem generate_total_witness:
  "\<exists>e. generate_at (\<lambda>_. ''00'') sample_two udp_only_norm ''/r'' = Ret (Inl e)"
proof -
  have "gateway_rules udp_only_norm = n_rules udp_only_norm" "exit_by_name sample_two ''nope'' = None"
    by code_simp+
  then have "\<not> (\<forall>ru\<in>set (gateway_rules udp_only_norm). tcp_capable sample_two (rl_exit ru))"
    by (simp add: udp_only_norm_def tcp_capable_def)
  with generate_total [OF sample_two_valid, of "\<lambda>_. ''00''" udp_only_norm "''/r''"] show ?thesis
    by (metis old.sum.exhaust)
qed



text \<open>
  Two exits can share a runtime identifier: a configuration that \<^verbatim>\<open>Validate\<close> accepts can
  hold the exits hk.1 and hk-1, whose client configuration files and service units have the same
  names although they listen on different ports.
\<close>

theorem exit_id_collision:
  "validate (\<lambda>_. None) sample_two = None \<and>
   config_file_name sha (cf_exits sample_two ! 1) = config_file_name sha (cf_exits sample_two ! 2) \<and>
   service_name sha (cf_exits sample_two ! 1) = service_name sha (cf_exits sample_two ! 2) \<and>
   ex_name (cf_exits sample_two ! 1) \<noteq> ex_name (cf_exits sample_two ! 2) \<and>
   ex_listen_port (cf_exits sample_two ! 1) \<noteq> ex_listen_port (cf_exits sample_two ! 2)"
proof -
  have "validate (\<lambda>_. None) sample_two = None" by (rule sample_two_valid)
  moreover have "ex_name (cf_exits sample_two ! 1) = ''hk.1''" "ex_name (cf_exits sample_two ! 2) = ''hk-1''"
    "ex_listen_port (cf_exits sample_two ! 1) = 11080" "ex_listen_port (cf_exits sample_two ! 2) = 11081"
    by code_simp+
  moreover have "exit_id sha ''hk.1'' = ''hk_1''"
    by (rule exit_id_legacy; code_simp)
  moreover have "exit_id sha ''hk-1'' = ''hk_1''"
    by (rule exit_id_legacy; code_simp)
  ultimately show ?thesis by (simp add: config_file_name_def service_name_def)
qed

text \<open>
  Claim C8. The HAProxy configuration is closed: every \<^verbatim>\<open>use_backend\<close> of a rule and the
  \<^verbatim>\<open>default_backend\<close> of both frontends name the backend section of an exit that is written out,
  although the identifiers of the rules pass through \<^verbatim>\<open>sanitize\<close> twice.
\<close>

theorem backends_closed:
  assumes "\<And>s. list_all is_id_char (sha s)"
    and "exits = build_exit_views c (exits_for_haproxy n (ro_fallback_exit (cf_routing c)))"
  shows "(\<forall>v\<in>set (fst (build_rule_views sha (gateway_rules n) root)).
       exit_id sha (rv_exit v) \<in> (\<lambda>e. exit_id sha (ev_name e)) ` set exits) \<and>
     exit_id sha (ro_fallback_exit (cf_routing c)) \<in> (\<lambda>e. exit_id sha (ev_name e)) ` set exits"
proof -
  have "ev_name (exit_view_of c x) = x" for x
    by (simp add: exit_view_of_def split: option.splits)
  then have names: "ev_name ` set exits = insert (ro_fallback_exit (cf_routing c)) (rl_exit ` set (gateway_rules n))"
    by (simp add: assms(2) build_exit_views_def exits_for_haproxy_def image_image insert_absorb)
  have view: "\<exists>r\<in>set (gateway_rules n). rv_exit v = exit_id sha (rl_exit r)"
    if "v \<in> set (fst (build_rule_views sha (gateway_rules n) root))" for v
    using that by (auto simp: build_rule_views_def rule_view_of_def Let_def dest: set_zip_rightD)
  have ids: "exit_id sha x \<in> (\<lambda>e. exit_id sha (ev_name e)) ` set exits" if "x \<in> ev_name ` set exits" for x
    using that by auto
  show ?thesis
  proof (intro conjI ballI)
    fix v
    assume "v \<in> set (fst (build_rule_views sha (gateway_rules n) root))"
    then obtain r where "r \<in> set (gateway_rules n)" "rv_exit v = exit_id sha (rl_exit r)"
      using view by blast
    then show "exit_id sha (rv_exit v) \<in> (\<lambda>e. exit_id sha (ev_name e)) ` set exits"
      using ids [of "rl_exit r"] names exit_id_idem [of sha, OF assms(1)] by simp
  next
    show "exit_id sha (ro_fallback_exit (cf_routing c)) \<in> (\<lambda>e. exit_id sha (ev_name e)) ` set exits"
      by (rule ids) (simp add: names)
  qed
qed

theorem backends_closed_witness:
  "exit_id (\<lambda>_. ''00'') ''direct'' \<in> (\<lambda>e. exit_id (\<lambda>_. ''00'') (ev_name e)) ` set (build_exit_views sample_two
     (exits_for_haproxy udp_only_norm (ro_fallback_exit (cf_routing sample_two))))"
proof -
  have sha: "list_all is_id_char ''00''" and fb: "ro_fallback_exit (cf_routing sample_two) = ''direct''"
    by code_simp+
  from backends_closed [of "\<lambda>_. ''00''" _ sample_two udp_only_norm, OF sha refl] show ?thesis
    unfolding fb by blast
qed

end
