(* ===== verification/Sni.thy ===== *)
theory Sni
  imports Go_Prelude
begin

text \<open>
  \<^verbatim>\<open>internal/quic/sni.go\<close>: the server name in a QUIC Initial packet or a TLS ClientHello. Every
  index and slice expression that the code does not guard by an equal check is a \<open>go_index\<close> or
  \<open>go_slice\<close>, so a run-time panic is the value \<open>Panic\<close>; a result \<^verbatim>\<open>("", false)\<close> is \<open>Ret None\<close>.

  The cryptographic primitives are parameters: HMAC-SHA256, the AES block cipher (\<open>None\<close> when the
  key is refused) and the opening of AES-GCM. What the code builds from them (HKDF, the removal of
  header protection, nonce and associated data) is modelled.
\<close>

unbundle bit_operations_syntax

section \<open>Numbers\<close>

definition be16 :: "bytes \<Rightarrow> nat" where
  "be16 b = 256 * unat (b ! 0) + unat (b ! 1)"

definition be32 :: "bytes \<Rightarrow> 32 word" where
  "be32 b = push_bit 24 (ucast (b ! 0)) OR push_bit 16 (ucast (b ! 1)) OR push_bit 8 (ucast (b ! 2)) OR
     ucast (b ! 3)"

definition be64 :: "bytes \<Rightarrow> 64 word" where
  "be64 b = fold (\<lambda>x a. push_bit 8 a OR ucast x) (take 8 b) 0"

text \<open>\<^verbatim>\<open>readVarint\<close>: the value and the number of bytes read, zero bytes for a short buffer.\<close>

definition varint_length :: "byte \<Rightarrow> nat" where
  "varint_length first = 2 ^ unat (drop_bit 6 first)"

definition read_varint :: "bytes \<Rightarrow> 64 word \<times> nat" where
  "read_varint buf = (case buf of [] \<Rightarrow> (0, 0)
     | first # _ \<Rightarrow>
       let n = varint_length first; hi = ucast (first AND 0x3F) :: 64 word in
       if length buf < n then (0, 0)
       else if n = 1 then (hi, 1)
       else if n = 2 then (push_bit 8 hi OR ucast (buf ! 1), 2)
       else if n = 4 then
         (push_bit 24 hi OR push_bit 16 (ucast (buf ! 1)) OR push_bit 8 (ucast (buf ! 2)) OR ucast (buf ! 3), 4)
       else (be64 buf AND 0x3FFFFFFFFFFFFFFF, 8))"

lemma unat_byte_less: "unat (b :: byte) < 256"
  using unsigned_less [of b, where ?'a = nat] by simp

lemma varint_length_cases: "varint_length b \<in> {1, 2, 4, 8}"
proof -
  have "unat (drop_bit 6 b) = unat b div 64"
    by (simp add: drop_bit_eq_div unat_div)
  also have "unat b div 64 < 4"
    using unat_byte_less [of b] by simp
  finally have "unat (drop_bit 6 b) \<in> {0, 1, 2, 3}"
    by auto
  then show ?thesis
    by (auto simp: varint_length_def)
qed

lemma read_varint_length: "read_varint buf = (v, n) \<Longrightarrow> n \<le> length buf"
proof (cases buf)
  case Nil
  assume "read_varint buf = (v, n)"
  with Nil show ?thesis by (simp add: read_varint_def)
next
  case (Cons b r)
  assume "read_varint buf = (v, n)"
  with Cons varint_length_cases [of b] show ?thesis
    by (auto simp: read_varint_def Let_def Suc_le_eq split: if_splits)
qed

section \<open>The server name in a ClientHello\<close>

definition parse_server_name_list :: "bytes \<Rightarrow> string option go" where
  "parse_server_name_list d =
     (if length d < 5 then Ret None
      else go_bind (go_slice d 0 2) (\<lambda>l.
        go_bind (go_index d 2) (\<lambda>t.
        if length d < 2 + be16 l \<or> t \<noteq> 0 then Ret None
        else go_bind (go_slice d 3 5) (\<lambda>n.
          if length d < 5 + be16 n then Ret None
          else go_bind (go_slice d 5 (5 + be16 n)) (\<lambda>s. Ret (Some (string_of_bytes s)))))))"

text \<open>The loop of \<^verbatim>\<open>extractSNIExtension\<close>, on the extensions from the offset on.\<close>

function extract_sni_extension :: "bytes \<Rightarrow> string option go" where
  "extract_sni_extension ext =
     (if length ext < 4 then Ret None
      else let size = be16 (take 2 (drop 2 ext)) in
        if length ext < 4 + size then Ret None
        else if be16 (take 2 ext) = 0 then
          (case go_slice ext 4 (4 + size) of Panic \<Rightarrow> Panic | Ret d \<Rightarrow> parse_server_name_list d)
        else extract_sni_extension (drop (4 + size) ext))"
  by pat_completeness auto
termination by (relation "measure length") auto

declare extract_sni_extension.simps [simp del]

definition handshake_part :: "bytes \<Rightarrow> bytes option go" where
  "handshake_part d =
     (if length d < 5 then Ret None
      else go_bind (go_index d 0) (\<lambda>t.
        if t = 0x16 then
          go_bind (go_slice d 3 5) (\<lambda>l.
            if length d < 5 + be16 l then Ret None
            else go_bind (go_slice d 5 (5 + be16 l)) (\<lambda>hs. Ret (Some hs)))
        else Ret (Some d)))"

text \<open>The body of the ClientHello after the handshake header.\<close>

definition hello_extensions :: "bytes \<Rightarrow> bytes option go" where
  "hello_extensions hello =
     (if length hello < 34 then Ret None
      else go_bind (go_index hello 34) (\<lambda>sid.
        if length hello < 35 + unat sid + 2 then Ret None
        else let off = 35 + unat sid in
        go_bind (go_slice hello off (off + 2)) (\<lambda>cs.
        if length hello < off + 2 + be16 cs + 1 then Ret None
        else let off = off + 2 + be16 cs in
        go_bind (go_index hello off) (\<lambda>cm.
        if length hello < off + 1 + unat cm + 2 then Ret None
        else let off = off + 1 + unat cm in
        go_bind (go_slice hello off (off + 2)) (\<lambda>el.
        if length hello < off + 2 + be16 el then Ret None
        else go_bind (go_slice hello (off + 2) (off + 2 + be16 el)) (\<lambda>e. Ret (Some e)))))))"

definition extract_sni_from_client_hello :: "bytes \<Rightarrow> string option go" where
  "extract_sni_from_client_hello d = go_bind (handshake_part d) (\<lambda>h. case h of None \<Rightarrow> Ret None
     | Some hs \<Rightarrow>
       if length hs < 4 then Ret None
       else go_bind (go_index hs 0) (\<lambda>t.
         if t \<noteq> 1 then Ret None
         else go_bind (hello_extensions (drop 4 hs)) (\<lambda>e. case e of None \<Rightarrow> Ret None
           | Some ext \<Rightarrow> extract_sni_extension ext)))"

section \<open>CRYPTO frames\<close>

text \<open>
  \<^verbatim>\<open>parseCryptoFrames\<close> on the plaintext from the offset on. The check of the data length uses the
  offset before the length field, the slice the one after it; the plaintext is a slice that the
  AEAD allocated with its exact length as capacity, so the slice bound is its length.
\<close>

function parse_crypto_frames :: "bytes \<Rightarrow> string option go" where
  "parse_crypto_frames p = (case p of [] \<Rightarrow> Ret None
     | t # r \<Rightarrow>
       if t = 0x00 then parse_crypto_frames (dropWhile (\<lambda>b. b = 0) r)
       else if t = 0x06 then
         let n = snd (read_varint r); r1 = drop n r; dn = read_varint r1 in
         if n = 0 then Ret None
         else if snd dn = 0 \<or> length r1 < unat (fst dn) then Ret None
         else (case go_slice r1 (snd dn) (snd dn + unat (fst dn)) of Panic \<Rightarrow> Panic
           | Ret d \<Rightarrow> (case extract_sni_from_client_hello d of Panic \<Rightarrow> Panic
             | Ret (Some s) \<Rightarrow> Ret (Some s)
             | Ret None \<Rightarrow> parse_crypto_frames (drop (snd dn + unat (fst dn)) r1)))
       else Ret None)"
  by pat_completeness auto
termination
  by (relation "measure length") (auto simp: le_imp_less_Suc length_dropWhile_le)

declare parse_crypto_frames.simps [simp del]

section \<open>Keys and header protection\<close>

record crypto =
  hmac_sha256 :: "bytes \<Rightarrow> bytes \<Rightarrow> bytes"
  aes_block :: "bytes \<Rightarrow> bytes \<Rightarrow> bytes option"
  gcm_open :: "bytes \<Rightarrow> bytes \<Rightarrow> bytes \<Rightarrow> bytes \<Rightarrow> bytes option"

definition initial_salt_v1 :: bytes where
  "initial_salt_v1 = [0x38, 0x76, 0x2C, 0xF7, 0xF5, 0x59, 0x34, 0xB3, 0x4D, 0x17, 0x9A, 0xE6, 0xA4,
     0xC8, 0x0C, 0xAD, 0xCC, 0xBB, 0x7F, 0x0A]"

definition tag_size :: nat where
  "tag_size = 16"

definition hkdf_extract :: "crypto \<Rightarrow> bytes \<Rightarrow> bytes \<Rightarrow> bytes" where
  "hkdf_extract cr salt ikm = hmac_sha256 cr salt ikm"

text \<open>
  The loop of \<^verbatim>\<open>hkdfExpand\<close>; every round adds a digest, so \<open>length\<close> rounds are enough for a
  digest that is not empty.
\<close>

fun hkdf_rounds :: "crypto \<Rightarrow> bytes \<Rightarrow> bytes \<Rightarrow> nat \<Rightarrow> nat \<Rightarrow> byte \<Rightarrow> bytes \<Rightarrow> bytes \<Rightarrow> bytes" where
  "hkdf_rounds cr prk info len 0 i prev out = out"
| "hkdf_rounds cr prk info len (Suc fuel) i prev out =
     (if length out < len then
        let prev' = hmac_sha256 cr prk (prev @ info @ [i])
        in hkdf_rounds cr prk info len fuel (i + 1) prev' (out @ prev')
      else out)"

definition hkdf_expand :: "crypto \<Rightarrow> bytes \<Rightarrow> bytes \<Rightarrow> nat \<Rightarrow> bytes" where
  "hkdf_expand cr prk info len = take len (hkdf_rounds cr prk info len len 1 [] [])"

definition hkdf_expand_label :: "crypto \<Rightarrow> bytes \<Rightarrow> string \<Rightarrow> bytes \<Rightarrow> nat \<Rightarrow> bytes" where
  "hkdf_expand_label cr secret label context len =
     (let full = bytes_of_string (''tls13 '' @ label) in
      hkdf_expand cr secret ([word_of_nat (len div 256), word_of_nat len, word_of_nat (length full)]
        @ full @ [word_of_nat (length context)] @ context) len)"

text \<open>The client's keys for an Initial packet: key, initialisation vector and header protection key.\<close>

definition initial_keys :: "crypto \<Rightarrow> bytes \<Rightarrow> bytes \<times> bytes \<times> bytes" where
  "initial_keys cr dcid =
     (let client = hkdf_expand_label cr (hkdf_extract cr initial_salt_v1 dcid) ''client in'' [] 32
      in (hkdf_expand_label cr client ''quic key'' [] 16, hkdf_expand_label cr client ''quic iv'' [] 12,
          hkdf_expand_label cr client ''quic hp'' [] 16))"

text \<open>
  The first byte with its protection removed. The code masks five bits; of a long header only
  four are protected.
\<close>

definition unmask_first :: "byte \<Rightarrow> byte \<Rightarrow> byte" where
  "unmask_first b m = b XOR (m AND 0x1F)"

definition pn_length :: "byte \<Rightarrow> nat" where
  "pn_length first = unat (first AND 0x03) + 1"

definition xor_bytes :: "bytes \<Rightarrow> bytes \<Rightarrow> bytes" where
  "xor_bytes a b = map2 (XOR) a b"

text \<open>The packet number, XORed into the last bytes of the 12-byte vector.\<close>

definition make_nonce :: "bytes \<Rightarrow> bytes \<Rightarrow> bytes" where
  "make_nonce iv pn = take (12 - length pn) iv @ xor_bytes (drop (12 - length pn) iv) pn"

definition make_aad :: "bytes \<Rightarrow> nat \<Rightarrow> byte \<Rightarrow> bytes \<Rightarrow> bytes" where
  "make_aad d off first pn = first # drop 1 (take off d) @ pn"

definition decrypt_initial :: "crypto \<Rightarrow> bytes \<Rightarrow> nat \<Rightarrow> nat \<Rightarrow> bytes \<Rightarrow> string option go" where
  "decrypt_initial cr d off len dcid =
     go_bind (go_slice d off (off + len)) (\<lambda>protected.
     let (key, iv, hp) = initial_keys cr dcid in
     if length protected < 20 then Ret None
     else case aes_block cr hp (take 16 (drop 4 protected)) of None \<Rightarrow> Ret None
     | Some msk \<Rightarrow>
       go_bind (go_index d 0) (\<lambda>b0.
       let first = unmask_first b0 (msk ! 0); n = pn_length first;
           pn = xor_bytes (take n protected) (take n (drop 1 msk));
           ciphertext = drop n protected in
       if length ciphertext < tag_size then Ret None
       else case gcm_open cr key (make_nonce iv pn) ciphertext (make_aad d off first pn) of
         None \<Rightarrow> Ret None
       | Some plain \<Rightarrow> parse_crypto_frames plain))"

section \<open>The Initial packet\<close>

definition read_connection_id :: "bytes \<Rightarrow> nat \<Rightarrow> (bytes \<times> nat) option go" where
  "read_connection_id d off =
     (if length d < off + 1 then Ret None
      else go_bind (go_index d off) (\<lambda>size.
        if length d < off + 1 + unat size then Ret None
        else go_bind (go_slice d (off + 1) (off + 1 + unat size)) (\<lambda>c.
          Ret (Some (c, off + 1 + unat size)))))"

definition extract_sni :: "crypto \<Rightarrow> bytes \<Rightarrow> string option go" where
  "extract_sni cr d =
     (if length d < 5 \<or> d ! 0 AND 0x80 = 0 then Ret None
      else if be32 (take 4 (drop 1 d)) \<noteq> 1 then Ret None
      else if drop_bit 4 (d ! 0 AND 0x30) \<noteq> 0 then Ret None
      else go_bind (read_connection_id d 5) (\<lambda>r1. case r1 of None \<Rightarrow> Ret None
      | Some (dcid, off1) \<Rightarrow>
        go_bind (read_connection_id d off1) (\<lambda>r2. case r2 of None \<Rightarrow> Ret None
        | Some (_, off2) \<Rightarrow>
          go_bind (go_slice d off2 (length d)) (\<lambda>rest.
          let (token_len, n) = read_varint rest in
          if n = 0 \<or> length d < off2 + n + unat token_len then Ret None
          else let off3 = off2 + n + unat token_len in
          go_bind (go_slice d off3 (length d)) (\<lambda>rest2.
          let (len, m) = read_varint rest2 in
          if m = 0 \<or> length d - off3 < unat len then Ret None
          else let off4 = off3 + m in
          if length d < off4 + unat len then Ret None
          else decrypt_initial cr d off4 (unat len) dcid)))))"

end
