(* ===== verification/Sni_Props.thy ===== *)
theory Sni_Props
  imports Sni
begin

text \<open>
  What the QUIC and TLS parsers do: an encoder of ClientHello messages and of protected Initial
  packets, and the properties of the parsers on what it produces and on malformed input.
\<close>

unbundle bit_operations_syntax

section \<open>Well-formed messages\<close>

definition be16_bytes :: "nat \<Rightarrow> bytes" where
  "be16_bytes n = [word_of_nat (n div 256), word_of_nat n]"

lemma length_be16_bytes [simp]: "length (be16_bytes n) = 2"
  by (simp add: be16_bytes_def)

lemma be16_be16_bytes: "n < 65536 \<Longrightarrow> be16 (be16_bytes n @ x) = n"
  by (simp add: be16_bytes_def be16_def unat_of_nat)

lemmas be16_be16_bytes' [simp] = be16_be16_bytes [of _ "[]", simplified] 

lemma go_slice_middle: "a = length p \<Longrightarrow> b = length p + length x \<Longrightarrow> go_slice (p @ x @ q) a b = Ret x"
  by (simp add: go_slice_def)

lemma go_index_middle: "a = length p \<Longrightarrow> go_index (p @ x # q) a = Ret x"
  by (simp add: go_index_def)

definition hello_body :: "bytes \<Rightarrow> bytes \<Rightarrow> bytes \<Rightarrow> bytes \<Rightarrow> bytes \<Rightarrow> bytes" where
  "hello_body vr sid cs cm ext = vr @ word_of_nat (length sid) # sid @ be16_bytes (length cs) @ cs @
     word_of_nat (length cm) # cm @ be16_bytes (length ext) @ ext"

lemma hello_extensions_body:
  assumes "length vr = 34" "length sid < 256" "length cs < 65536" "length cm < 256" "length ext < 65536"
  shows "hello_extensions (hello_body vr sid cs cm ext) = Ret (Some ext)"
proof -
  define h where "h = hello_body vr sid cs cm ext"
  define o1 where "o1 = 35 + length sid"
  define o2 where "o2 = o1 + 2 + length cs"
  define o3 where "o3 = o2 + 1 + length cm"
  have u: "unat (word_of_nat (length sid) :: byte) = length sid" "unat (word_of_nat (length cm) :: byte) = length cm"
    using assms by (simp_all add: unat_of_nat)
  have len: "length h = o3 + 2 + length ext"
    by (simp add: h_def hello_body_def o1_def o2_def o3_def assms(1))
  have s1: "go_index h 34 = Ret (word_of_nat (length sid))"
    unfolding h_def hello_body_def using assms(1) by (intro go_index_middle) simp
  have s2: "go_slice h o1 (o1 + 2) = Ret (be16_bytes (length cs))"
    unfolding h_def hello_body_def using assms(1)
      go_slice_middle [of o1 "vr @ word_of_nat (length sid) # sid" "o1 + 2" "be16_bytes (length cs)"]
    by (simp add: o1_def)
  have s3: "go_index h o2 = Ret (word_of_nat (length cm))"
    unfolding h_def hello_body_def using assms(1)
      go_index_middle [of o2 "vr @ word_of_nat (length sid) # sid @ be16_bytes (length cs) @ cs"]
    by (simp add: o2_def o1_def)
  have s4: "go_slice h o3 (o3 + 2) = Ret (be16_bytes (length ext))"
    unfolding h_def hello_body_def using assms(1)
      go_slice_middle [of o3 "vr @ word_of_nat (length sid) # sid @ be16_bytes (length cs) @ cs @
         word_of_nat (length cm) # cm" "o3 + 2" "be16_bytes (length ext)"]
    by (simp add: o3_def o2_def o1_def)
  have s5: "go_slice h (o3 + 2) (o3 + 2 + length ext) = Ret ext"
    unfolding h_def hello_body_def using assms(1)
      go_slice_middle [of "o3 + 2" "vr @ word_of_nat (length sid) # sid @ be16_bytes (length cs) @ cs @
         word_of_nat (length cm) # cm @ be16_bytes (length ext)" "o3 + 2 + length ext" ext "[]"]
    by (simp add: o3_def o2_def o1_def)
  have "hello_extensions h = Ret (Some ext)"
    unfolding hello_extensions_def Let_def s1 go_bind.simps u o1_def [symmetric] s2
      be16_be16_bytes' [OF assms(3)] o2_def [symmetric] s3 o3_def [symmetric] s4 be16_be16_bytes' [OF assms(5)] s5
    using len by (simp add: o3_def o2_def o1_def)
  then show ?thesis by (simp add: h_def)
qed

definition ext_bytes :: "nat \<times> bytes \<Rightarrow> bytes" where
  "ext_bytes e = be16_bytes (fst e) @ be16_bytes (length (snd e)) @ snd e"

definition name_list :: "bytes \<Rightarrow> bytes" where
  "name_list name = be16_bytes (length name + 3) @ 0 # be16_bytes (length name) @ name"

lemma parse_name_list:
  assumes "length name + 3 < 65536"
  shows "parse_server_name_list (name_list name) = Ret (Some (string_of_bytes name))"
proof -
  have "go_slice (name_list name) 3 5 = Ret (be16_bytes (length name))"
    using go_slice_middle [of 3 "be16_bytes (length name + 3) @ [0]" 5 "be16_bytes (length name)" name]
    by (simp add: name_list_def)
  moreover have "go_slice (name_list name) 5 (5 + length name) = Ret name"
    using go_slice_middle [of 5 "be16_bytes (length name + 3) @ 0 # be16_bytes (length name)" "5 + length name" name "[]"]
    by (simp add: name_list_def)
  moreover have "go_slice (name_list name) 0 2 = Ret (be16_bytes (length name + 3))"
    by (simp add: name_list_def)
  moreover have "go_index (name_list name) 2 = Ret 0"
    using go_index_middle [of 2 "be16_bytes (length name + 3)"] by (simp add: name_list_def)
  moreover have "length (name_list name) = 5 + length name" by (simp add: name_list_def)
  ultimately show ?thesis
    using assms by (simp add: parse_server_name_list_def)
qed

lemma ext_bytes_simps:
  assumes "t < 65536" "length b < 65536"
  shows "be16 (take 2 (ext_bytes (t, b) @ r)) = t" "be16 (take 2 (drop 2 (ext_bytes (t, b) @ r))) = length b"
    "drop (4 + length b) (ext_bytes (t, b) @ r) = r" "go_slice (ext_bytes (t, b) @ r) 4 (4 + length b) = Ret b"
    "4 + length b \<le> length (ext_bytes (t, b) @ r)"
  using assms go_slice_middle [of 4 "be16_bytes t @ be16_bytes (length b)" "4 + length b" b r]
  by (simp_all add: ext_bytes_def)

lemma extract_skips:
  assumes "t < 65536" "t \<noteq> 0" "length b < 65536"
  shows "extract_sni_extension (ext_bytes (t, b) @ r) = extract_sni_extension r"
  using ext_bytes_simps [OF assms(1,3), of r] assms(2)
  by (subst extract_sni_extension.simps) (auto simp: Let_def)

lemma extract_finds:
  assumes "length b < 65536"
  shows "extract_sni_extension (ext_bytes (0, b) @ r) = parse_server_name_list b"
  using ext_bytes_simps [OF _ assms, of 0 r]
  by (subst extract_sni_extension.simps) (auto simp: Let_def)

lemma extract_sni_extension_encode:
  assumes "\<forall>e\<in>set pre. fst e \<noteq> 0 \<and> fst e < 65536 \<and> length (snd e) < 65536" and "length name + 5 < 65536"
  shows "extract_sni_extension (concat (map ext_bytes pre) @ ext_bytes (0, name_list name) @ post)
    = Ret (Some (string_of_bytes name))"
  using assms(1)
proof (induction pre)
  case Nil
  have "length (name_list name) < 65536" using assms(2) by (simp add: name_list_def)
  with assms(2) show ?case by (simp add: extract_finds parse_name_list)
next
  case (Cons e pre)
  then show ?case using extract_skips [of "fst e" "snd e"] by simp
qed

section \<open>Panics\<close>

lemma parse_server_name_list_total: "parse_server_name_list d \<noteq> Panic"
  by (auto simp: parse_server_name_list_def)

lemma extract_sni_extension_total: "extract_sni_extension e \<noteq> Panic"
proof (induction e rule: extract_sni_extension.induct)
  case (1 ext)
  then show ?case
    by (subst extract_sni_extension.simps)
      (auto simp: Let_def parse_server_name_list_total split: go.splits)
qed

lemma handshake_part_total: "\<exists>h. handshake_part d = Ret h"
  by (cases d) (auto simp: handshake_part_def)

lemma hello_extensions_panic: "hello_extensions h = Panic \<longleftrightarrow> length h = 34"
proof (cases "length h = 34")
  case True
  then show ?thesis by (simp add: hello_extensions_def go_index_def)
next
  case False
  then show ?thesis
    by (auto simp: hello_extensions_def Let_def)
qed

section \<open>Header protection\<close>

text \<open>
  The sender's side as RFC 9001, section 5.4, defines it: of the first byte of a long header the
  lower four bits are masked, then the packet number.
\<close>

definition protect_first :: "byte \<Rightarrow> byte \<Rightarrow> byte" where
  "protect_first b m = b XOR (m AND 0x0F)"

definition protect_packet :: "bytes \<Rightarrow> bytes \<Rightarrow> bytes \<Rightarrow> bytes \<Rightarrow> bytes" where
  "protect_packet header pn ct msk =
     protect_first (hd header) (msk ! 0) # tl header @ xor_bytes pn (take (length pn) (drop 1 msk)) @ ct"

lemma unmask_protect: "unmask_first (protect_first b m) m = b XOR (m AND 0x10)"
proof -
  have "(m AND 0x0F) XOR (m AND 0x1F) = m AND 0x10"
    by (simp flip: bit.conj_xor_distrib)
  then show ?thesis by (simp add: unmask_first_def protect_first_def xor.assoc)
qed

lemma byte_bit4: "(m :: byte) AND 0x10 = 0 \<longleftrightarrow> \<not> bit m 4"
  using and_exp_eq_0_iff_not_bit [of m 4] by simp

lemma xor_eq_self: "(b :: byte) XOR x = b \<longleftrightarrow> x = 0"
  by (metis bit.xor_left_self xor.right_neutral)

lemma unmask_iff: "unmask_first (protect_first b m) m = b \<longleftrightarrow> \<not> bit m 4"
  by (simp add: unmask_protect xor_eq_self byte_bit4)

lemma pn_length_unmask: "pn_length (unmask_first (protect_first b m) m) = pn_length b"
proof -
  have "(b XOR (m AND 0x10)) AND 3 = (b AND 3) XOR (m AND (0x10 AND 3))"
    by (simp add: bit.conj_xor_distrib2 and.assoc)
  then show ?thesis by (simp add: pn_length_def unmask_protect)
qed

lemma pn_length_le: "pn_length b \<le> 4"
proof -
  have "b AND 3 = take_bit 2 b" by (simp add: take_bit_eq_mask mask_eq_exp_minus_1)
  then have "unat (b AND 3) = unat b mod 4" by (simp add: take_bit_eq_mod unat_mod)
  then show ?thesis by (simp add: pn_length_def)
qed

lemma xor_bytes_cancel: "length a = length b \<Longrightarrow> xor_bytes (xor_bytes a b) b = a"
  unfolding xor_bytes_def
  by (induction a b rule: list_induct2) (simp_all add: xor.assoc)

lemma length_xor_bytes [simp]: "length (xor_bytes a b) = min (length a) (length b)"
  by (simp add: xor_bytes_def)

definition sample_plain :: bytes where
  "sample_plain = [6, 0, 0x40, 67, 1, 0, 0, 63] @ hello_body (replicate 34 0) [] [0x13, 1] [0]
     (ext_bytes (0, name_list (bytes_of_string ''a.example''))) @ [0, 0, 0]"

definition toy_crypto :: "byte \<Rightarrow> crypto" where
  "toy_crypto b = \<lparr>hmac_sha256 = (\<lambda>k m. replicate 32 0), aes_block = (\<lambda>k s. Some (b # replicate 15 7)),
     gcm_open = (\<lambda>k n ct aad. if aad = [0xC0, 1] @ [5] then Some sample_plain else None)\<rparr>"

definition toy_packet :: "byte \<Rightarrow> bytes" where
  "toy_packet b = protect_packet [0xC0, 1] [5] (replicate 19 9) (b # replicate 15 7)"

lemma hkdf_rounds_stop: "len \<le> length out \<Longrightarrow> hkdf_rounds cr prk info len fuel i prev out = out"
  by (cases fuel) simp_all

lemma toy_expand: "0 < n \<Longrightarrow> n \<le> 32 \<Longrightarrow> hkdf_expand (toy_crypto b) prk info n = replicate n 0"
  by (cases n) (simp_all add: hkdf_expand_def Let_def toy_crypto_def hkdf_rounds_stop min_def)

section \<open>Properties\<close>

text \<open>
  Claim C9. The ClientHello parser finds the server name: for every well-formed handshake message,
  with any session id, cipher suites, compression methods and extensions before and after, it
  returns the name of the first server-name extension.
\<close>

theorem client_hello_sni:
  assumes "length vr = 34" "length sid < 256" "length cs < 65536" "length cm < 256" "length ext < 65536"
    and "ext = concat (map ext_bytes pre) @ ext_bytes (0, name_list name) @ post"
    and "\<forall>e\<in>set pre. fst e \<noteq> 0 \<and> fst e < 65536"
  shows "extract_sni_from_client_hello ([1, l2, l1, l0] @ hello_body vr sid cs cm ext)
    = Ret (Some (string_of_bytes name))"
proof -
  have "length (snd e) \<le> length ext" if "e \<in> set pre" for e
  proof -
    from that obtain p q where "pre = p @ e # q" by (auto simp: in_set_conv_decomp)
    then show ?thesis by (simp add: assms(6) ext_bytes_def)
  qed
  moreover have "length name + 5 < length ext" by (simp add: assms(6) ext_bytes_def name_list_def)
  ultimately have "extract_sni_extension ext = Ret (Some (string_of_bytes name))"
    unfolding assms(6) using assms(5,7) by (intro extract_sni_extension_encode) (auto simp: assms(6) [symmetric] intro: le_less_trans)
  then show ?thesis
    by (simp add: extract_sni_from_client_hello_def handshake_part_def hello_extensions_body assms(1-5) go_index_def)
      (simp add: hello_body_def)
qed

theorem client_hello_sni_witness:
  "extract_sni_from_client_hello ([1, 0, 0, 63] @ hello_body (replicate 34 0) [] [0x13, 1] [0]
     (concat (map ext_bytes [(10, [0, 1])]) @ ext_bytes (0, name_list (bytes_of_string ''a.example'')) @ []))
   = Ret (Some (string_of_bytes (bytes_of_string ''a.example'')))"
  by (rule client_hello_sni [OF _ _ _ _ _ refl])
    (simp_all add: ext_bytes_def name_list_def)

text \<open>
  Claim C10. Decryption of Initial packets: for a packet protected as RFC 9001 prescribes, the code
  opens the AEAD with the header the sender authenticated exactly when bit 4 of the header
  protection mask is clear. When the bit is set, the code flips the bit in the first byte of the
  associated data, so authentication fails and no server name is found, which is the case for about
  half of all connections: the code masks five bits of the first byte where a long header has four.
\<close>

theorem initial_decryption:
  assumes "initial_keys cr dcid = (key, iv, hp)" and "header \<noteq> []" and "length pn = pn_length (hd header)"
    and "16 \<le> length ct" "20 \<le> length pn + length ct" and "length msk = 16"
    and "aes_block cr hp (take 16 (drop (4 - length pn) ct)) = Some msk"
    and "\<And>aad. gcm_open cr key (make_nonce iv pn) ct aad = (if aad = header @ pn then Some plain else None)"
  shows "decrypt_initial cr (protect_packet header pn ct msk) (length header) (length pn + length ct) dcid =
    (if bit (msk ! 0) 4 then Ret None else parse_crypto_frames plain)"
proof -
  define b where "b = hd header"
  have header: "header = b # tl header" using assms(2) by (simp add: b_def)
  have n: "length pn \<le> 4" using assms(3) pn_length_le by simp
  define m where "m = take (length pn) (drop 1 msk)"
  have m: "length m = length pn" using n assms(6) by (simp add: m_def)
  define q where "q = xor_bytes pn m"
  have q: "length q = length pn" by (simp add: q_def m)
  define d where "d = protect_packet header pn ct msk"
  have d: "d = (protect_first b (msk ! 0) # tl header) @ (q @ ct)"
    by (simp add: d_def protect_packet_def b_def q_def m_def)
  have len: "length header = length (protect_first b (msk ! 0) # tl header)"
    using assms(2) by (cases header) simp_all
  have slice: "go_slice d (length header) (length header + (length pn + length ct)) = Ret (q @ ct)"
    unfolding d len using go_slice_middle [of _ "protect_first b (msk ! 0) # tl header" _ "q @ ct" "[]"] q by simp
  have d0: "go_index d 0 = Ret (protect_first b (msk ! 0))" by (simp add: d go_index_def)
  have sample: "take 16 (drop 4 (q @ ct)) = take 16 (drop (4 - length pn) ct)"
    using q n by simp
  define first where "first = unmask_first (protect_first b (msk ! 0)) (msk ! 0)"
  have pnl: "pn_length first = length pn" using assms(3) by (simp add: first_def pn_length_unmask b_def)
  have "take (length pn) (q @ ct) = q" using q by simp
  then have pn': "xor_bytes (take (length pn) (q @ ct)) (take (length pn) (drop 1 msk)) = pn"
    using xor_bytes_cancel [of pn m] m unfolding m_def [symmetric] by (simp add: q_def)
  have aad: "make_aad d (length header) first pn = first # tl header @ pn"
    unfolding make_aad_def d len by simp
  have "first # tl header @ pn = header @ pn \<longleftrightarrow> \<not> bit (msk ! 0) 4"
    by (subst header) (simp add: first_def unmask_iff)
  with assms(8) have open': "gcm_open cr key (make_nonce iv pn) ct (first # tl header @ pn) =
      (if bit (msk ! 0) 4 then None else Some plain)" by simp
  have "decrypt_initial cr d (length header) (length pn + length ct) dcid =
     (if bit (msk ! 0) 4 then Ret None else parse_crypto_frames plain)"
    unfolding decrypt_initial_def slice go_bind.simps Let_def assms(1) prod.case sample assms(7) option.case d0
      first_def [symmetric] pnl pn' aad
    using assms(4,5) q open' by (simp add: tag_size_def)
  then show ?thesis by (simp add: d_def)
qed

theorem initial_decryption_witness:
  "decrypt_initial (toy_crypto 0) (toy_packet 0) 2 20 [1] = Ret (Some ''a.example'') \<and>
   decrypt_initial (toy_crypto 0x10) (toy_packet 0x10) 2 20 [1] = Ret None"
proof -
  have k: "initial_keys (toy_crypto b) [1] = (replicate 16 0, replicate 12 0, replicate 16 0)" for b
    by (simp add: initial_keys_def hkdf_expand_label_def Let_def toy_expand)
  have "decrypt_initial (toy_crypto b) (protect_packet [0xC0, 1] [5] (replicate 19 9) (b # replicate 15 7))
     (length [0xC0, 1 :: byte]) (length [5 :: byte] + length (replicate 19 (9 :: byte))) [1] =
     (if bit ((b # replicate 15 7) ! 0 :: byte) 4 then Ret None else parse_crypto_frames sample_plain)" for b
    by (rule initial_decryption [OF k]) (simp_all add: toy_crypto_def pn_length_def)
  then have d: "decrypt_initial (toy_crypto b) (toy_packet b) 2 20 [1] =
     (if bit b 4 then Ret None else parse_crypto_frames sample_plain)" for b
    by (simp add: numeral_2_eq_2 toy_packet_def)
  have "parse_crypto_frames sample_plain = Ret (Some ''a.example'')" "bit (0x10 :: byte) 4" "\<not> bit (0 :: byte) 4"
    by code_simp+
  with d [of 0] d [of "0x10"] show ?thesis by simp
qed

text \<open>
  Claim C11. The ClientHello parser panics on exactly one length: a handshake message of 38 bytes
  that starts with the ClientHello type, whose body of 34 bytes passes the length check although
  byte 34 is read next. Every other input returns.
\<close>

theorem client_hello_panics_iff:
  "extract_sni_from_client_hello d = Panic \<longleftrightarrow>
   (\<exists>hs. handshake_part d = Ret (Some hs) \<and> length hs = 38 \<and> hs ! 0 = 1)"
proof -
  obtain h where h: "handshake_part d = Ret h" using handshake_part_total by blast
  show ?thesis
  proof (cases h)
    case None
    with h show ?thesis by (simp add: extract_sni_from_client_hello_def)
  next
    case (Some hs)
    show ?thesis
    proof (cases "length hs < 4")
      case True
      with h Some show ?thesis by (simp add: extract_sni_from_client_hello_def)
    next
      case False
      then have "go_index hs 0 = Ret (hs ! 0)" by (intro go_index_ok) auto
      with False h Some show ?thesis
        using extract_sni_extension_total hello_extensions_panic [of "drop 4 hs"]
        by (auto simp: extract_sni_from_client_hello_def go_bind_eq_Panic split: option.splits)
    qed
  qed
qed

text \<open>
  The CRYPTO frame parser panics whenever the declared data length fits the bytes that
  remain before its length field was skipped but not those after it; four bytes of plaintext are
  enough.
\<close>

theorem crypto_frame_panics:
  assumes "read_varint r = (v, n)" "n \<noteq> 0" "read_varint (drop n r) = (len, k)" "k \<noteq> 0"
    and "unat len \<le> length (drop n r)" "length (drop n r) < k + unat len"
  shows "parse_crypto_frames (6 # r) = Panic"
  using assms by (subst parse_crypto_frames.simps) (simp add: Let_def go_slice_def)

theorem crypto_frame_panics_witness: "parse_crypto_frames [6, 0, 2, 170] = Panic"
proof -
  have "read_varint [0, 2, 170] = (0, 1)" "read_varint (drop 1 [0, 2, 170]) = (2, 1)"
    by code_simp+
  from crypto_frame_panics [OF this(1) _ this(2)] show ?thesis by simp
qed

end
