(* ===== verification/Socks.thy ===== *)
theory Socks
  imports Go_Net Sni
begin

text \<open>
  The SOCKS5 client of \<^verbatim>\<open>internal/quic\<close>: the request and reply formats of \<^verbatim>\<open>gateway.go\<close> and
  \<^verbatim>\<open>tcp_proxy.go\<close>, and the two dialogues with the proxy. The proxy is the sequence of bytes it
  sends before it stops; a write to it succeeds. Dialling, deadlines and closing are left out, so
  the result of a dialogue is what the client wrote and either an error or the address it got.
\<close>

datatype socks_error =
    DomainTooLong string | ShortRead | BadVersion byte | RequestFailed byte | BadAddressType byte
  | ShortPacket | FragmentedPacket | ShortDomain | ShortPort | MethodRejected | PayloadTooLarge nat

section \<open>Addresses\<close>

definition port_bytes :: "int \<Rightarrow> bytes" where
  "port_bytes p = (let w = word_of_int p :: 16 word in [ucast (drop_bit 8 w), ucast w])"

definition host_bytes :: "string \<Rightarrow> socks_error + bytes" where
  "host_bytes host = (case parse_ip host of
     Some ip \<Rightarrow> (case ip_to4 ip of Some q \<Rightarrow> Inr (1 # q) | None \<Rightarrow> Inr (4 # ip))
   | None \<Rightarrow> if 255 < length host then Inl (DomainTooLong host)
       else Inr (3 # word_of_nat (length host) # bytes_of_string host))"

definition socks_addr :: "string \<Rightarrow> int \<Rightarrow> socks_error + bytes" where
  "socks_addr host port = map_sum id (\<lambda>a. a @ port_bytes port) (host_bytes host)"

text \<open>\<^verbatim>\<open>io.ReadFull\<close> of \<open>n\<close> bytes from what the proxy sends.\<close>

definition read_full :: "nat \<Rightarrow> bytes \<Rightarrow> (bytes \<times> bytes) option" where
  "read_full n s = (if n \<le> length s then Some (take n s, drop n s) else None)"

definition read_port :: "string \<Rightarrow> bytes \<Rightarrow> socks_error + ((string \<times> int) \<times> bytes)" where
  "read_port host s = (case read_full 2 s of None \<Rightarrow> Inl ShortRead
     | Some (p, s') \<Rightarrow> Inr ((host, int (be16 p)), s'))"

definition read_socks_addr :: "bytes \<Rightarrow> socks_error + ((string \<times> int) \<times> bytes)" where
  "read_socks_addr s = (case read_full 4 s of None \<Rightarrow> Inl ShortRead
     | Some (h, s1) \<Rightarrow>
       if h ! 0 \<noteq> 5 then Inl (BadVersion (h ! 0))
       else if h ! 1 \<noteq> 0 then Inl (RequestFailed (h ! 1))
       else if h ! 3 = 1 then (case read_full 4 s1 of None \<Rightarrow> Inl ShortRead
         | Some (a, s2) \<Rightarrow> read_port (ip_str a) s2)
       else if h ! 3 = 3 then (case read_full 1 s1 of None \<Rightarrow> Inl ShortRead
         | Some (l, s2) \<Rightarrow> (case read_full (unat (l ! 0)) s2 of None \<Rightarrow> Inl ShortRead
           | Some (a, s3) \<Rightarrow> read_port (string_of_bytes a) s3))
       else if h ! 3 = 4 then (case read_full 16 s1 of None \<Rightarrow> Inl ShortRead
         | Some (a, s2) \<Rightarrow> read_port (ip_str a) s2)
       else Inl (BadAddressType (h ! 3)))"

section \<open>UDP datagrams\<close>

definition socks_udp_request :: "string \<Rightarrow> int \<Rightarrow> bytes \<Rightarrow> socks_error + bytes" where
  "socks_udp_request host port data =
     map_sum id (\<lambda>a. [0, 0, 0] @ a @ port_bytes port @ data) (host_bytes host)"

definition payload_from :: "bytes \<Rightarrow> nat \<Rightarrow> socks_error + bytes" where
  "payload_from p off = (if length p < off + 2 then Inl ShortPort else Inr (drop (off + 2) p))"

definition socks_udp_payload :: "bytes \<Rightarrow> socks_error + bytes" where
  "socks_udp_payload p =
     (if length p < 4 then Inl ShortPacket
      else if p ! 2 \<noteq> 0 then Inl FragmentedPacket
      else if p ! 3 = 1 then payload_from p 8
      else if p ! 3 = 3 then
        (if length p < 5 then Inl ShortDomain else payload_from p (5 + unat (p ! 4)))
      else if p ! 3 = 4 then payload_from p 20
      else Inl (BadAddressType (p ! 3)))"

text \<open>\<^verbatim>\<open>socksUDPConn.Read\<close>: a datagram longer than the packet buffer is cut by the read.\<close>

definition socks_udp_read :: "nat \<Rightarrow> bytes \<Rightarrow> socks_error + bytes" where
  "socks_udp_read buflen datagram = (case socks_udp_payload (take (buflen + 512) datagram) of
     Inl e \<Rightarrow> Inl e
   | Inr d \<Rightarrow> if buflen < length d then Inl (PayloadTooLarge (length d)) else Inr d)"

section \<open>The dialogues\<close>

definition greeting :: bytes where
  "greeting = [5, 1, 0]"

definition associate_request :: bytes where
  "associate_request = [5, 3, 0, 1, 0, 0, 0, 0, 0, 0]"

text \<open>\<^verbatim>\<open>dialSocksUDP\<close>: what is written and the relay's address; \<open>peer\<close> is the proxy's own host.\<close>

definition dial_socks_udp :: "string \<Rightarrow> bytes \<Rightarrow> bytes \<times> (socks_error + string \<times> int)" where
  "dial_socks_udp peer s = (case read_full 2 s of None \<Rightarrow> (greeting, Inl ShortRead)
     | Some (m, s1) \<Rightarrow>
       if m ! 0 \<noteq> 5 \<or> m ! 1 \<noteq> 0 then (greeting, Inl MethodRejected)
       else (greeting @ associate_request, (case read_socks_addr s1 of Inl e \<Rightarrow> Inl e
         | Inr ((h, p), _) \<Rightarrow> Inr (if h = ''0.0.0.0'' \<or> h = ''::'' then peer else h, p))))"

text \<open>\<^verbatim>\<open>dialSocksTCP\<close>: what is written and what the proxy sent after its reply.\<close>

definition dial_socks_tcp :: "string \<Rightarrow> int \<Rightarrow> bytes \<Rightarrow> bytes \<times> (socks_error + bytes)" where
  "dial_socks_tcp host port s = (case read_full 2 s of None \<Rightarrow> (greeting, Inl ShortRead)
     | Some (m, s1) \<Rightarrow>
       if m ! 0 \<noteq> 5 \<or> m ! 1 \<noteq> 0 then (greeting, Inl MethodRejected)
       else (case socks_addr host port of Inl e \<Rightarrow> (greeting, Inl e)
         | Inr a \<Rightarrow> (greeting @ [5, 1, 0] @ a,
             (case read_socks_addr s1 of Inl e \<Rightarrow> Inl e | Inr (_, rest) \<Rightarrow> Inr rest))))"

section \<open>Round trips\<close>

lemma length_port_bytes [simp]: "length (port_bytes p) = 2"
  by (simp add: port_bytes_def Let_def)

lemma be16_port_bytes:
  assumes "0 \<le> p" "p < 65536"
  shows "int (be16 (port_bytes p @ r)) = p"
proof -
  define w where "w = (word_of_int p :: 16 word)"
  have w: "unat w = nat p"
    using assms by (simp add: w_def unat_eq_nat_uint unsigned_of_int take_bit_int_eq_self)
  have "unat (ucast (drop_bit 8 w) :: byte) = unat w div 256"
    using w assms by (simp add: unsigned_ucast_eq unat_drop_bit_eq drop_bit_eq_div take_bit_eq_mod nat_less_iff unat_div)
  moreover have "unat (ucast w :: byte) = unat w mod 256"
    by (simp add: unsigned_ucast_eq take_bit_eq_mod)
  ultimately show ?thesis
    using w assms by (simp add: be16_def port_bytes_def Let_def w_def [symmetric])
qed

lemma host_bytes_cases:
  assumes "host_bytes host = Inr a"
  obtains q where "a = 1 # q" "length q = 4" "parse_ip host \<noteq> None"
  | q where "a = 4 # q" "length q = 16" "parse_ip host \<noteq> None"
  | "a = 3 # word_of_nat (length host) # bytes_of_string host" "length host \<le> 255" "parse_ip host = None"
  using assms
  by (fastforce simp: host_bytes_def dest: ip_to4_length length_parse_ip split: option.splits if_splits)

text \<open>
  SOCKS datagrams round-trip: the payload of the datagram built for any host and port is
  the data that was sent, for addresses of all three kinds.
\<close>

theorem socks_udp_roundtrip:
  assumes "socks_udp_request host port data = Inr packet"
  shows "socks_udp_payload packet = Inr data"
proof -
  from assms obtain a where a: "host_bytes host = Inr a" and p: "packet = [0, 0, 0] @ a @ port_bytes port @ data"
    by (auto simp: socks_udp_request_def map_sum_eq_Inr)
  from a show ?thesis
  proof (cases rule: host_bytes_cases)
    case (1 q)
    then show ?thesis by (simp add: p socks_udp_payload_def payload_from_def)
  next
    case (2 q)
    then show ?thesis by (simp add: p socks_udp_payload_def payload_from_def)
  next
    case 3
    then have "unat (word_of_nat (length host) :: byte) = length host" by (simp add: unat_of_nat)
    with 3 show ?thesis by (simp add: p socks_udp_payload_def payload_from_def nth_append eval_nat_numeral)
  qed
qed

theorem socks_udp_roundtrip_witness:
  "socks_udp_payload ([0, 0, 0, 3, 9] @ bytes_of_string ''a.example'' @ [1, 187] @ [7, 8, 9]) = Inr [7, 8, 9]"
proof -
  have "socks_udp_request ''a.example'' 443 [7, 8, 9] =
      Inr ([0, 0, 0, 3, 9] @ bytes_of_string ''a.example'' @ [1, 187] @ [7, 8, 9])"
    by code_simp
  then show ?thesis by (rule socks_udp_roundtrip)
qed

end
