(* ===== verification/Tcp_Proxy.thy ===== *)
theory Tcp_Proxy
  imports Socks Config_Validate Matching
begin

text \<open>
  \<^verbatim>\<open>internal/quic/tcp_proxy.go\<close>: sniffing the target host of a redirected TCP connection, choosing
  its exit, and the plan of a connection up to the relay. Sockets are left out; a connection is
  described by its original destination and the first bytes the client sent.
\<close>

section \<open>Sniffing\<close>

definition crlf :: string where
  "crlf = [CHR 0x0D, CHR 0x0A]"

lemma index_str_bound: "index_str s sub = Some i \<Longrightarrow> i + length sub \<le> length s"
proof (induction s sub arbitrary: i rule: index_str.induct)
  case (1 sub)
  then show ?case by (simp split: if_splits)
next
  case (2 c s sub)
  show ?case
  proof (cases "has_prefix (c # s) sub")
    case True
    with 2(2) have "i = 0" by simp
    moreover from True have "length sub \<le> length (c # s)"
      unfolding has_prefix_iff by (metis le_add1 length_append)
    ultimately show ?thesis by simp
  next
    case False
    with 2 show ?thesis by fastforce
  qed
qed

text \<open>\<^verbatim>\<open>strings.Split(s, sep)\<close> for a separator that is not empty.\<close>

function split_str :: "string \<Rightarrow> string \<Rightarrow> string list" where
  "split_str sep s = (if sep = [] then [s]
     else case index_str s sep of None \<Rightarrow> [s]
     | Some i \<Rightarrow> take i s # split_str sep (drop (i + length sep) s))"
  by pat_completeness auto

termination
  by (relation "measure (\<lambda>(sep, s). length s)")
    (auto dest!: index_str_bound simp flip: length_greater_0_conv)

declare split_str.simps [simp del]

definition normalize_host :: "string \<Rightarrow> string" where
  "normalize_host v = (let host = trim_suffix (to_lower (trim_space v)) ''.'' in
     case split_host_port host of Some (h, _) \<Rightarrow> trim_suffix h ''.'' | None \<Rightarrow> host)"

fun host_header :: "string list \<Rightarrow> string" where
  "host_header [] = []"
| "host_header (l # ls) = (case index_char l (CHR '':'') of None \<Rightarrow> host_header ls
     | Some i \<Rightarrow> if equal_fold (trim_space (take i l)) ''host'' then normalize_host (drop (i + 1) l)
         else host_header ls)"

definition sniff_http_host :: "bytes \<Rightarrow> string" where
  "sniff_http_host d = (let txt = string_of_bytes d in
     case index_str txt (crlf @ crlf) of None \<Rightarrow> []
     | Some e \<Rightarrow> (case split_str crlf (take e txt) of [] \<Rightarrow> []
         | l # ls \<Rightarrow> if \<not> contains_str l '' HTTP/'' then [] else host_header ls))"

text \<open>The loop of \<^verbatim>\<open>parseSNIExtension\<close> over the server name list.\<close>

function server_names :: "bytes \<Rightarrow> string go" where
  "server_names l =
     (if length l < 3 then Ret []
      else let n = be16 (take 2 (drop 1 l)) in
        if length l < 3 + n then Ret []
        else if l ! 0 = 0 then go_bind (go_slice l 3 (3 + n)) (\<lambda>s. Ret (normalize_host (string_of_bytes s)))
        else server_names (drop (3 + n) l))"
  by pat_completeness auto
termination by (relation "measure length") auto

declare server_names.simps [simp del]

definition parse_sni_extension :: "bytes \<Rightarrow> string go" where
  "parse_sni_extension d =
     (if length d < 2 then Ret []
      else go_bind (go_slice d 0 2) (\<lambda>l.
        if length d - 2 < be16 l then Ret []
        else go_bind (go_slice d 2 (2 + be16 l)) server_names))"

function tls_extensions :: "bytes \<Rightarrow> string go" where
  "tls_extensions e =
     (if length e < 4 then Ret []
      else let n = be16 (take 2 (drop 2 e)) in
        if length e < 4 + n then Ret []
        else if be16 (take 2 e) = 0 then
          (case go_slice e 4 (4 + n) of Panic \<Rightarrow> Panic | Ret d \<Rightarrow> parse_sni_extension d)
        else tls_extensions (drop (4 + n) e))"
  by pat_completeness auto
termination by (relation "measure length") auto

declare tls_extensions.simps [simp del]

definition sniff_tls_body :: "bytes \<Rightarrow> string go" where
  "sniff_tls_body body =
     (if length body < 35 then Ret []
      else go_bind (go_index body 34) (\<lambda>sl.
      let off = 35 + unat sl in
      if length body < off + 2 then Ret []
      else go_bind (go_slice body off (off + 2)) (\<lambda>cl.
      let off = off + 2 + be16 cl in
      if length body < off + 1 then Ret []
      else go_bind (go_index body off) (\<lambda>ml.
      let off = off + 1 + unat ml in
      if length body < off + 2 then Ret []
      else go_bind (go_slice body off (off + 2)) (\<lambda>el.
      let off = off + 2 in
      if length body < off + be16 el then Ret []
      else go_bind (go_slice body off (off + be16 el)) tls_extensions)))))"

definition sniff_tls_sni :: "bytes \<Rightarrow> string go" where
  "sniff_tls_sni d =
     (if length d < 9 \<or> d ! 0 \<noteq> 0x16 then Ret []
      else go_bind (go_slice d 3 5) (\<lambda>rl.
      if be16 rl = 0 \<or> length d < 5 + be16 rl then Ret []
      else go_bind (go_slice d 5 (5 + be16 rl)) (\<lambda>hs.
      if length hs < 42 \<or> hs ! 0 \<noteq> 1 then Ret []
      else let n = 65536 * unat (hs ! 1) + 256 * unat (hs ! 2) + unat (hs ! 3) in
        if n = 0 \<or> length hs < 4 + n then Ret []
        else go_bind (go_slice hs 4 (4 + n)) sniff_tls_body)))"

definition sniff_tcp_host :: "bytes \<Rightarrow> (string \<times> string) go" where
  "sniff_tcp_host d = (let h = sniff_http_host d in
     if h \<noteq> [] then Ret (h, ''http_host'')
     else go_bind (sniff_tls_sni d) (\<lambda>s. Ret (if s \<noteq> [] then (s, ''tls_sni'') else ([], []))))"

section \<open>The exit of a connection\<close>

datatype route_error =
    UnknownExit string | UnknownFallback string | RuleExitNoTCP string | FallbackExitNoTCP string
  | NoInitialData | NoHost | UnsupportedExitType string

definition no_tcp :: "exit_config \<Rightarrow> bool" where
  "no_tcp e \<longleftrightarrow> ex_type e = ''shadowsocks-rust'' \<and> \<not> tcp_enabled e"

definition select_tcp_exit :: "regexp_pkg \<Rightarrow> config \<Rightarrow> compiled option \<Rightarrow> string
    \<Rightarrow> route_error + exit_config \<times> bool" where
  "select_tcp_exit re c cp host = (case compiled_match re cp host of
     Some r \<Rightarrow> (case exit_by_name c (rl_exit r) of None \<Rightarrow> Inl (UnknownExit (rl_exit r))
       | Some e \<Rightarrow> if no_tcp e then Inl (RuleExitNoTCP (ex_name e)) else Inr (e, True))
   | None \<Rightarrow> (case exit_by_name c (ro_fallback_exit (cf_routing c)) of
         None \<Rightarrow> Inl (UnknownFallback (ro_fallback_exit (cf_routing c)))
       | Some e \<Rightarrow> if no_tcp e then Inl (FallbackExitNoTCP (ex_name e)) else Inr (e, False)))"

text \<open>\<^verbatim>\<open>listenTCPGatewayCompiled\<close> up to the listener: the fallback exit of the gateway.\<close>

definition tcp_gateway_exit :: "config \<Rightarrow> route_error + exit_config" where
  "tcp_gateway_exit c = (case exit_by_name c (ro_fallback_exit (cf_routing c)) of
     None \<Rightarrow> Inl (UnknownFallback (ro_fallback_exit (cf_routing c)))
   | Some e \<Rightarrow> if no_tcp e then Inl (FallbackExitNoTCP (ro_fallback_exit (cf_routing c))) else Inr e)"

text \<open>\<^verbatim>\<open>isGatewayIP\<close>: \<^verbatim>\<open>IP.Equal\<close> does not tell an IPv4 address from its 16-byte form.\<close>

definition canonical_ip :: "bytes \<Rightarrow> bytes" where
  "canonical_ip a = (case ip_to4 a of Some q \<Rightarrow> q | None \<Rightarrow> a)"

definition is_gateway_ip :: "bytes \<Rightarrow> string \<Rightarrow> bool" where
  "is_gateway_ip ip gw = (case parse_ip gw of None \<Rightarrow> False | Some g \<Rightarrow> canonical_ip ip = canonical_ip g)"

record tcp_plan =
  tp_host :: string
  tp_port :: int
  tp_exit :: exit_config
  tp_initial :: bytes

text \<open>
  \<^verbatim>\<open>handle\<close> up to the dial: \<open>first\<close> is what the first read returned, \<open>None\<close> for an error or no data;
  at most \<^verbatim>\<open>tcpSniffBytes\<close> bytes are read.
\<close>

definition tcp_sniff_bytes :: nat where
  "tcp_sniff_bytes = 4096"

definition tcp_handle :: "regexp_pkg \<Rightarrow> config \<Rightarrow> compiled option \<Rightarrow> exit_config \<Rightarrow> bytes \<Rightarrow> int \<Rightarrow> bytes option
    \<Rightarrow> (route_error + tcp_plan) go" where
  "tcp_handle re c cp fallback ip port first =
     (if is_gateway_ip ip (nw_gateway_ip (cf_network c)) then
        (case first of None \<Rightarrow> Ret (Inl NoInitialData)
         | Some bs \<Rightarrow> let initial = take tcp_sniff_bytes bs in
           if initial = [] then Ret (Inl NoInitialData)
           else go_bind (sniff_tcp_host initial) (\<lambda>(host, src).
             if host = [] then Ret (Inl NoHost)
             else case select_tcp_exit re c cp host of Inl e \<Rightarrow> Ret (Inl e)
               | Inr (e, _) \<Rightarrow> Ret (Inr \<lparr>tp_host = host, tp_port = port, tp_exit = e, tp_initial = initial\<rparr>)))
      else Ret (Inr \<lparr>tp_host = ip_str ip, tp_port = port, tp_exit = fallback, tp_initial = []\<rparr>))"

text \<open>\<^verbatim>\<open>dialTCPBackend\<close>: what is dialled and how.\<close>

datatype dial = DialDirect string int | DialSocks string string int

definition dial_tcp_backend :: "string \<Rightarrow> int \<Rightarrow> exit_config \<Rightarrow> route_error + dial" where
  "dial_tcp_backend host port e =
     (if ex_type e = ''direct'' then Inr (DialDirect (join_host_port host (int_str port)) (ex_fwmark e))
      else if ex_type e = ''shadowsocks-rust'' then
        Inr (DialSocks (join_host_port (ex_listen_address e) (int_str (ex_listen_port e))) host port)
      else Inl (UnsupportedExitType (ex_type e)))"

section \<open>Writing the first bytes\<close>

text \<open>
  \<^verbatim>\<open>writeInitial\<close> against the answers of the backend, each the count and whether there was an error.
  \<open>None\<close> is a backend that stops answering; the flag of the result is success. The chunks that were
  accepted are the last component.
\<close>

fun write_initial :: "bytes \<Rightarrow> (nat \<times> bool) list \<Rightarrow> (nat \<times> bool \<times> bytes) option" where
  "write_initial bs [] = (if bs = [] then Some (0, True, []) else None)"
| "write_initial bs ((n, err) # rs) =
     (if bs = [] then Some (0, True, [])
      else if err then Some (n, False, take n bs)
      else if n = 0 then Some (0, False, [])
      else map_option (\<lambda>(w, ok, out). (n + w, ok, take n bs @ out)) (write_initial (drop n bs) rs))"

text \<open>\<^verbatim>\<open>relayTCP\<close>: the totals of the two copies, in whatever order they end.\<close>

definition relay_totals :: "(string \<times> int) \<Rightarrow> (string \<times> int) \<Rightarrow> int \<times> int" where
  "relay_totals r1 r2 = fold (\<lambda>(name, n) (up, down). if name = ''up'' then (n, down) else (up, n)) [r1, r2] (0, 0)"

end
