(* ===== verification/Gateway.thy ===== *)
theory Gateway
  imports Tcp_Proxy
begin

text \<open>
  \<^verbatim>\<open>internal/quic/gateway.go\<close>: how a first QUIC packet is routed, and the table of sessions that the
  reader, the goroutines of new sessions, the relays and the idle collector share.

  Sockets are numbered: session \<open>i\<close> of \<open>gw_sessions\<close> stands for the \<^verbatim>\<open>*session\<close> pointer, its client
  key and its backend connection. A step is one critical section of the code (everything between
  a \<^verbatim>\<open>Lock\<close> and its \<^verbatim>\<open>Unlock\<close>, with the closing of the connection that was taken out), so the steps
  of different goroutines interleave freely.
\<close>

section \<open>Routing the first packet\<close>

definition select_exit_compiled :: "regexp_pkg \<Rightarrow> config \<Rightarrow> compiled option \<Rightarrow> string
    \<Rightarrow> route_error + exit_config \<times> bool" where
  "select_exit_compiled re c cp sni = (case compiled_match re cp sni of
     Some r \<Rightarrow> (case exit_by_name c (rl_exit r) of None \<Rightarrow> Inl (UnknownExit (rl_exit r)) | Some e \<Rightarrow> Inr (e, True))
   | None \<Rightarrow> (case exit_by_name c (ro_fallback_exit (cf_routing c)) of
         None \<Rightarrow> Inl (UnknownFallback (ro_fallback_exit (cf_routing c))) | Some e \<Rightarrow> Inr (e, False)))"

datatype quic_reject = NoServerName | RouteRejected route_error | ExitNoUDP string | BackendFailed

text \<open>
  \<^verbatim>\<open>resolveDirectUDP\<close> with the answer of \<^verbatim>\<open>net.LookupIP\<close>: the first IPv4 address; \<^verbatim>\<open>connectBackend\<close>.
\<close>

datatype udp_dial = UdpDirect bytes int int | UdpSocks string string int

definition resolve_direct_udp :: "bytes list option \<Rightarrow> int \<Rightarrow> int \<Rightarrow> udp_dial option" where
  "resolve_direct_udp ips port fwmark = Option.bind ips (\<lambda>as.
     case find (\<lambda>a. ip_to4 a \<noteq> None) as of None \<Rightarrow> None
     | Some a \<Rightarrow> map_option (\<lambda>q. UdpDirect q port fwmark) (ip_to4 a))"

definition connect_backend :: "(string \<Rightarrow> bytes list option) \<Rightarrow> string \<Rightarrow> int \<Rightarrow> exit_config \<Rightarrow> udp_dial option" where
  "connect_backend lookup host port e =
     (if ex_type e = ''direct'' then resolve_direct_udp (lookup host) port (ex_fwmark e)
      else if ex_type e = ''shadowsocks-rust'' then
        Some (UdpSocks (join_host_port (ex_listen_address e) (int_str (ex_listen_port e))) host port)
      else None)"

definition quic_route :: "crypto \<Rightarrow> regexp_pkg \<Rightarrow> (string \<Rightarrow> bytes list option) \<Rightarrow> config \<Rightarrow> compiled option \<Rightarrow> bytes
    \<Rightarrow> (quic_reject + udp_dial) go" where
  "quic_route cr re lookup c cp d = go_bind (extract_sni cr d) (\<lambda>o'. Ret (case o' of
       None \<Rightarrow> Inl NoServerName
     | Some sni \<Rightarrow>
       if sni = [] then Inl NoServerName
       else case select_exit_compiled re c cp sni of Inl e \<Rightarrow> Inl (RouteRejected e)
       | Inr (e, _) \<Rightarrow>
         if ex_type e = ''shadowsocks-rust'' \<and> \<not> udp_enabled e then Inl (ExitNoUDP (ex_name e))
         else case connect_backend lookup sni 443 e of None \<Rightarrow> Inl BackendFailed | Some b \<Rightarrow> Inr b))"

section \<open>The session table\<close>

datatype phase = Starting | Relaying | Finished

record session =
  se_key :: string
  se_open :: bool
  se_phase :: phase
  se_last :: int

record gw =
  gw_table :: "string \<Rightarrow> nat option"
  gw_sessions :: "session list"
  gw_stale :: "string list"

definition gw_init :: gw where
  "gw_init = \<lparr>gw_table = (\<lambda>_. None), gw_sessions = [], gw_stale = []\<rparr>"

definition update_session :: "nat \<Rightarrow> (session \<Rightarrow> session) \<Rightarrow> gw \<Rightarrow> gw" where
  "update_session i f g = g\<lparr>gw_sessions := (gw_sessions g)[i := f (gw_sessions g ! i)]\<rparr>"

text \<open>\<^verbatim>\<open>remove\<close>: whatever session the key has now is taken out and its backend closed.\<close>

definition gw_remove :: "string \<Rightarrow> gw \<Rightarrow> gw" where
  "gw_remove key g = (case gw_table g key of None \<Rightarrow> g
     | Some i \<Rightarrow> update_session i (\<lambda>s. s\<lparr>se_open := False\<rparr>) (g\<lparr>gw_table := (gw_table g)(key := None)\<rparr>))"

text \<open>\<^verbatim>\<open>forwardExisting\<close>: the session the packet is written to, with its activity time renewed.\<close>

definition gw_forward :: "string \<Rightarrow> int \<Rightarrow> gw \<Rightarrow> nat option \<times> gw" where
  "gw_forward key now g = (case gw_table g key of None \<Rightarrow> (None, g)
     | Some i \<Rightarrow> (Some i, update_session i (\<lambda>s. s\<lparr>se_last := now\<rparr>) g))"

text \<open>
  The critical section of \<^verbatim>\<open>newSession\<close>, after its backend was connected: the new session enters
  the table, or its backend is closed because the key is taken.
\<close>

definition gw_insert :: "string \<Rightarrow> int \<Rightarrow> gw \<Rightarrow> gw" where
  "gw_insert key now g = (case gw_table g key of
     Some _ \<Rightarrow> g\<lparr>gw_sessions := gw_sessions g @
       [\<lparr>se_key = key, se_open = False, se_phase = Finished, se_last = now\<rparr>]\<rparr>
   | None \<Rightarrow> g\<lparr>gw_table := (gw_table g)(key := Some (length (gw_sessions g))),
       gw_sessions := gw_sessions g @ [\<lparr>se_key = key, se_open = True, se_phase = Starting, se_last = now\<rparr>]\<rparr>)"

text \<open>The first write of \<^verbatim>\<open>newSession\<close>, and the end of \<^verbatim>\<open>relay\<close> on a read or write error.\<close>

definition gw_first_write :: "nat \<Rightarrow> bool \<Rightarrow> gw \<Rightarrow> gw" where
  "gw_first_write i ok g =
     (if ok then update_session i (\<lambda>s. s\<lparr>se_phase := Relaying\<rparr>) g
      else gw_remove (se_key (gw_sessions g ! i)) (update_session i (\<lambda>s. s\<lparr>se_phase := Finished\<rparr>) g))"

definition gw_relay_end :: "nat \<Rightarrow> gw \<Rightarrow> gw" where
  "gw_relay_end i g =
     gw_remove (se_key (gw_sessions g ! i)) (update_session i (\<lambda>s. s\<lparr>se_phase := Finished\<rparr>) g)"

text \<open>
  The two halves of \<^verbatim>\<open>gcOnce\<close>: under the read lock the keys of idle sessions are collected (\<open>keys\<close>
  lists the table in some order), then each is removed in a critical section of its own.
\<close>

definition gw_collect :: "int \<Rightarrow> int \<Rightarrow> string list \<Rightarrow> gw \<Rightarrow> gw" where
  "gw_collect max_idle now keys g = g\<lparr>gw_stale := gw_stale g @ filter (\<lambda>k. case gw_table g k of None \<Rightarrow> False
     | Some i \<Rightarrow> max_idle < now - se_last (gw_sessions g ! i)) keys\<rparr>"

definition gw_collect_one :: "gw \<Rightarrow> gw" where
  "gw_collect_one g = (case gw_stale g of [] \<Rightarrow> g | k # ks \<Rightarrow> gw_remove k (g\<lparr>gw_stale := ks\<rparr>))"

definition gw_relay_read :: "nat \<Rightarrow> int \<Rightarrow> gw \<Rightarrow> gw" where
  "gw_relay_read i now g = update_session i (\<lambda>s. s\<lparr>se_last := now\<rparr>) g"

text \<open>\<^verbatim>\<open>close\<close>: every session of the table is closed and the table emptied.\<close>

definition gw_close :: "gw \<Rightarrow> gw" where
  "gw_close g = g\<lparr>gw_table := (\<lambda>_. None),
     gw_sessions := map (\<lambda>(i, s). if gw_table g (se_key s) = Some i then s\<lparr>se_open := False\<rparr> else s)
       (zip [0..<length (gw_sessions g)] (gw_sessions g))\<rparr>"

datatype gw_event = Insert string int | Forward string int | FirstWrite nat bool | RelayRead nat int
  | RelayEnd nat | Collect int "string list" | CollectOne | Close

definition idle_limit :: int where
  "idle_limit = 300"

inductive gw_step :: "gw \<Rightarrow> gw_event \<Rightarrow> gw \<Rightarrow> bool" where
  insert: "gw_step g (Insert k now) (gw_insert k now g)"
| forward: "gw_step g (Forward k now) (snd (gw_forward k now g))"
| first_write: "i < length (gw_sessions g) \<Longrightarrow> se_phase (gw_sessions g ! i) = Starting \<Longrightarrow>
    gw_step g (FirstWrite i ok) (gw_first_write i ok g)"
| relay_read: "i < length (gw_sessions g) \<Longrightarrow> se_phase (gw_sessions g ! i) = Relaying \<Longrightarrow>
    se_open (gw_sessions g ! i) \<Longrightarrow> gw_step g (RelayRead i now) (gw_relay_read i now g)"
| relay_end: "i < length (gw_sessions g) \<Longrightarrow> se_phase (gw_sessions g ! i) = Relaying \<Longrightarrow>
    gw_step g (RelayEnd i) (gw_relay_end i g)"
| collect: "gw_step g (Collect now keys) (gw_collect idle_limit now keys g)"
| collect_one: "gw_step g CollectOne (gw_collect_one g)"
| close: "gw_step g Close (gw_close g)"

inductive gw_run :: "gw \<Rightarrow> gw_event list \<Rightarrow> gw \<Rightarrow> bool" where
  done_: "gw_run g [] g"
| step: "gw_step g e g1 \<Longrightarrow> gw_run g1 es g2 \<Longrightarrow> gw_run g (e # es) g2"

inductive_cases gw_runE: "gw_run g es g'"

section \<open>No backend is leaked\<close>

text \<open>
  The invariant: a key points to an open session of that key, and an open session is the one its
  key points to. So a backend that is open can still be found and closed.
\<close>

definition gw_inv :: "gw \<Rightarrow> bool" where
  "gw_inv g \<longleftrightarrow>
     (\<forall>k i. gw_table g k = Some i \<longrightarrow> i < length (gw_sessions g) \<and> se_key (gw_sessions g ! i) = k \<and>
        se_open (gw_sessions g ! i)) \<and>
     (\<forall>i < length (gw_sessions g). se_open (gw_sessions g ! i) \<longrightarrow>
        gw_table g (se_key (gw_sessions g ! i)) = Some i)"

lemma gw_inv_init: "gw_inv gw_init"
  by (simp add: gw_inv_def gw_init_def)

text \<open>Steps that keep the keys, the open flags and the table keep the invariant.\<close>

lemma gw_inv_update:
  assumes "gw_inv g" and "\<And>s. se_key (f s) = se_key s \<and> se_open (f s) = se_open s"
  shows "gw_inv (update_session i f g)"
proof (cases "i < length (gw_sessions g)")
  case True
  then show ?thesis
    using assms by (auto simp: gw_inv_def update_session_def nth_list_update)
next
  case False
  then have "(gw_sessions g)[i := f (gw_sessions g ! i)] = gw_sessions g"
    by (intro list_update_beyond) simp
  with assms(1) show ?thesis by (simp add: update_session_def)
qed

lemma gw_invD:
  assumes "gw_inv g"
  shows "gw_table g k = Some i \<Longrightarrow>
      i < length (gw_sessions g) \<and> se_key (gw_sessions g ! i) = k \<and> se_open (gw_sessions g ! i)"
    and "j < length (gw_sessions g) \<Longrightarrow> se_open (gw_sessions g ! j) \<Longrightarrow>
      gw_table g (se_key (gw_sessions g ! j)) = Some j"
  using assms by (simp_all add: gw_inv_def)

lemma gw_inv_remove:
  assumes "gw_inv g"
  shows "gw_inv (gw_remove k g)"
proof (cases "gw_table g k")
  case None
  with assms show ?thesis by (simp add: gw_remove_def)
next
  case (Some i)
  have other: "j \<noteq> i" if "gw_table g k' = Some j" "k' \<noteq> k" for k' j
    using that gw_invD(1) [OF assms Some] gw_invD(1) [OF assms that(1)] by auto
  have self: "se_key (gw_sessions g ! j) \<noteq> k" if "j < length (gw_sessions g)" "se_open (gw_sessions g ! j)" "j \<noteq> i" for j
    using gw_invD(2) [OF assms that(1,2)] Some that(3) by auto
  define ss where "ss = (gw_sessions g)[i := (gw_sessions g ! i)\<lparr>se_open := False\<rparr>]"
  have nth: "ss ! j = (if j = i then (gw_sessions g ! i)\<lparr>se_open := False\<rparr> else gw_sessions g ! j)"
    if "j < length (gw_sessions g)" for j
    using that by (simp add: ss_def nth_list_update)
  have removed: "gw_remove k g = g\<lparr>gw_table := (gw_table g)(k := None), gw_sessions := ss\<rparr>"
    using Some by (simp add: gw_remove_def update_session_def ss_def)
  have len: "length ss = length (gw_sessions g)" by (simp add: ss_def)
  have A: "j < length (gw_sessions g) \<and> se_key (ss ! j) = k' \<and> se_open (ss ! j)"
    if "((gw_table g)(k := None)) k' = Some j" for k' j
  proof -
    from that have t: "gw_table g k' = Some j" "k' \<noteq> k" by (auto split: if_splits)
    then show ?thesis using gw_invD(1) [OF assms t(1)] other [OF t] by (simp add: nth)
  qed
  have B: "((gw_table g)(k := None)) (se_key (ss ! j)) = Some j"
    if "j < length (gw_sessions g)" "se_open (ss ! j)" for j
  proof -
    from that have "j \<noteq> i" "se_open (gw_sessions g ! j)" "ss ! j = gw_sessions g ! j"
      by (auto simp: nth split: if_splits)
    then show ?thesis using self gw_invD(2) [OF assms] that(1) by simp
  qed
  show ?thesis
    unfolding removed gw_inv_def using A B by (simp add: len)
qed

lemma gw_inv_insert: "gw_inv g \<Longrightarrow> gw_inv (gw_insert k now g)"
  by (fastforce simp: gw_inv_def gw_insert_def nth_append less_Suc_eq split: option.splits)

lemma gw_inv_close: "gw_inv g \<Longrightarrow> gw_inv (gw_close g)"
  by (auto simp: gw_inv_def gw_close_def)

lemma gw_inv_stale: "gw_inv (g\<lparr>gw_stale := ks\<rparr>) = gw_inv g"
  by (simp add: gw_inv_def)

lemma gw_inv_step: "gw_step g e g' \<Longrightarrow> gw_inv g \<Longrightarrow> gw_inv g'"
proof (induction rule: gw_step.induct)
  case (insert g k now)
  then show ?case by (rule gw_inv_insert)
next
  case (forward g k now)
  then show ?case by (auto simp: gw_forward_def intro: gw_inv_update split: option.splits)
next
  case (first_write i g ok)
  then show ?case by (auto simp: gw_first_write_def intro!: gw_inv_remove gw_inv_update)
next
  case (relay_read i g now)
  then show ?case by (auto simp: gw_relay_read_def intro: gw_inv_update)
next
  case (relay_end i g)
  then show ?case by (auto simp: gw_relay_end_def intro!: gw_inv_remove gw_inv_update)
next
  case (collect g now keys)
  then show ?case by (simp add: gw_collect_def gw_inv_stale)
next
  case (collect_one g)
  then show ?case by (auto simp: gw_collect_one_def gw_inv_stale intro!: gw_inv_remove split: list.splits)
next
  case (close g)
  then show ?case by (rule gw_inv_close)
qed

lemma gw_inv_run: "gw_run g es g' \<Longrightarrow> gw_inv g \<Longrightarrow> gw_inv g'"
  by (induction rule: gw_run.induct) (auto dest: gw_inv_step)


text \<open>The history of a client that comes back after its idle session was collected.\<close>

definition aba_before :: gw where
  "aba_before = gw_first_write 1 True (gw_insert ''c'' 1000 (gw_collect_one
     (gw_collect idle_limit 999 [''c''] (gw_first_write 0 True (gw_insert ''c'' 0 gw_init)))))"

lemma aba_run: "\<exists>es. gw_run gw_init es aba_before"
proof -
  let ?g1 = "gw_insert ''c'' 0 gw_init"
  let ?g2 = "gw_first_write 0 True ?g1"
  let ?g3 = "gw_collect idle_limit 999 [''c''] ?g2"
  let ?g5 = "gw_insert ''c'' 1000 (gw_collect_one ?g3)"
  have "gw_step ?g5 (FirstWrite 1 True) aba_before"
    unfolding aba_before_def by (rule gw_step.first_write) code_simp+
  from gw_run.step [OF this gw_run.done_]
  have "gw_run ?g5 [FirstWrite 1 True] aba_before" .
  from gw_run.step [OF gw_step.insert this]
  have "gw_run (gw_collect_one ?g3) [Insert ''c'' 1000, FirstWrite 1 True] aba_before" .
  from gw_run.step [OF gw_step.collect [of ?g2 999 "[''c'']"] gw_run.step [OF gw_step.collect_one this]]
  have tail: "gw_run ?g2 [Collect 999 [''c''], CollectOne, Insert ''c'' 1000, FirstWrite 1 True] aba_before" .
  have "gw_step ?g1 (FirstWrite 0 True) ?g2"
    by (rule gw_step.first_write) code_simp+
  from gw_run.step [OF gw_step.insert gw_run.step [OF this tail]]
  show ?thesis by blast
qed


text \<open>
  A relay that ends can close its successor: there is a reachable state in which the
  relay of a collected session ends, and that step closes the open, relaying session that the same
  client has opened since, because the entry is removed by key and not by session.
\<close>

theorem stale_relay_closes_successor:
  "\<exists>es g. gw_run gw_init es g \<and> gw_step g (RelayEnd 0) (gw_relay_end 0 g) \<and>
     \<not> se_open (gw_sessions g ! 0) \<and> se_open (gw_sessions g ! 1) \<and> se_phase (gw_sessions g ! 1) = Relaying \<and>
     \<not> se_open (gw_sessions (gw_relay_end 0 g) ! 1) \<and> gw_table (gw_relay_end 0 g) ''c'' = None"
proof -
  obtain es where run: "gw_run gw_init es aba_before" using aba_run by blast
  have "gw_step aba_before (RelayEnd 0) (gw_relay_end 0 aba_before)"
    by (rule gw_step.relay_end) code_simp+
  moreover have "\<not> se_open (gw_sessions aba_before ! 0) \<and> se_open (gw_sessions aba_before ! 1) \<and>
     se_phase (gw_sessions aba_before ! 1) = Relaying \<and>
     \<not> se_open (gw_sessions (gw_relay_end 0 aba_before) ! 1) \<and> gw_table (gw_relay_end 0 aba_before) ''c'' = None"
    by code_simp
  ultimately show ?thesis using run by blast
qed

end
