(* ===== verification/Routing.thy ===== *)
theory Routing
  imports Gateway Render_Props
begin

text \<open>
  The properties of the TCP side of the gateway: sniffing never panics, a validated configuration
  and a rendered rule set route every host, and the first bytes reach the backend whole.
\<close>

section \<open>Sniffing does not panic\<close>

lemma server_names_total: "\<exists>s. server_names l = Ret s"
proof (induction l rule: server_names.induct)
  case (1 l)
  then show ?case by (subst server_names.simps) (auto simp: Let_def)
qed

lemma parse_sni_extension_total: "\<exists>s. parse_sni_extension d = Ret s"
  using server_names_total by (auto simp: parse_sni_extension_def)

lemma tls_extensions_total: "\<exists>s. tls_extensions e = Ret s"
proof (induction e rule: tls_extensions.induct)
  case (1 e)
  then show ?case
    using parse_sni_extension_total by (subst tls_extensions.simps) (auto simp: Let_def)
qed

lemma sniff_tls_body_total: "\<exists>s. sniff_tls_body b = Ret s"
  using tls_extensions_total by (auto simp: sniff_tls_body_def Let_def)

lemma sniff_tls_sni_total: "\<exists>s. sniff_tls_sni d = Ret s"
  using sniff_tls_body_total by (auto simp: sniff_tls_sni_def Let_def)

lemma sniff_tcp_host_total: "\<exists>r. sniff_tcp_host d = Ret r"
  using sniff_tls_sni_total [of d] by (auto simp: sniff_tcp_host_def Let_def)

section \<open>Properties\<close>

text \<open>
  No input of a TCP client makes the TCP gateway panic: for any original destination and
  any first bytes, the handler reaches a rejection or a connection plan.
\<close>

theorem tcp_handle_total: "\<exists>r. tcp_handle re c cp fallback ip port first = Ret r"
proof (cases first)
  case None
  then show ?thesis by (simp add: tcp_handle_def)
next
  case (Some bs)
  obtain h src where "sniff_tcp_host (take tcp_sniff_bytes bs) = Ret (h, src)"
    using sniff_tcp_host_total [of "take tcp_sniff_bytes bs"] by auto
  with Some show ?thesis
    by (cases "select_tcp_exit re c cp h") (simp_all add: tcp_handle_def Let_def split: prod.splits)
qed

lemma tcp_capable_select:
  "tcp_capable c n \<Longrightarrow> \<exists>e. exit_by_name c n = Some e \<and> \<not> no_tcp e"
  by (auto simp: tcp_capable_def no_tcp_def)

text \<open>
  Claim C13. Routing is total and follows the rules: with a validated configuration and a rule set
  that the renderer accepts and the compiler compiled, every host gets an exit that carries TCP,
  the exit of the first gateway rule that matches it or else the fallback exit.
\<close>

theorem select_tcp_exit_routes:
  assumes "validate up c = None" and "render_validate_exits c n = None" and "compile re n = Inr cp"
  shows "\<exists>e m. select_tcp_exit re c (Some cp) host = Inr (e, m) \<and> \<not> no_tcp e \<and> e \<in> set (cf_exits c) \<and>
    ex_name e = (case find (rule_covers re (normalize_match_host host)) (gateway_rules n) of
      Some r \<Rightarrow> rl_exit r | None \<Rightarrow> ro_fallback_exit (cf_routing c))"
proof -
  have fb: "tcp_capable c (ro_fallback_exit (cf_routing c))"
    and ru: "\<And>r. r \<in> set (gateway_rules n) \<Longrightarrow> tcp_capable c (rl_exit r)"
    using assms(2) by (auto simp: render_validate_exits_def validate_tcp_exit_None)
  have named: "exit_by_name c x = Some e \<Longrightarrow> e \<in> set (cf_exits c) \<and> ex_name e = x" for x e
    unfolding exit_by_name_def by (rule find_exit_SomeD)
  show ?thesis
  proof (cases "find (rule_covers re (normalize_match_host host)) (gateway_rules n)")
    case None
    with tcp_capable_select [OF fb] named show ?thesis
      by (auto simp: select_tcp_exit_def compiled_match_first [OF assms(3)])
  next
    case (Some r)
    then have "r \<in> set (gateway_rules n)" using find_SomeD by metis
    with Some tcp_capable_select [OF ru] named show ?thesis
      by (fastforce simp: select_tcp_exit_def compiled_match_first [OF assms(3)])
  qed
qed

theorem select_tcp_exit_routes_witness:
  "\<exists>e. select_tcp_exit sample_re sample_two (Some empty_compiled) ''a.example'' = Inr (e, False) \<and>
     ex_name e = ''direct''"
proof -
  let ?n = "\<lparr>n_rules = [], n_warnings = []\<rparr>"
  have "render_validate_exits sample_two ?n = None" by code_simp
  moreover have "compile sample_re ?n = Inr empty_compiled"
    by (simp add: compile_def)
  ultimately obtain e m where e: "select_tcp_exit sample_re sample_two (Some empty_compiled) ''a.example'' = Inr (e, m)"
    "ex_name e = ro_fallback_exit (cf_routing sample_two)"
    using select_tcp_exit_routes [OF sample_two_valid, of ?n sample_re empty_compiled "''a.example''"]
    by (auto simp: gateway_rules_def)
  have "ro_fallback_exit (cf_routing sample_two) = ''direct''" by code_simp
  moreover have "compiled_match sample_re (Some empty_compiled) ''a.example'' = None" by code_simp
  with e(1) have "m = False" by (auto simp: select_tcp_exit_def split: option.splits if_splits)
  ultimately show ?thesis using e by simp
qed

text \<open>
  The first bytes of a connection are forwarded in order and, on success, whole, however
  many partial writes the backend makes; the count returned is their number whenever the backend
  keeps the contract of \<^verbatim>\<open>io.Writer\<close> not to report more than it was given.
\<close>

theorem write_initial_correct:
  assumes "write_initial bs rs = Some (w, ok, out)"
  shows "(\<exists>rest. bs = out @ rest) \<and> (ok \<longrightarrow> out = bs) \<and> (w \<le> length bs \<longrightarrow> w = length out)"
  using assms
proof (induction bs rs arbitrary: w ok out rule: write_initial.induct)
  case (1 bs)
  then show ?case by (auto split: if_splits)
next
  case (2 bs n err rs)
  consider "bs = []" | "bs \<noteq> []" "err" | "bs \<noteq> []" "\<not> err" "n = 0" | "bs \<noteq> []" "\<not> err" "n \<noteq> 0" by blast
  then show ?case
  proof cases
    case 4
    with 2(2) obtain w' out' where r: "write_initial (drop n bs) rs = Some (w', ok, out')"
      "w = n + w'" "out = take n bs @ out'"
      by auto
    from 2(1) [OF 4(1,2,3) r(1)] obtain rest where
      "drop n bs = out' @ rest" and IH: "ok \<longrightarrow> out' = drop n bs" "w' \<le> length (drop n bs) \<longrightarrow> w' = length out'"
      by blast
    then have "bs = take n bs @ out' @ rest" by (metis append_take_drop_id)
    with IH r show ?thesis by (auto simp: min_def)
  qed (use 2(2) in \<open>auto simp: min_def intro: exI [of _ "drop n bs"]\<close>)
qed

theorem write_initial_correct_witness:
  "write_initial [1, 2, 3] [(2, False), (1, False)] = Some (3, True, [1, 2, 3]) \<and> 3 = length [1, 2, 3 :: byte]"
proof -
  have run: "write_initial [1, 2, 3] [(2, False), (1, False)] = Some (3, True, [1, 2, 3])" by simp
  from run write_initial_correct [OF run] show ?thesis by simp
qed

end
