(* ===== verification/Log_Buffer.thy ===== *)
theory Log_Buffer
  imports Go_Prelude
begin

text \<open>
  \<^verbatim>\<open>internal/engine/logs.go\<close>: the ring buffer that keeps the last bytes of the logs, its snapshots
  by lines and its subscribers. Every operation runs under the buffer's mutex and is one function
  on its state; a subscriber's channel of capacity one is an option.
\<close>

record log_buffer =
  lb_data :: bytes
  lb_limit :: nat
  lb_start :: nat
  lb_size :: nat
  lb_sequence :: "64 word"
  lb_next_sub :: "64 word"
  lb_subs :: "64 word \<Rightarrow> 64 word option option"

definition new_log_buffer :: "int \<Rightarrow> log_buffer" where
  "new_log_buffer limit = (let l = (if limit \<le> 0 then 2 ^ 20 else nat limit) in
     \<lparr>lb_data = replicate l 0, lb_limit = l, lb_start = 0, lb_size = 0, lb_sequence = 0,
      lb_next_sub = 0, lb_subs = (\<lambda>_. None)\<rparr>)"

text \<open>\<^verbatim>\<open>copy(dst[off:], src)\<close>: at most what fits.\<close>

definition go_copy :: "'a list \<Rightarrow> nat \<Rightarrow> 'a list \<Rightarrow> 'a list" where
  "go_copy dst off src = (let n = min (length dst - off) (length src) in
     take off dst @ take n src @ drop (off + n) dst)"

definition ring_store :: "log_buffer \<Rightarrow> bytes \<Rightarrow> log_buffer" where
  "ring_store b p =
     (if lb_limit b \<le> length p then
        b\<lparr>lb_data := go_copy (lb_data b) 0 (drop (length p - lb_limit b) p),
          lb_start := 0, lb_size := lb_limit b\<rparr>
      else let e = (lb_start b + lb_size b) mod lb_limit b;
               first = min (length p) (lb_limit b - e)
        in b\<lparr>lb_data := go_copy (go_copy (lb_data b) e (take first p)) 0 (drop first p),
             lb_start := (if lb_limit b < lb_size b + length p
               then (lb_start b + (lb_size b + length p - lb_limit b)) mod lb_limit b else lb_start b),
             lb_size := min (lb_limit b) (lb_size b + length p)\<rparr>)"

text \<open>A send that would block is dropped.\<close>

definition notify :: "64 word \<Rightarrow> 64 word option option \<Rightarrow> 64 word option option" where
  "notify s c = (case c of Some None \<Rightarrow> Some (Some s) | _ \<Rightarrow> c)"

definition log_write :: "log_buffer \<Rightarrow> bytes \<Rightarrow> log_buffer \<times> nat" where
  "log_write b p =
     (if p = [] then (b, 0)
      else let b1 = ring_store b p; s = lb_sequence b1 + 1
        in (b1\<lparr>lb_sequence := s, lb_subs := (\<lambda>i. notify s (lb_subs b1 i))\<rparr>, length p))"

definition ring_bytes :: "log_buffer \<Rightarrow> bytes" where
  "ring_bytes b = (let first = min (lb_size b) (lb_limit b - lb_start b) in
     take first (drop (lb_start b) (lb_data b)) @ take (lb_size b - first) (lb_data b))"

text \<open>The backward scan of \<^verbatim>\<open>Snapshot\<close>: \<open>i\<close> bytes are left to look at, \<open>n\<close> line feeds were seen.\<close>

fun tail_loop :: "bytes \<Rightarrow> nat \<Rightarrow> nat \<Rightarrow> nat \<Rightarrow> bytes" where
  "tail_loop d lines n 0 = d"
| "tail_loop d lines n (Suc i) =
     (if d ! i \<noteq> 10 then tail_loop d lines n i
      else if lines < n + 1 then dropWhile (\<lambda>c. c = 10) (drop (i + 1) d)
      else tail_loop d lines (n + 1) i)"

definition log_snapshot :: "log_buffer \<Rightarrow> int \<Rightarrow> bytes \<times> 64 word" where
  "log_snapshot b lines = (let d = ring_bytes b in
     (if lines \<le> 0 then d else tail_loop d (nat lines) 0 (length d), lb_sequence b))"

definition log_subscribe :: "log_buffer \<Rightarrow> log_buffer \<times> 64 word" where
  "log_subscribe b = (let i = lb_next_sub b + 1 in
     (b\<lparr>lb_next_sub := i, lb_subs := (lb_subs b)(i := Some None)\<rparr>, i))"

definition log_unsubscribe :: "64 word \<Rightarrow> log_buffer \<Rightarrow> log_buffer" where
  "log_unsubscribe i b = b\<lparr>lb_subs := (lb_subs b)(i := None)\<rparr>"

text \<open>A receive that finds a value empties the channel.\<close>

definition log_receive :: "64 word \<Rightarrow> log_buffer \<Rightarrow> (64 word \<times> log_buffer) option" where
  "log_receive i b = (case lb_subs b i of
     Some (Some s) \<Rightarrow> Some (s, b\<lparr>lb_subs := (lb_subs b)(i := Some None)\<rparr>) | _ \<Rightarrow> None)"

section \<open>The ring holds the last bytes\<close>

definition log_inv :: "log_buffer \<Rightarrow> bool" where
  "log_inv b \<longleftrightarrow> 0 < lb_limit b \<and> length (lb_data b) = lb_limit b \<and> lb_start b < lb_limit b \<and>
     lb_size b \<le> lb_limit b"

text \<open>The abstraction: the bytes written so far, of which the last \<open>limit\<close> are kept.\<close>

definition last_bytes :: "nat \<Rightarrow> bytes \<Rightarrow> bytes" where
  "last_bytes n xs = drop (length xs - n) xs"

lemma log_inv_new: "log_inv (new_log_buffer limit) \<and> ring_bytes (new_log_buffer limit) = []"
  by (simp add: new_log_buffer_def log_inv_def ring_bytes_def Let_def)

lemma length_go_copy [simp]: "length (go_copy d off s) = length d" if "off \<le> length d"
  using that by (simp add: go_copy_def Let_def)

lemma nth_go_copy:
  "off \<le> length d \<Longrightarrow> k < length d \<Longrightarrow>
   go_copy d off s ! k = (if off \<le> k \<and> k < off + length s then s ! (k - off) else d ! k)"
  by (auto simp: go_copy_def Let_def nth_append min_def)

lemma length_ring_bytes: "log_inv b \<Longrightarrow> length (ring_bytes b) = lb_size b"
  by (cases "lb_size b \<le> lb_limit b - lb_start b") (auto simp: log_inv_def ring_bytes_def Let_def min_def)

lemma mod_once: "(a :: nat) < 2 * l \<Longrightarrow> a mod l = (if a < l then a else a - l)"
  by (simp add: mod_if)

lemma nth_ring_bytes:
  assumes "log_inv b" and "i < lb_size b"
  shows "ring_bytes b ! i = lb_data b ! ((lb_start b + i) mod lb_limit b)"
proof -
  from assms have "(lb_start b + i) mod lb_limit b =
      (if lb_start b + i < lb_limit b then lb_start b + i else lb_start b + i - lb_limit b)"
    by (intro mod_once) (simp add: log_inv_def)
  with assms show ?thesis
    by (auto simp: ring_bytes_def log_inv_def Let_def nth_append min_def add.commute)
qed

lemma ring_store_long:
  assumes "log_inv b" and "lb_limit b \<le> length p"
  shows "log_inv (ring_store b p)" "ring_bytes (ring_store b p) = last_bytes (lb_limit b) (ring_bytes b @ p)"
proof -
  have "go_copy (lb_data b) 0 (drop (length p - lb_limit b) p) = drop (length p - lb_limit b) p"
    using assms by (simp add: go_copy_def log_inv_def)
  with assms show "log_inv (ring_store b p)"
    "ring_bytes (ring_store b p) = last_bytes (lb_limit b) (ring_bytes b @ p)"
    by (simp_all add: ring_store_def log_inv_def ring_bytes_def last_bytes_def Let_def)
qed

text \<open>The written bytes lie at the end of the ring, the others are kept.\<close>

lemma ring_store_data:
  assumes "log_inv b" and "length p < lb_limit b" and "j < lb_limit b"
  defines "e \<equiv> (lb_start b + lb_size b) mod lb_limit b"
  shows "lb_data (ring_store b p) ! ((e + j) mod lb_limit b) =
    (if j < length p then p ! j else lb_data b ! ((e + j) mod lb_limit b))"
proof -
  define l where "l = lb_limit b"
  have l: "0 < l" "length (lb_data b) = l" "length p < l" "j < l" "e < l"
    using assms by (simp_all add: log_inv_def l_def e_def)
  define f where "f = min (length p) (l - e)"
  have data: "lb_data (ring_store b p) = go_copy (go_copy (lb_data b) e (take f p)) 0 (drop f p)"
    using assms(2) by (simp add: ring_store_def Let_def e_def f_def l_def)
  have m: "(e + j) mod l = (if e + j < l then e + j else e + j - l)"
    using l by (intro mod_once) simp
  have k: "(e + j) mod l < l" using l by simp
  show ?thesis
    unfolding data l_def [symmetric]
    using l k by (subst nth_go_copy; simp)+ (auto simp: m f_def min_def)
qed

lemma ring_store_short:
  assumes "log_inv b" and "length p < lb_limit b"
  shows "log_inv (ring_store b p)" "ring_bytes (ring_store b p) = last_bytes (lb_limit b) (ring_bytes b @ p)"
proof -
  define l where "l = lb_limit b"
  define ov where "ov = lb_size b + length p - l"
  define b' where "b' = ring_store b p"
  have inv: "0 < l" "length (lb_data b) = l" "lb_start b < l" "lb_size b \<le> l" "length p < l"
    using assms by (simp_all add: log_inv_def l_def)
  have b': "lb_limit b' = l" "lb_start b' = (lb_start b + ov) mod l" "lb_size b' = min l (lb_size b + length p)"
    using assms(2) inv by (simp_all add: b'_def ring_store_def Let_def l_def ov_def)
  have "length (lb_data b') = l"
    using assms(2) inv by (simp add: b'_def ring_store_def Let_def l_def)
  with b' inv show log_inv: "log_inv (ring_store b p)"
    by (simp add: log_inv_def b'_def [symmetric])
  have len: "length (ring_bytes b @ p) = lb_size b + length p"
    by (simp add: length_ring_bytes assms(1))
  show "ring_bytes (ring_store b p) = last_bytes (lb_limit b) (ring_bytes b @ p)"
  proof (rule nth_equalityI)
    show "length (ring_bytes (ring_store b p)) = length (last_bytes (lb_limit b) (ring_bytes b @ p))"
      using length_ring_bytes [OF log_inv] b' len by (simp add: last_bytes_def b'_def l_def)
    fix i
    assume "i < length (ring_bytes (ring_store b p))"
    then have i: "i < lb_size b'" using length_ring_bytes [OF log_inv] by (simp add: b'_def)
    define k where "k = ov + i"
    have k: "k < lb_size b + length p" using i b' by (simp add: k_def ov_def min_def split: if_splits)
    have old: "ring_bytes (ring_store b p) ! i = lb_data b' ! ((lb_start b + k) mod l)"
      using nth_ring_bytes [OF log_inv] i b' by (simp add: b'_def k_def mod_add_left_eq add.assoc)
    define j where "j = (if lb_size b \<le> k then k - lb_size b else l - lb_size b + k)"
    have j: "j < l" using k inv i b' by (auto simp: j_def k_def ov_def min_def split: if_splits)
    have "(lb_start b + lb_size b) mod l + j = (lb_start b + lb_size b) mod l + j" ..
    have pos: "((lb_start b + lb_size b) mod l + j) mod l = (lb_start b + k) mod l"
    proof (cases "lb_size b \<le> k")
      case True
      then have "lb_start b + lb_size b + j = lb_start b + k" by (simp add: j_def)
      then show ?thesis by (metis mod_add_left_eq)
    next
      case False
      then have "lb_start b + lb_size b + j = lb_start b + k + l" using inv by (simp add: j_def)
      then show ?thesis by (metis mod_add_left_eq mod_add_self2)
    qed
    have "ring_bytes (ring_store b p) ! i =
        (if j < length p then p ! j else lb_data b ! ((lb_start b + k) mod l))"
      using ring_store_data [OF assms j [unfolded l_def]] pos old by (simp add: b'_def l_def)
    also have "\<dots> = (ring_bytes b @ p) ! k"
    proof (cases "lb_size b \<le> k")
      case True
      with k have "j < length p" by (simp add: j_def)
      with True show ?thesis by (simp add: j_def nth_append length_ring_bytes [OF assms(1)])
    next
      case False
      then have "\<not> j < length p" using inv by (simp add: j_def k_def ov_def)
      with False show ?thesis
        using nth_ring_bytes [OF assms(1), of k] by (simp add: nth_append length_ring_bytes [OF assms(1)] l_def)
    qed
    also have "\<dots> = last_bytes (lb_limit b) (ring_bytes b @ p) ! i"
      using k len by (simp add: last_bytes_def k_def ov_def l_def del: drop_append)
    finally show "ring_bytes (ring_store b p) ! i = last_bytes (lb_limit b) (ring_bytes b @ p) ! i" .
  qed
qed

lemma ring_store_refines:
  assumes "log_inv b"
  shows "log_inv (ring_store b p) \<and> lb_limit (ring_store b p) = lb_limit b \<and>
    ring_bytes (ring_store b p) = last_bytes (lb_limit b) (ring_bytes b @ p)"
proof (cases "lb_limit b \<le> length p")
  case True
  with ring_store_long [OF assms] show ?thesis by (simp add: ring_store_def)
next
  case False
  with ring_store_short [OF assms] show ?thesis by (simp add: ring_store_def Let_def)
qed

lemma log_write_refines:
  assumes "log_inv b"
  shows "log_inv (fst (log_write b p)) \<and> lb_limit (fst (log_write b p)) = lb_limit b \<and>
    ring_bytes (fst (log_write b p)) = last_bytes (lb_limit b) (ring_bytes b @ p)"
proof (cases "p = []")
  case True
  then show ?thesis
    using assms length_ring_bytes [OF assms] by (simp add: log_write_def last_bytes_def log_inv_def)
next
  case False
  define b1 where "b1 = ring_store b p"
  have "ring_bytes (b1\<lparr>lb_sequence := s, lb_subs := f\<rparr>) = ring_bytes b1"
    "log_inv (b1\<lparr>lb_sequence := s, lb_subs := f\<rparr>) = log_inv b1" for s f
    by (simp_all add: ring_bytes_def log_inv_def)
  with False ring_store_refines [OF assms, of p] show ?thesis
    by (simp add: log_write_def Let_def b1_def)
qed

section \<open>Histories of the buffer\<close>

datatype log_op = LWrite bytes | LSubscribe | LUnsubscribe "64 word" | LReceive "64 word"

definition log_step :: "log_op \<Rightarrow> log_buffer \<Rightarrow> log_buffer" where
  "log_step a b = (case a of
     LWrite p \<Rightarrow> fst (log_write b p)
   | LSubscribe \<Rightarrow> fst (log_subscribe b)
   | LUnsubscribe i \<Rightarrow> log_unsubscribe i b
   | LReceive i \<Rightarrow> (case log_receive i b of Some (_, b') \<Rightarrow> b' | None \<Rightarrow> b))"

definition written :: "log_op list \<Rightarrow> bytes" where
  "written as = concat (map (\<lambda>a. case a of LWrite p \<Rightarrow> p | _ \<Rightarrow> []) as)"

lemma last_bytes_append: "last_bytes n (last_bytes n xs @ ys) = last_bytes n (xs @ ys)"
  by (cases "length xs \<le> n") (auto simp: last_bytes_def add.commute)

lemma length_last_bytes [simp]: "length (last_bytes n xs) = min n (length xs)"
  by (simp add: last_bytes_def)

lemma log_step_subs_only:
  assumes "\<And>p. a \<noteq> LWrite p"
  shows "lb_limit (log_step a b) = lb_limit b \<and> log_inv (log_step a b) = log_inv b \<and>
    ring_bytes (log_step a b) = ring_bytes b"
  using assms
  by (auto simp: log_step_def log_subscribe_def log_unsubscribe_def log_receive_def Let_def
      log_inv_def ring_bytes_def split: log_op.splits option.splits)

lemma log_run_refines:
  assumes "log_inv b" and "ring_bytes b = last_bytes (lb_limit b) xs"
  shows "log_inv (fold log_step as b) \<and> lb_limit (fold log_step as b) = lb_limit b \<and>
    ring_bytes (fold log_step as b) = last_bytes (lb_limit b) (xs @ written as)"
  using assms
proof (induction as arbitrary: b xs)
  case Nil
  then show ?case by (simp add: written_def)
next
  case (Cons a as)
  show ?case
  proof (cases "\<exists>p. a = LWrite p")
    case True
    then obtain p where a: "a = LWrite p" ..
    with log_write_refines [OF Cons.prems(1), of p] Cons.prems(2)
    have "log_inv (log_step a b) \<and> lb_limit (log_step a b) = lb_limit b \<and>
        ring_bytes (log_step a b) = last_bytes (lb_limit b) (xs @ p)"
      by (simp add: log_step_def last_bytes_append)
    with Cons.IH [of "log_step a b" "xs @ p"] show ?thesis by (simp add: a written_def)
  next
    case False
    with log_step_subs_only [of a b] Cons.IH [of "log_step a b" xs] Cons.prems
    show ?thesis by (auto simp: written_def split: log_op.splits)
  qed
qed

lemma log_inv_run: "log_inv (fold log_step as (new_log_buffer n))"
  using log_run_refines [of "new_log_buffer n" "[]" as] log_inv_new [of n] by (simp add: last_bytes_def)

text \<open>
  Claim C14. The ring buffer refines the list of everything written: after any sequence of writes,
  subscriptions, receives and cancellations on a new buffer, its content is the last \<open>limit\<close> bytes
  of the concatenation of the writes, \<open>limit\<close> being 1 MiB where the argument is not positive. The
  wrap-around copies, a write longer than the buffer and the advance of the start lose or reorder
  nothing else.
\<close>

theorem log_buffer_refines:
  "ring_bytes (fold log_step as (new_log_buffer limit)) =
     last_bytes (if limit \<le> 0 then 2 ^ 20 else nat limit) (written as)"
  using log_run_refines [of "new_log_buffer limit" "[]" as] log_inv_new [of limit]
  by (simp add: last_bytes_def new_log_buffer_def Let_def)

section \<open>Snapshots\<close>

definition line_feeds :: "bytes \<Rightarrow> nat" where
  "line_feeds d = length (filter (\<lambda>c. c = 10) d)"

lemma line_feeds_append: "line_feeds (xs @ ys) = line_feeds xs + line_feeds ys"
  by (simp add: line_feeds_def)

text \<open>
  What a snapshot shows of the content \<open>d\<close>: all of it when it has at most \<open>n\<close> line feeds, otherwise
  the part after a line feed that has exactly \<open>n\<close>, less the line feeds it starts with.
\<close>

definition shows_lines :: "nat \<Rightarrow> bytes \<Rightarrow> bytes \<Rightarrow> bool" where
  "shows_lines n d t \<longleftrightarrow> (t = d \<and> line_feeds d \<le> n) \<or>
     (\<exists>pre kept. d = pre @ [10] @ kept \<and> line_feeds kept = n \<and> t = dropWhile (\<lambda>c. c = 10) kept)"

lemma tail_loop_shows:
  assumes "i \<le> length d" and "n = line_feeds (drop i d)" and "n \<le> lines"
  shows "shows_lines lines d (tail_loop d lines n i)"
  using assms
proof (induction i arbitrary: n)
  case 0
  then show ?case by (simp add: shows_lines_def)
next
  case (Suc i)
  then have d: "drop i d = d ! i # drop (Suc i) d" by (simp add: Cons_nth_drop_Suc)
  show ?case
  proof (cases "d ! i = 10 \<and> n = lines")
    case True
    then have "d = take i d @ [10] @ drop (i + 1) d"
      using Suc.prems(1) by (metis append_Cons append_Nil append_take_drop_id Suc_eq_plus1 d)
    with True Suc.prems(2) show ?thesis by (auto simp: shows_lines_def)
  next
    case False
    with Suc d show ?thesis by (auto simp: line_feeds_def)
  qed
qed

lemma line_feeds_dropWhile: "line_feeds (dropWhile P d) \<le> line_feeds d"
  by (induction d) (auto simp: line_feeds_def)

text \<open>
  A snapshot of \<open>lines\<close> lines is the end of the buffer's content from the start of a line
  and holds at most \<open>lines\<close> line feeds: everything when the content has no more, otherwise what
  follows the line feed that leaves exactly \<open>lines\<close> of them, less leading empty lines. A count of
  zero or less shows everything. The sequence number returned with it counts the non-empty writes.
\<close>

theorem log_snapshot_lines:
  assumes "log_snapshot b lines = (t, s)"
  shows "s = lb_sequence b \<and> (if lines \<le> 0 then t = ring_bytes b
     else shows_lines (nat lines) (ring_bytes b) t \<and> line_feeds t \<le> nat lines)"
proof -
  have t: "t = (if lines \<le> 0 then ring_bytes b
      else tail_loop (ring_bytes b) (nat lines) 0 (length (ring_bytes b)))" and "s = lb_sequence b"
    using assms by (auto simp: log_snapshot_def Let_def)
  moreover have "shows_lines (nat lines) (ring_bytes b) t" if "0 < lines"
    using that t tail_loop_shows [of "length (ring_bytes b)" "ring_bytes b" 0 "nat lines"]
    by (simp add: line_feeds_def)
  ultimately show ?thesis
    using line_feeds_dropWhile by (auto simp: shows_lines_def) metis
qed

definition sample_log :: log_buffer where
  "sample_log = fold log_step [LWrite [97, 10, 98], LWrite [10, 99, 10, 100]]
     (new_log_buffer 6)"

theorem log_snapshot_lines_witness:
  "shows_lines 1 (ring_bytes sample_log) (fst (log_snapshot sample_log 1))
     \<and> fst (log_snapshot sample_log 1) = [99, 10, 100]"
proof
  show "shows_lines 1 (ring_bytes sample_log) (fst (log_snapshot sample_log 1))"
    using log_snapshot_lines [where b = sample_log and lines = 1, OF prod.collapse [symmetric]] by simp
  show "fst (log_snapshot sample_log 1) = [99, 10, 100]" by code_simp
qed

section \<open>Wake-ups\<close>

lemma notify_eq_None: "notify s c = None \<longleftrightarrow> c = None"
  by (auto simp: notify_def split: option.splits)

text \<open>
  No wake-up is lost: after a non-empty write every subscriber's channel holds a value,
  which is the new sequence number when the channel was empty; a receive then finds it and empties
  the channel, and an empty write, a snapshot or another subscriber's receive changes nothing.
\<close>

theorem log_write_wakes:
  assumes "p \<noteq> []" and "lb_subs b i = Some c" and "fst (log_write b p) = b'"
  shows "lb_sequence b' = lb_sequence b + 1
    \<and> lb_subs b' i = Some (Some (case c of None \<Rightarrow> lb_sequence b' | Some s \<Rightarrow> s))
    \<and> (\<exists>s b''. log_receive i b' = Some (s, b'') \<and> lb_subs b'' i = Some None
          \<and> (\<forall>j. j \<noteq> i \<longrightarrow> lb_subs b'' j = lb_subs b' j))
    \<and> {j. lb_subs b' j = None} = {j. lb_subs b j = None}"
proof -
  have store: "lb_sequence (ring_store b p) = lb_sequence b" "lb_subs (ring_store b p) = lb_subs b"
    by (simp_all add: ring_store_def Let_def)
  then have b': "lb_sequence b' = lb_sequence b + 1" "\<And>j. lb_subs b' j = notify (lb_sequence b + 1) (lb_subs b j)"
    using assms by (auto simp: log_write_def Let_def)
  have "lb_subs b' j = None \<longleftrightarrow> lb_subs b j = None" for j
    by (simp add: b'(2) notify_eq_None)
  moreover have "lb_subs b' i = Some (Some (case c of None \<Rightarrow> lb_sequence b' | Some s \<Rightarrow> s))"
    using assms(2) by (simp add: b' notify_def split: option.splits)
  ultimately show ?thesis
    using b'(1) by (simp add: log_receive_def)
qed

theorem log_write_wakes_witness:
  "lb_subs (fst (log_write (fst (log_subscribe sample_log)) [65])) 1 = Some (Some 3)"
  using log_write_wakes [of "[65]" "fst (log_subscribe sample_log)" 1 None "fst (log_write (fst (log_subscribe sample_log)) [65])"]
  by (simp add: log_subscribe_def sample_log_def log_step_def log_write_def ring_store_def new_log_buffer_def Let_def)

end
