(* ===== verification/Bundle.thy ===== *)
theory Bundle
  imports Managed Rule_Import Config_Validate "HOL-Library.Multiset"
begin

text \<open>
  The unit that is stored, validated and applied: \<^verbatim>\<open>Bundle\<close> of \<^verbatim>\<open>internal/store/store.go\<close>, a
  configuration with its rules and the rules resolved from them.

  \<^verbatim>\<open>json.Marshal\<close> is modelled for the rule types as the JSON value it writes; \<^verbatim>\<open>null\<close> and an empty
  array, which the decoders treat alike, are both the empty array. \<^verbatim>\<open>reflect.DeepEqual\<close> also tells a
  \<^verbatim>\<open>nil\<close> slice from an empty one, which the records do not, so it is the parameter \<open>deq\<close>: what is used
  of it is that equal values are equal here.
\<close>

record app_bundle =
  b_config :: config
  b_rules :: rules_file
  b_resolved :: "rule list"

definition bundle_normalized :: "app_bundle \<Rightarrow> normalized" where
  "bundle_normalized b = \<lparr>n_rules = b_resolved b, n_warnings = []\<rparr>"

definition bundle_apply_defaults :: "app_bundle \<Rightarrow> app_bundle" where
  "bundle_apply_defaults b = (let seed = dn_custom_pools (cf_dns (b_config b)) = None;
       b' = b\<lparr>b_config := apply_defaults (b_config b)\<rparr>
     in if seed then b'\<lparr>b_rules := ensure_optional_defaults (b_rules b')\<rparr> else b')"

definition same_input :: "(config \<times> rules_file \<Rightarrow> config \<times> rules_file \<Rightarrow> bool) \<Rightarrow> app_bundle \<Rightarrow> app_bundle \<Rightarrow> bool" where
  "same_input deq a b = (let a' = bundle_apply_defaults a; b' = bundle_apply_defaults b
     in deq (b_config a', b_rules a') (b_config b', b_rules b'))"

section \<open>The JSON of rules\<close>

definition json_strings :: "string list \<Rightarrow> json" where
  "json_strings xs = JArr (map JStr xs)"

definition json_priority :: "int \<Rightarrow> (string \<times> json) list" where
  "json_priority p = (if p = 0 then [] else [(''priority'', JInt p)])"

definition encode_rule :: "rule \<Rightarrow> json" where
  "encode_rule r = JObj ((''name'', JStr (rl_name r)) # json_priority (rl_priority r) @
     [(''exit'', JStr (rl_exit r)), (''dns_pool'', JStr (rl_dns_pool r)),
      (''domain'', json_strings (rl_domain r)), (''domain_suffix'', json_strings (rl_domain_suffix r)),
      (''domain_keyword'', json_strings (rl_domain_keyword r)),
      (''domain_regex'', json_strings (rl_domain_regex r)),
      (''ip_cidr'', json_strings (rl_ip_cidr r)), (''rule_set'', json_strings (rl_rule_set r))])"

definition encode_import :: "rule_import \<Rightarrow> json" where
  "encode_import i = JObj ((''name'', JStr (im_name i)) # json_priority (im_priority i) @
     [(''type'', JStr (im_type i)), (''path'', JStr (im_path i)), (''url'', JStr (im_url i)),
      (''format'', JStr (im_format i)), (''exit'', JStr (im_exit i)), (''dns_pool'', JStr (im_dns_pool i))])"

definition encode_rules_file :: "rules_file \<Rightarrow> json" where
  "encode_rules_file f = JObj [(''imports'', JArr (map encode_import (rf_imports f))),
     (''rules'', JArr (map encode_rule (rf_rules f)))]"

lemma json_strings_inject [simp]: "json_strings xs = json_strings ys \<longleftrightarrow> xs = ys"
  by (auto simp: json_strings_def dest: map_injective [OF _ injI])

lemma encode_rule_inject [simp]: "encode_rule r = encode_rule s \<longleftrightarrow> r = s"
  by (auto simp: encode_rule_def json_priority_def intro: rule.equality split: if_splits)

lemma json_all_encode: "(\<And>x. x \<in> set xs \<Longrightarrow> f (g x) = Some x) \<Longrightarrow> json_all f (map g xs) = Some xs"
  by (induction xs) auto

lemma json_string_list_strings [simp]: "json_string_list (json_strings xs) = Some xs"
  by (simp add: json_string_list_def json_strings_def json_list_def json_string_def json_all_encode)

definition int64 :: "int \<Rightarrow> bool" where
  "int64 i \<longleftrightarrow> - (2 ^ 63) \<le> i \<and> i < 2 ^ 63"

lemma decode_encode_rule:
  assumes "int64 (rl_priority r)"
  shows "decode_rule (encode_rule r) = Some r"
proof -
  have [simp]: "json_strings xs \<noteq> JNull" for xs by (simp add: json_strings_def)
  have "json_string (JStr s) = Some s" for s by (simp add: json_string_def)
  with assms show ?thesis
    by (simp add: decode_rule_def encode_rule_def json_fields_def json_priority_def struct_field_def
        equal_fold_def to_lower_def lower_char_def json_int_def int64_def)
qed

lemma decode_encode_import:
  assumes "int64 (im_priority i)"
  shows "decode_import (encode_import i) = Inr i"
proof -
  have "json_string (JStr s) = Some s" for s by (simp add: json_string_def)
  with assms show ?thesis
    by (simp add: decode_import_def encode_import_def json_fields_def json_priority_def field_value_def
        import_string_def import_field_names_def json_int_def int64_def)
qed

text \<open>
  Claim C15. A rules file survives the database: decoding the JSON that is written for it, legacy
  field names, duplicate checks and single-string lists included, gives the file back.
\<close>

theorem rules_file_roundtrip:
  assumes "list_all (\<lambda>r. int64 (rl_priority r)) (rf_rules f)"
    and "list_all (\<lambda>i. int64 (im_priority i)) (rf_imports f)"
  shows "decode_rules_file (encode_rules_file f) = Inr f"
  using assms
  by (simp add: decode_rules_file_def encode_rules_file_def json_fields_def field_value_def
      json_list_def json_all_encode decode_encode_rule decode_encode_import list_all_iff to_option_def)

theorem rules_file_roundtrip_witness:
  "decode_rules_file (encode_rules_file managed_file) = Inr managed_file"
  by (rule rules_file_roundtrip) code_simp+

section \<open>\<^verbatim>\<open>ResolvedLocalRulesCurrent\<close>\<close>

text \<open>\<^verbatim>\<open>ruleKey\<close>: the text of the rule's JSON, which determines the JSON.\<close>

definition rule_key :: "rule \<Rightarrow> json" where
  "rule_key r = encode_rule r"

definition count_key :: "rule \<Rightarrow> (json \<Rightarrow> nat) \<Rightarrow> json \<Rightarrow> nat" where
  "count_key r counts = counts(rule_key r := counts (rule_key r) + 1)"

fun take_keys :: "(json \<Rightarrow> nat) \<Rightarrow> rule list \<Rightarrow> bool" where
  "take_keys counts [] = True"
| "take_keys counts (r # rs) = (let k = rule_key r in
     if counts k = 0 then False else take_keys (counts(k := counts k - 1)) rs)"

definition resolved_local_rules_current :: "app_bundle \<Rightarrow> bool" where
  "resolved_local_rules_current b =
     (if length (b_resolved b) < length (rf_rules (b_rules b)) then False
      else take_keys (fold count_key (b_resolved b) (\<lambda>_. 0)) (rf_rules (b_rules b)))"

lemma count_keys: "fold count_key rs c (rule_key r) = c (rule_key r) + count (mset rs) r"
  by (induction rs arbitrary: c) (auto simp: count_key_def rule_key_def)

lemma take_keys_iff: "take_keys c rs \<longleftrightarrow> (\<forall>r. count (mset rs) r \<le> c (rule_key r))"
proof (induction c rs rule: take_keys.induct)
  case (2 c x xs)
  show ?case
  proof (cases "c (rule_key x) = 0")
    case True
    then have "\<not> count (mset (x # xs)) x \<le> c (rule_key x)" by simp
    with True show ?thesis by auto
  next
    case False
    have "count (mset xs) r \<le> (c(rule_key x := c (rule_key x) - 1)) (rule_key r) \<longleftrightarrow>
        count (mset (x # xs)) r \<le> c (rule_key r)" for r
      using False by (auto simp: rule_key_def)
    moreover have "take_keys c (x # xs) = take_keys (c(rule_key x := c (rule_key x) - 1)) xs"
      using False by (simp add: Let_def)
    ultimately show ?thesis using 2 [OF refl] False by blast
  qed
qed simp

text \<open>
  \<^verbatim>\<open>ResolvedLocalRulesCurrent\<close> decides whether the local rules, counted with their
  multiplicities, are among the resolved ones: the counting over JSON keys confuses no two rules and
  the early length test rejects nothing that the counting would accept.
\<close>

theorem resolved_current_iff:
  "resolved_local_rules_current b \<longleftrightarrow> mset (rf_rules (b_rules b)) \<subseteq># mset (b_resolved b)"
proof -
  have "take_keys (fold count_key (b_resolved b) (\<lambda>_. 0)) (rf_rules (b_rules b)) \<longleftrightarrow>
      mset (rf_rules (b_rules b)) \<subseteq># mset (b_resolved b)"
    by (simp add: take_keys_iff count_keys subseteq_mset_def)
  moreover have "length (rf_rules (b_rules b)) \<le> length (b_resolved b)"
    if "mset (rf_rules (b_rules b)) \<subseteq># mset (b_resolved b)"
    using size_mset_mono [OF that] by simp
  ultimately show ?thesis by (auto simp: resolved_local_rules_current_def)
qed

section \<open>Defaults\<close>

lemma apply_defaults_custom_pools: "dn_custom_pools (cf_dns (apply_defaults c)) \<noteq> None"
  by (simp add: apply_defaults_def default_dns_def Let_def split: option.split)

lemma bundle_apply_defaults_idem: "bundle_apply_defaults (bundle_apply_defaults b) = bundle_apply_defaults b"
  by (simp add: bundle_apply_defaults_def Let_def apply_defaults_custom_pools apply_defaults_twice)

definition sample_bundle :: app_bundle where
  "sample_bundle = \<lparr>b_config = draft ''10.0.0.1'' ''10.0.0.0/24'' ''eth0'' ''dns.example.com'' [direct_exit],
     b_rules = managed_file, b_resolved = []\<rparr>"

end
