(* ===== verification/Fallible.thy ===== *)
theory Fallible
  imports Go_Prelude
begin

text \<open>
  Actions on a state that a driver, a file system or a child process can make fail. An action takes
  the state and a schedule of faults, one for each fallible call it will make: \<open>True\<close> makes that call
  fail, the empty schedule never fails. The outcome is the code's error or its result, with the new
  state and the rest of the schedule, so a statement about every schedule is a statement about every
  pattern of failures. Weakest preconditions with a postcondition for errors carry the proofs.
\<close>

type_synonym ('s, 'e, 'a) act = "'s \<times> bool list \<Rightarrow> ('e + 'a) \<times> 's \<times> bool list"

definition ret :: "'a \<Rightarrow> ('s, 'e, 'a) act" where
  "ret x w = (Inr x, w)"

definition fail :: "'e \<Rightarrow> ('s, 'e, 'a) act" where
  "fail e w = (Inl e, w)"

definition seq :: "('s, 'e, 'a) act \<Rightarrow> ('a \<Rightarrow> ('s, 'e, 'b) act) \<Rightarrow> ('s, 'e, 'b) act" where
  "seq m k w = (case m w of (Inl e, w') \<Rightarrow> (Inl e, w') | (Inr x, w') \<Rightarrow> k x w')"

text \<open>One fallible call: a fault leaves the state alone.\<close>

definition call :: "'e \<Rightarrow> ('s \<Rightarrow> ('e + 'a) \<times> 's) \<Rightarrow> ('s, 'e, 'a) act" where
  "call e f w = (case w of
     (s, True # fs) \<Rightarrow> (Inl e, s, fs)
   | (s, fs) \<Rightarrow> (case f s of (r, s') \<Rightarrow> (r, s', tl fs)))"

text \<open>A step that cannot fail by itself.\<close>

definition modify :: "('s \<Rightarrow> 's) \<Rightarrow> ('s, 'e, unit) act" where
  "modify f w = (Inr (), f (fst w), snd w)"

definition observe :: "('s \<Rightarrow> 'a) \<Rightarrow> ('s, 'e, 'a) act" where
  "observe f w = (Inr (f (fst w)), w)"

text \<open>A step whose outcome the state decides.\<close>

definition compute :: "('s \<Rightarrow> ('e + 'a) \<times> 's) \<Rightarrow> ('s, 'e, 'a) act" where
  "compute f w = (case f (fst w) of (r, s') \<Rightarrow> (r, s', snd w))"

text \<open>\<^verbatim>\<open>err := m\<close>: the caller looks at the error itself.\<close>

definition attempt :: "('s, 'e, 'a) act \<Rightarrow> ('s, 'e, 'e + 'a) act" where
  "attempt m w = (case m w of (r, w') \<Rightarrow> (Inr r, w'))"

text \<open>
  A transaction: the begin and the commit can fail, and on every error path the deferred rollback
  undoes what the body did.
\<close>

definition transaction :: "'e \<Rightarrow> ('s, 'e, 'a) act \<Rightarrow> ('s, 'e, 'a) act" where
  "transaction e m w = (case seq (call e (\<lambda>s. (Inr (), s)))
       (\<lambda>_. seq m (\<lambda>x. call e (\<lambda>s. (Inr x, s)))) w of
     (Inl e', s, fs) \<Rightarrow> (Inl e', fst w, fs)
   | (Inr x, w') \<Rightarrow> (Inr x, w'))"

text \<open>\<^verbatim>\<open>defer\<close>: the clean-up runs on both ways out and its own error is dropped.\<close>

definition deferred :: "('s, 'e, unit) act \<Rightarrow> ('s, 'e, 'a) act \<Rightarrow> ('s, 'e, 'a) act" where
  "deferred c m = seq (attempt m) (\<lambda>r. seq (attempt c) (\<lambda>_. case r of Inl e \<Rightarrow> fail e | Inr x \<Rightarrow> ret x))"

section \<open>Weakest preconditions\<close>

text \<open>
  \<open>wp m Q E s\<close>: from \<open>s\<close>, whatever fails, a result satisfies \<open>Q\<close> and an error satisfies \<open>E\<close>. The
  rules of \<open>wp_intros\<close> and \<open>wp_simps\<close> compute it backwards through an action.
\<close>

definition outcome :: "('a \<Rightarrow> 's \<Rightarrow> bool) \<Rightarrow> ('e \<Rightarrow> 's \<Rightarrow> bool) \<Rightarrow> ('e + 'a) \<times> 's \<times> bool list \<Rightarrow> bool" where
  "outcome Q E r \<longleftrightarrow> (case fst r of Inr x \<Rightarrow> Q x (fst (snd r)) | Inl e \<Rightarrow> E e (fst (snd r)))"

definition wp :: "('s, 'e, 'a) act \<Rightarrow> ('a \<Rightarrow> 's \<Rightarrow> bool) \<Rightarrow> ('e \<Rightarrow> 's \<Rightarrow> bool) \<Rightarrow> 's \<Rightarrow> bool" where
  "wp m Q E s \<longleftrightarrow> (\<forall>fs. outcome Q E (m (s, fs)))"

named_theorems wp_simps \<open>the preconditions of the basic actions\<close>
named_theorems wp_intros \<open>the rules of the compound actions\<close>

lemma outcome_simps [simp]: "outcome Q E (Inr x, w) = Q x (fst w)" "outcome Q E (Inl e, w) = E e (fst w)"
  by (simp_all add: outcome_def)

lemma call_cases:
  "call e f (s, fs) = (if fs \<noteq> [] \<and> hd fs then (Inl e, s, tl fs) else (fst (f s), snd (f s), tl fs))"
  by (auto simp: call_def split: list.splits bool.splits prod.splits)

lemma wp_ret [wp_simps]: "wp (ret x) Q E s = Q x s"
  by (simp add: wp_def ret_def)

lemma wp_fail [wp_simps]: "wp (fail e) Q E s = E e s"
  by (simp add: wp_def fail_def)

lemma wp_modify [wp_simps]: "wp (modify f) Q E s = Q () (f s)"
  by (simp add: wp_def modify_def)

lemma wp_observe [wp_simps]: "wp (observe f) Q E s = Q (f s) s"
  by (simp add: wp_def observe_def)

lemma wp_compute: "wp (compute f) Q E s \<longleftrightarrow> (case f s of (Inr x, s') \<Rightarrow> Q x s' | (Inl e, s') \<Rightarrow> E e s')"
  by (auto simp: wp_def compute_def outcome_def split: prod.splits sum.splits)

lemma wp_call:
  "wp (call e f) Q E s \<longleftrightarrow> E e s \<and> (case f s of (Inr x, s') \<Rightarrow> Q x s' | (Inl e', s') \<Rightarrow> E e' s')"
proof -
  define ok where "ok = (case f s of (Inr x, s') \<Rightarrow> Q x s' | (Inl e', s') \<Rightarrow> E e' s')"
  have ok: "outcome Q E (fst (f s), snd (f s), fs) = ok" for fs
    by (simp add: outcome_def ok_def split: prod.splits sum.splits)
  have "outcome Q E (call e f (s, fs)) = (if fs \<noteq> [] \<and> hd fs then E e s else ok)" for fs
    by (simp add: call_cases ok)
  then have "wp (call e f) Q E s \<longleftrightarrow> (\<forall>fs. if fs \<noteq> [] \<and> hd fs then E e s else ok)"
    by (simp add: wp_def)
  moreover have "\<dots> \<longleftrightarrow> E e s \<and> ok"
  proof
    assume all: "\<forall>fs. if fs \<noteq> [] \<and> hd fs then E e s else ok"
    from spec [OF all, of "[True]"] spec [OF all, of "[]"] show "E e s \<and> ok" by simp
  qed simp
  ultimately show ?thesis by (simp add: ok_def)
qed

lemma wp_run: "wp m Q E s \<Longrightarrow> m (s, fs) = (r, s', fs') \<Longrightarrow>
    (case r of Inr x \<Rightarrow> Q x s' | Inl e \<Rightarrow> E e s')"
  unfolding wp_def by (drule spec [where x = fs]) (cases r; simp)

lemma wp_mono:
  assumes "wp m Q' E' s" and "\<And>x s. Q' x s \<Longrightarrow> Q x s" and "\<And>e s. E' e s \<Longrightarrow> E e s"
  shows "wp m Q E s"
  using assms by (fastforce simp: wp_def outcome_def split: sum.splits)

lemma wp_True [simp]: "wp m (\<lambda>_ _. True) (\<lambda>_ _. True) s"
  by (simp add: wp_def outcome_def split: sum.split)

lemma wp_seq [wp_intros]:
  assumes "wp m (\<lambda>x. wp (k x) Q E) E s"
  shows "wp (seq m k) Q E s"
  unfolding wp_def
proof
  fix fs
  obtain r s' fs' where r: "m (s, fs) = (r, s', fs')" by (cases "m (s, fs)")
  from wp_run [OF assms r] show "outcome Q E (seq m k (s, fs))"
    by (cases r) (simp_all add: seq_def r wp_def)
qed

lemma wp_attempt [wp_intros]:
  assumes "wp m (\<lambda>x. Q (Inr x)) (\<lambda>e. Q (Inl e)) s"
  shows "wp (attempt m) Q E s"
  unfolding wp_def
proof
  fix fs
  obtain r s' fs' where r: "m (s, fs) = (r, s', fs')" by (cases "m (s, fs)")
  from wp_run [OF assms r] show "outcome Q E (attempt m (s, fs))"
    by (cases r) (simp_all add: attempt_def r)
qed

lemma wp_deferred [wp_intros]:
  assumes "wp m (\<lambda>x s. wp c (\<lambda>_. Q x) (\<lambda>_. Q x) s) (\<lambda>e s. wp c (\<lambda>_. E e) (\<lambda>_. E e) s) s"
  shows "wp (deferred c m) Q E s"
  unfolding deferred_def
  by (rule wp_seq, rule wp_attempt, rule wp_mono [OF assms])
    (auto intro!: wp_seq wp_attempt elim!: wp_mono simp: wp_simps)

lemma wp_attempt_any:
  assumes "\<And>r s'. Q r s'"
  shows "wp (attempt m) Q E s"
  by (rule wp_attempt) (rule wp_mono [OF wp_True]; rule assms)

lemma wp_transaction [wp_intros]:
  assumes "E e s" and "wp m Q (\<lambda>e _. E e s) s"
  shows "wp (transaction e m) Q E s"
  unfolding wp_def
proof
  fix fs
  obtain r s' fs' where r: "m (s, tl fs) = (r, s', fs')" by (cases "m (s, tl fs)")
  from wp_run [OF assms(2) r] assms(1) r show "outcome Q E (transaction e m (s, fs))"
    by (cases r) (auto simp: transaction_def seq_def call_cases)
qed

text \<open>An action on a component \<open>g t\<close> of a larger state, its errors wrapped by \<open>h\<close>.\<close>

definition lift_act :: "('t \<Rightarrow> 's) \<Rightarrow> ('s \<Rightarrow> 't \<Rightarrow> 't) \<Rightarrow> ('e \<Rightarrow> 'f) \<Rightarrow> ('s, 'e, 'a) act \<Rightarrow> ('t, 'f, 'a) act" where
  "lift_act g p h m w = (case m (g (fst w), snd w) of (r, s', fs') \<Rightarrow> (map_sum h id r, p s' (fst w), fs'))"

lemma wp_lift [wp_simps]:
  "wp (lift_act g p h m) Q E t \<longleftrightarrow> wp m (\<lambda>x s. Q x (p s t)) (\<lambda>e s. E (h e) (p s t)) (g t)"
proof -
  have "outcome Q E (lift_act g p h m (t, fs)) \<longleftrightarrow>
      outcome (\<lambda>x s. Q x (p s t)) (\<lambda>e s. E (h e) (p s t)) (m (g t, fs))" for fs
    by (cases "m (g t, fs)") (auto simp: lift_act_def outcome_def split: sum.splits)
  then show ?thesis by (simp add: wp_def)
qed

lemma wp_conj:
  "wp m Q E s \<Longrightarrow> wp m Q' E' s \<Longrightarrow> wp m (\<lambda>x s. Q x s \<and> Q' x s) (\<lambda>e s. E e s \<and> E' e s) s"
  by (auto simp: wp_def outcome_def split: sum.splits)

lemma wp_if [wp_simps]: "wp (if b then m else m') Q E s \<longleftrightarrow> (if b then wp m Q E s else wp m' Q E s)"
  by simp

section \<open>Preserved predicates\<close>

definition preserves :: "('s \<Rightarrow> bool) \<Rightarrow> ('s, 'e, 'a) act \<Rightarrow> bool" where
  "preserves I m \<longleftrightarrow> (\<forall>s. I s \<longrightarrow> wp m (\<lambda>_. I) (\<lambda>_. I) s)"

named_theorems preserves_rules \<open>the actions that preserve a predicate\<close>

lemma preservesD: "preserves I m \<Longrightarrow> I s \<Longrightarrow> wp m (\<lambda>_. I) (\<lambda>_. I) s"
  by (simp add: preserves_def)

lemma preserves_basic [preserves_rules]: "preserves I (ret x)" "preserves I (fail e)" "preserves I (observe f)"
  by (simp_all add: preserves_def wp_simps)

lemma preserves_call [preserves_rules]: "(\<And>s. I s \<Longrightarrow> I (snd (f s))) \<Longrightarrow> preserves I (call e f)"
  by (force simp: preserves_def wp_call split: prod.splits sum.splits)

lemma preserves_modify [preserves_rules]: "(\<And>s. I s \<Longrightarrow> I (f s)) \<Longrightarrow> preserves I (modify f)"
  by (simp add: preserves_def wp_simps)

lemma preserves_seq [preserves_rules]:
  "preserves I m \<Longrightarrow> (\<And>x. preserves I (k x)) \<Longrightarrow> preserves I (seq m k)"
  unfolding preserves_def by (blast intro: wp_seq wp_mono)

lemma preserves_attempt [preserves_rules]: "preserves I m \<Longrightarrow> preserves I (attempt m)"
  unfolding preserves_def by (blast intro: wp_attempt)

lemma preserves_lift [preserves_rules]:
  "(\<And>t. I t \<Longrightarrow> preserves (\<lambda>s. I (p s t)) m) \<Longrightarrow> (\<And>t. I t \<Longrightarrow> I (p (g t) t)) \<Longrightarrow>
   preserves I (lift_act g p h m)"
  by (simp add: preserves_def wp_simps)

lemma preserves_if [preserves_rules]:
  "(b \<Longrightarrow> preserves I m) \<Longrightarrow> (\<not> b \<Longrightarrow> preserves I m') \<Longrightarrow> preserves I (if b then m else m')"
  by simp

lemma preserves_option [preserves_rules]:
  "(x = None \<Longrightarrow> preserves I m) \<Longrightarrow> (\<And>y. x = Some y \<Longrightarrow> preserves I (k y)) \<Longrightarrow>
   preserves I (case x of None \<Rightarrow> m | Some y \<Rightarrow> k y)"
  by (cases x) simp_all

lemma preserves_sum [preserves_rules]:
  "(\<And>y. x = Inl y \<Longrightarrow> preserves I (l y)) \<Longrightarrow> (\<And>y. x = Inr y \<Longrightarrow> preserves I (k y)) \<Longrightarrow>
   preserves I (case x of Inl y \<Rightarrow> l y | Inr y \<Rightarrow> k y)"
  by (cases x) simp_all

lemma preserves_run:
  assumes "preserves I m" and "I (fst w)"
  shows "I (fst (snd (m w)))"
proof -
  obtain r s' fs' where r: "m (fst w, snd w) = (r, s', fs')" by (cases "m (fst w, snd w)")
  from wp_run [OF preservesD [OF assms] r] r show ?thesis by (cases r) simp_all
qed

section \<open>Possible outcomes\<close>

text \<open>
  \<open>may m s r s'\<close>: some schedule of faults, of which \<open>m\<close> uses everything up, leads from \<open>s\<close> to the
  outcome \<open>r\<close> and the state \<open>s'\<close>. The rules build such a schedule along the action.
\<close>

definition may :: "('s, 'e, 'a) act \<Rightarrow> 's \<Rightarrow> 'e + 'a \<Rightarrow> 's \<Rightarrow> bool" where
  "may m s r s' \<longleftrightarrow> (\<exists>fs0. \<forall>fs. m (s, fs0 @ fs) = (r, s', fs))"

named_theorems may_rules \<open>the outcomes of the basic actions\<close>

lemma mayI: "(\<And>fs. m (s, fs0 @ fs) = (r, s', fs)) \<Longrightarrow> may m s r s'"
  unfolding may_def by blast

lemma may_run: "may m s r s' \<Longrightarrow> \<exists>fs. m (s, fs) = (r, s', [])"
  unfolding may_def by (metis append_Nil2)

lemma may_basic [may_rules]:
  "may (ret x) s (Inr x) s" "may (fail e) s (Inl e) s" "may (observe f) s (Inr (f s)) s" "may (modify g) s (Inr ()) (g s)"
  by (rule mayI [of _ _ "[]"]; simp add: ret_def fail_def observe_def modify_def)+

lemma may_compute: "f s = (r, s') \<Longrightarrow> may (compute f) s r s'"
  by (rule mayI [of _ _ "[]"]) (simp add: compute_def)

lemma may_call: "f s = (r, s') \<Longrightarrow> may (call e f) s r s'"
  by (rule mayI [of _ _ "[False]"]) (simp add: call_cases)

lemma may_fault: "may (call e f) s (Inl e) s"
  by (rule mayI [of _ _ "[True]"]) (simp add: call_cases)

lemma may_seq:
  assumes "may m s (Inr x) s1" and "may (k x) s1 r s2"
  shows "may (seq m k) s r s2"
proof -
  obtain fs1 where 1: "\<And>fs. m (s, fs1 @ fs) = (Inr x, s1, fs)" using assms(1) by (auto simp: may_def)
  obtain fs2 where 2: "\<And>fs. k x (s1, fs2 @ fs) = (r, s2, fs)" using assms(2) by (auto simp: may_def)
  show ?thesis by (rule mayI [of _ _ "fs1 @ fs2"]) (simp add: seq_def 1 2)
qed

lemma may_seq_error:
  assumes "may m s (Inl e) s1"
  shows "may (seq m k) s (Inl e) s1"
proof -
  obtain fs1 where 1: "\<And>fs. m (s, fs1 @ fs) = (Inl e, s1, fs)" using assms by (auto simp: may_def)
  show ?thesis by (rule mayI [of _ _ fs1]) (simp add: seq_def 1)
qed

lemma may_attempt:
  assumes "may m s r s'"
  shows "may (attempt m) s (Inr r) s'"
proof -
  obtain fs1 where 1: "\<And>fs. m (s, fs1 @ fs) = (r, s', fs)" using assms by (auto simp: may_def)
  show ?thesis by (rule mayI [of _ _ fs1]) (simp add: attempt_def 1)
qed

lemma may_transaction:
  assumes "may m s (Inr x) s'"
  shows "may (transaction e m) s (Inr x) s'"
proof -
  obtain fs1 where 1: "\<And>fs. m (s, fs1 @ fs) = (Inr x, s', fs)" using assms by (auto simp: may_def)
  show ?thesis
    by (rule mayI [of _ _ "False # fs1 @ [False]"]) (simp add: transaction_def seq_def call_cases 1)
qed

lemma may_lift:
  assumes "may m (g t) r s'"
  shows "may (lift_act g p h m) t (map_sum h id r) (p s' t)"
proof -
  obtain fs1 where 1: "\<And>fs. m (g t, fs1 @ fs) = (r, s', fs)" using assms by (auto simp: may_def)
  show ?thesis by (rule mayI [of _ _ fs1]) (simp add: lift_act_def 1)
qed

lemma may_wp:
  assumes "may m s (Inr x) s'" and "wp m Q E s"
  shows "Q x s'"
proof -
  obtain fs where "m (s, fs) = (Inr x, s', [])" using may_run [OF assms(1)] by blast
  from wp_run [OF assms(2) this] show ?thesis by simp
qed

text \<open>An action that succeeds from every state if nothing fails.\<close>

definition smooth :: "('s, 'e, 'a) act \<Rightarrow> bool" where
  "smooth m \<longleftrightarrow> (\<forall>s. \<exists>x s'. may m s (Inr x) s')"

named_theorems smooth_rules \<open>the actions that can succeed\<close>

lemma smooth_basic [smooth_rules]: "smooth (ret x)" "smooth (observe f)" "smooth (modify g)"
  unfolding smooth_def by (meson may_basic)+

lemma smooth_call [smooth_rules]: "(\<And>s. \<exists>x s'. f s = (Inr x, s')) \<Longrightarrow> smooth (call e f)"
  unfolding smooth_def by (meson may_call)

lemma smooth_seq [smooth_rules]: "smooth m \<Longrightarrow> (\<And>x. smooth (k x)) \<Longrightarrow> smooth (seq m k)"
  unfolding smooth_def by (meson may_seq)

lemma smooth_attempt [smooth_rules]: "smooth m \<Longrightarrow> (\<And>x. smooth (k (Inr x))) \<Longrightarrow> smooth (seq (attempt m) k)"
  unfolding smooth_def by (meson may_seq may_attempt)

lemma smooth_lift [smooth_rules]: "smooth m \<Longrightarrow> smooth (lift_act g p h m)"
  unfolding smooth_def
proof
  fix s
  assume "\<forall>s. \<exists>x s'. may m s (Inr x) s'"
  then obtain x s' where "may m (g s) (Inr x) s'" by blast
  from may_lift [where g = g and p = p and h = h and t = s, OF this] show "\<exists>x s'. may (lift_act g p h m) s (Inr x) s'" by auto
qed

lemmas act_defs = ret_def fail_def seq_def call_cases modify_def observe_def attempt_def transaction_def compute_def

end
