(* ===== verification/Store.thy ===== *)
theory Store
  imports Bundle Fallible Normalize
begin

text \<open>
  \<^verbatim>\<open>internal/store/store.go\<close>: the database. The SQLite tables of \<^verbatim>\<open>schema\<close> are the record \<open>db\<close>, one SQL
  statement is one \<open>call\<close> that the driver can make fail and that checks the table's constraints,
  and \<^verbatim>\<open>BeginTx\<close> .. \<^verbatim>\<open>Commit\<close> with the deferred rollback is \<open>transaction\<close>.

  The payload column is kept as the bundle its JSON decodes to (for the rules: \<open>rules_file_roundtrip\<close>
  in \<open>Bundle\<close>). \<^verbatim>\<open>CURRENT_TIMESTAMP\<close> is the argument \<open>now\<close>, in seconds. A transaction whose commit
  fails leaves the database as it was.
\<close>

section \<open>Tables\<close>

datatype rev_status = Draft | Active | Superseded | Failed

record revision_row =
  rr_id :: int
  rr_status :: rev_status
  rr_payload :: app_bundle
  rr_error :: "string option"
  rr_created :: int
  rr_active_at :: "int option"

record user_row =
  ur_id :: int
  ur_username :: string
  ur_password_hash :: string
  ur_last_login :: "int option"

record session_row =
  sr_token_hash :: string
  sr_user_id :: int
  sr_expires_at :: int
  sr_revoked_at :: "int option"

record db =
  db_revisions :: "revision_row list"
  db_rev_seq :: int
  db_app_state :: "(int \<times> int) option"
  db_users :: "user_row list"
  db_user_seq :: int
  db_sessions :: "session_row list"
  db_metrics :: "(int \<times> string) list"
  db_import_cache :: "string \<Rightarrow> cache_entry option"

text \<open>\<^verbatim>\<open>migrate\<close> on a new file.\<close>

definition empty_db :: db where
  "empty_db = \<lparr>db_revisions = [], db_rev_seq = 0, db_app_state = None, db_users = [], db_user_seq = 0,
     db_sessions = [], db_metrics = [], db_import_cache = (\<lambda>_. None)\<rparr>"

record revision =
  rn_id :: int
  rn_status :: rev_status
  rn_bundle :: app_bundle
  rn_error :: string
  rn_created_at :: int
  rn_active_at :: "int option"

datatype store_error = NotInitialized | AlreadyInitialized | InvalidConfig config_error
  | RevisionNotFound int | DriverFailed | ConstraintFailed | MetricNotEncodable

type_synonym 'a store_act = "(db, store_error, 'a) act"

section \<open>Statements\<close>

definition rev_ids :: "db \<Rightarrow> int set" where
  "rev_ids d = rr_id ` set (db_revisions d)"

text \<open>\<^verbatim>\<open>AUTOINCREMENT\<close>: ids are never reused, and the largest 64-bit id is the last one.\<close>

definition sql_insert_revision :: "int \<Rightarrow> rev_status \<Rightarrow> app_bundle \<Rightarrow> string \<Rightarrow> db \<Rightarrow> (store_error + int) \<times> db" where
  "sql_insert_revision now st b msg d =
     (if db_rev_seq d = 2 ^ 63 - 1 then (Inl ConstraintFailed, d)
      else let i = db_rev_seq d + 1 in
        (Inr i, d\<lparr>db_rev_seq := i, db_revisions := db_revisions d @
          [\<lparr>rr_id = i, rr_status = st, rr_payload = b, rr_error = (if msg = [] then None else Some msg),
            rr_created = now, rr_active_at = None\<rparr>]\<rparr>))"

definition find_revision :: "db \<Rightarrow> int \<Rightarrow> revision_row option" where
  "find_revision d i = find (\<lambda>r. rr_id r = i) (db_revisions d)"

definition update_rows :: "('r \<Rightarrow> bool) \<Rightarrow> ('r \<Rightarrow> 'r) \<Rightarrow> 'r list \<Rightarrow> 'r list" where
  "update_rows p f rs = map (\<lambda>r. if p r then f r else r) rs"

definition affected :: "('r \<Rightarrow> bool) \<Rightarrow> 'r list \<Rightarrow> nat" where
  "affected p rs = length (filter p rs)"

definition sql_update_revisions :: "(revision_row \<Rightarrow> bool) \<Rightarrow> (revision_row \<Rightarrow> revision_row) \<Rightarrow> db
    \<Rightarrow> (store_error + nat) \<times> db" where
  "sql_update_revisions p f d =
     (Inr (affected p (db_revisions d)), d\<lparr>db_revisions := update_rows p f (db_revisions d)\<rparr>)"

definition sql_insert_app_state :: "int \<Rightarrow> int \<Rightarrow> db \<Rightarrow> (store_error + unit) \<times> db" where
  "sql_insert_app_state a dr d =
     (if db_app_state d \<noteq> None \<or> a \<notin> rev_ids d \<or> dr \<notin> rev_ids d then (Inl ConstraintFailed, d)
      else (Inr (), d\<lparr>db_app_state := Some (a, dr)\<rparr>))"

text \<open>An update of the single \<^verbatim>\<open>app_state\<close> row, with its foreign keys and the rows affected.\<close>

definition sql_update_app_state :: "(int \<times> int \<Rightarrow> int \<times> int) \<Rightarrow> db \<Rightarrow> (store_error + nat) \<times> db" where
  "sql_update_app_state f d = (case db_app_state d of
     None \<Rightarrow> (Inr 0, d)
   | Some s \<Rightarrow> if fst (f s) \<in> rev_ids d \<and> snd (f s) \<in> rev_ids d
       then (Inr 1, d\<lparr>db_app_state := Some (f s)\<rparr>) else (Inl ConstraintFailed, d))"

section \<open>Revisions\<close>

definition scan_revision :: "revision_row option \<Rightarrow> store_error + revision" where
  "scan_revision row = (case row of None \<Rightarrow> Inl NotInitialized
     | Some r \<Rightarrow> Inr \<lparr>rn_id = rr_id r, rn_status = rr_status r,
         rn_bundle = bundle_apply_defaults (rr_payload r),
         rn_error = (case rr_error r of None \<Rightarrow> [] | Some m \<Rightarrow> m),
         rn_created_at = rr_created r, rn_active_at = rr_active_at r\<rparr>)"

definition query :: "(db \<Rightarrow> store_error + 'a) \<Rightarrow> 'a store_act" where
  "query f = call DriverFailed (\<lambda>d. (f d, d))"

definition insert_revision :: "int \<Rightarrow> rev_status \<Rightarrow> app_bundle \<Rightarrow> string \<Rightarrow> revision store_act" where
  "insert_revision now st b msg =
     seq (call DriverFailed (sql_insert_revision now st b msg))
       (\<lambda>i. query (\<lambda>d. scan_revision (find_revision d i)))"

definition initialize :: "(string \<Rightarrow> url option) \<Rightarrow> int \<Rightarrow> app_bundle \<Rightarrow> revision store_act" where
  "initialize up now b0 = (let b = bundle_apply_defaults b0 in
     case validate up (b_config b) of Some e \<Rightarrow> fail (InvalidConfig e)
     | None \<Rightarrow> transaction DriverFailed
         (seq (query (\<lambda>d. Inr (length (db_revisions d)))) (\<lambda>n.
          if n \<noteq> 0 then fail AlreadyInitialized
          else seq (insert_revision now Active b []) (\<lambda>rev.
               seq (call DriverFailed (sql_insert_app_state (rn_id rev) (rn_id rev))) (\<lambda>_.
               ret rev)))))"

definition revision_for :: "(int \<times> int \<Rightarrow> int) \<Rightarrow> revision store_act" where
  "revision_for column = query (\<lambda>d. scan_revision
     (Option.bind (db_app_state d) (\<lambda>s. find_revision d (column s))))"

definition store_active :: "revision store_act" where
  "store_active = revision_for fst"

definition store_draft :: "revision store_act" where
  "store_draft = revision_for snd"

definition save_draft :: "(string \<Rightarrow> url option) \<Rightarrow> int \<Rightarrow> app_bundle \<Rightarrow> revision store_act" where
  "save_draft up now b0 = (let b = bundle_apply_defaults b0 in
     case validate up (b_config b) of Some e \<Rightarrow> fail (InvalidConfig e)
     | None \<Rightarrow> transaction DriverFailed
         (seq (insert_revision now Draft b []) (\<lambda>rev.
          seq (call DriverFailed (sql_update_app_state (\<lambda>(a, _). (a, rn_id rev)))) (\<lambda>n.
          if n \<noteq> 1 then fail NotInitialized else ret rev))))"

definition activate_tx :: "int \<Rightarrow> int \<Rightarrow> unit store_act" where
  "activate_tx now i = transaction DriverFailed
     (seq (call DriverFailed (sql_update_revisions (\<lambda>r. rr_status r = Active)
            (\<lambda>r. r\<lparr>rr_status := Superseded\<rparr>))) (\<lambda>_.
      seq (call DriverFailed (sql_update_revisions (\<lambda>r. rr_id r = i)
            (\<lambda>r. r\<lparr>rr_status := Active, rr_active_at := Some now, rr_error := None\<rparr>))) (\<lambda>n.
      if n \<noteq> 1 then fail (RevisionNotFound i)
      else seq (call DriverFailed (sql_update_app_state (\<lambda>_. (i, i)))) (\<lambda>_. ret ()))))"

text \<open>The revision is read back after the commit.\<close>

definition activate :: "int \<Rightarrow> int \<Rightarrow> revision store_act" where
  "activate now i = seq (activate_tx now i) (\<lambda>_. store_active)"

definition reset_draft_to_active :: "revision store_act" where
  "reset_draft_to_active =
     seq (call DriverFailed (sql_update_app_state (\<lambda>(a, _). (a, a)))) (\<lambda>n.
     if n \<noteq> 1 then fail NotInitialized else store_active)"

definition sql_prune :: "db \<Rightarrow> db" where
  "sql_prune d = d\<lparr>db_revisions := filter (\<lambda>r. case db_app_state d of None \<Rightarrow> False
     | Some (a, dr) \<Rightarrow> rr_id r = a \<or> rr_id r = dr) (db_revisions d)\<rparr>"

definition prune_revisions :: "unit store_act" where
  "prune_revisions = call DriverFailed (\<lambda>d. (Inr (), sql_prune d))"

definition fail_revision :: "int \<Rightarrow> string \<Rightarrow> unit store_act" where
  "fail_revision i cause = seq (call DriverFailed (sql_update_revisions (\<lambda>r. rr_id r = i)
     (\<lambda>r. r\<lparr>rr_status := Failed, rr_error := Some cause\<rparr>))) (\<lambda>_. ret ())"

section \<open>Metrics\<close>

text \<open>\<^verbatim>\<open>PutMetric\<close> of a value whose JSON is \<open>payload\<close> (\<open>None\<close> when it has none).\<close>

definition sql_replace_metric :: "int \<Rightarrow> string \<Rightarrow> (int \<times> string) list \<Rightarrow> (int \<times> string) list" where
  "sql_replace_metric ts p ms = filter (\<lambda>m. fst m \<noteq> ts) ms @ [(ts, p)]"

definition put_metric :: "int \<Rightarrow> int \<Rightarrow> string option \<Rightarrow> unit store_act" where
  "put_metric now ts payload = (case payload of None \<Rightarrow> fail MetricNotEncodable
     | Some p \<Rightarrow> transaction DriverFailed
         (seq (call DriverFailed (\<lambda>d. (Inr (), d\<lparr>db_metrics := sql_replace_metric ts p (db_metrics d)\<rparr>))) (\<lambda>_.
          call DriverFailed (\<lambda>d. (Inr (), d\<lparr>db_metrics :=
            filter (\<lambda>m. \<not> fst m < now - 24 * 60 * 60) (db_metrics d)\<rparr>)))))"

definition metrics_limit :: "int \<Rightarrow> nat" where
  "metrics_limit l = (if l \<le> 0 \<or> 1000 < l then 360 else nat l)"

definition store_metrics :: "int \<Rightarrow> string list store_act" where
  "store_metrics l = query (\<lambda>d. Inr (take (metrics_limit l)
     (map snd (rev (sort_key fst (db_metrics d))))))"

section \<open>The import cache\<close>

definition get_import_cache :: "string \<Rightarrow> cache_entry option store_act" where
  "get_import_cache url = query (\<lambda>d. Inr (db_import_cache d url))"

definition sql_put_import :: "cache_entry \<Rightarrow> db \<Rightarrow> db" where
  "sql_put_import e d = d\<lparr>db_import_cache := (db_import_cache d)(ce_url e := Some e)\<rparr>"

definition put_import_cache :: "cache_entry \<Rightarrow> unit store_act" where
  "put_import_cache e = call DriverFailed (\<lambda>d. (Inr (), sql_put_import e d))"

end
