(* ===== verification/Store_Props.thy ===== *)
theory Store_Props
  imports Store
begin

text \<open>
  The invariant of the database, the abstract transition of every operation of \<open>Store\<close> (each
  operation either performs it or, with the exceptions stated, leaves the database alone), and the
  import cache as an instance of the resolver's interface.
\<close>

definition db_inv :: "(string \<Rightarrow> url option) \<Rightarrow> db \<Rightarrow> bool" where
  "db_inv up d \<longleftrightarrow>
     distinct (map rr_id (db_revisions d)) \<and>
     (\<forall>r \<in> set (db_revisions d). 1 \<le> rr_id r \<and> rr_id r \<le> db_rev_seq d \<and>
        bundle_apply_defaults (rr_payload r) = rr_payload r \<and> validate up (b_config (rr_payload r)) = None \<and>
        (rr_status r = Active \<longrightarrow> (\<exists>dr. db_app_state d = Some (rr_id r, dr)))) \<and>
     (case db_app_state d of None \<Rightarrow> db_revisions d = []
      | Some (a, dr) \<Rightarrow> a \<in> rev_ids d \<and> dr \<in> rev_ids d) \<and> 0 \<le> db_rev_seq d"

definition rev_of :: "revision_row \<Rightarrow> revision" where
  "rev_of r = \<lparr>rn_id = rr_id r, rn_status = rr_status r, rn_bundle = bundle_apply_defaults (rr_payload r),
     rn_error = (case rr_error r of None \<Rightarrow> [] | Some m \<Rightarrow> m),
     rn_created_at = rr_created r, rn_active_at = rr_active_at r\<rparr>"

lemma scan_revision_eq: "scan_revision row = (case row of None \<Rightarrow> Inl NotInitialized | Some r \<Rightarrow> Inr (rev_of r))"
  by (simp add: scan_revision_def rev_of_def split: option.splits)

lemma find_revision_SomeD: "find_revision d i = Some r \<Longrightarrow> r \<in> set (db_revisions d) \<and> rr_id r = i"
  by (auto simp: find_revision_def dest: find_SomeD)

lemma find_revision_ids: "i \<in> rev_ids d \<Longrightarrow> \<exists>r. find_revision d i = Some r"
  by (auto simp: rev_ids_def find_revision_def image_iff find_None_iff simp flip: not_None_eq)

section \<open>Transitions\<close>

definition new_row :: "int \<Rightarrow> rev_status \<Rightarrow> app_bundle \<Rightarrow> db \<Rightarrow> revision_row" where
  "new_row now st b d = \<lparr>rr_id = db_rev_seq d + 1, rr_status = st, rr_payload = b, rr_error = None,
     rr_created = now, rr_active_at = None\<rparr>"

definition add_row :: "int \<Rightarrow> rev_status \<Rightarrow> app_bundle \<Rightarrow> db \<Rightarrow> db" where
  "add_row now st b d = d\<lparr>db_rev_seq := db_rev_seq d + 1, db_revisions := db_revisions d @ [new_row now st b d]\<rparr>"

definition activated :: "int \<Rightarrow> int \<Rightarrow> db \<Rightarrow> db" where
  "activated now i d = d\<lparr>db_revisions := update_rows (\<lambda>r. rr_id r = i)
       (\<lambda>r. r\<lparr>rr_status := Active, rr_active_at := Some now, rr_error := None\<rparr>)
       (update_rows (\<lambda>r. rr_status r = Active) (\<lambda>r. r\<lparr>rr_status := Superseded\<rparr>) (db_revisions d)),
     db_app_state := Some (i, i)\<rparr>"

definition failed :: "int \<Rightarrow> string \<Rightarrow> db \<Rightarrow> db" where
  "failed i cause d = d\<lparr>db_revisions := update_rows (\<lambda>r. rr_id r = i)
     (\<lambda>r. r\<lparr>rr_status := Failed, rr_error := Some cause\<rparr>) (db_revisions d)\<rparr>"

lemma update_rows_ids [simp]:
  "(\<And>r. rr_id (f r) = rr_id r) \<Longrightarrow> map rr_id (update_rows p f rs) = map rr_id rs"
  by (auto simp: update_rows_def)

lemma update_rows_id_set [simp]:
  "(\<And>r. rr_id (f r) = rr_id r) \<Longrightarrow> rr_id ` set (update_rows p f rs) = rr_id ` set rs"
  using update_rows_ids [of f p rs] by (metis list.set_map)

lemma update_rows_Nil [simp]: "update_rows p f [] = []"
  by (simp add: update_rows_def)

lemma in_update_rows: "r \<in> set (update_rows p f rs) \<longleftrightarrow> (\<exists>r0 \<in> set rs. r = (if p r0 then f r0 else r0))"
  by (auto simp: update_rows_def)

lemma find_update_rows:
  "(\<And>r. rr_id (f r) = rr_id r) \<Longrightarrow>
   find (\<lambda>r. rr_id r = i) (update_rows p f rs) =
     map_option (\<lambda>r. if p r then f r else r) (find (\<lambda>r. rr_id r = i) rs)"
  by (induction rs) (auto simp: update_rows_def)

lemma affected_ids: "distinct (map rr_id rs) \<Longrightarrow>
    affected (\<lambda>r. rr_id r = i) rs = (if i \<in> rr_id ` set rs then 1 else 0)"
proof (induction rs)
  case (Cons r rs)
  then show ?case by (cases "rr_id r = i") (auto simp: affected_def)
qed (simp add: affected_def)

lemma find_add_row:
  assumes "db_inv up d"
  shows "find_revision (add_row now st b d) (db_rev_seq d + 1) = Some (new_row now st b d)"
proof -
  have "find (\<lambda>r. rr_id r = db_rev_seq d + 1) (db_revisions d) = None"
    using assms by (fastforce simp: find_None_iff db_inv_def)
  then show ?thesis by (simp add: find_revision_def add_row_def find_append new_row_def)
qed

lemma wp_query [wp_simps]: "wp (query f) Q E d \<longleftrightarrow>
    E DriverFailed d \<and> (case f d of Inr x \<Rightarrow> Q x d | Inl e \<Rightarrow> E e d)"
  by (simp add: query_def wp_call split: sum.splits)

lemma wp_insert_revision:
  assumes "db_inv up d" and "Q (rev_of (new_row now st b d)) (add_row now st b d)"
    and "\<And>e s. E e s"
  shows "wp (insert_revision now st b []) Q E d"
  using assms find_add_row [OF assms(1), of now st b]
  by (auto simp: insert_revision_def wp_simps wp_call sql_insert_revision_def Let_def scan_revision_eq add_row_def
      new_row_def intro!: wp_seq)

lemma rev_ids_add_row [simp]: "rev_ids (add_row now st b d) = insert (db_rev_seq d + 1) (rev_ids d)"
  by (auto simp: rev_ids_def add_row_def new_row_def)

lemma app_state_add_row [simp]: "db_app_state (add_row now st b d) = db_app_state d"
  by (simp add: add_row_def)

lemma rev_of_simps [simp]: "rn_id (rev_of r) = rr_id r" "rn_status (rev_of r) = rr_status r"
  by (simp_all add: rev_of_def)

lemma new_row_simps [simp]: "rr_id (new_row now st b d) = db_rev_seq d + 1" "rr_status (new_row now st b d) = st"
    "rr_payload (new_row now st b d) = b"
  by (simp_all add: new_row_def)

lemma wp_initialize:
  assumes "db_inv up d"
  shows "wp (initialize up now b) (\<lambda>rev s. db_revisions d = [] \<and>
      validate up (b_config (bundle_apply_defaults b)) = None \<and>
      rev = rev_of (new_row now Active (bundle_apply_defaults b) d) \<and>
      s = (add_row now Active (bundle_apply_defaults b) d)\<lparr>db_app_state := Some (db_rev_seq d + 1, db_rev_seq d + 1)\<rparr>)
    (\<lambda>e s. s = d) d"
proof (cases "validate up (b_config (bundle_apply_defaults b))")
  case None
  then have v: "initialize up now b = transaction DriverFailed
         (seq (query (\<lambda>d. Inr (length (db_revisions d)))) (\<lambda>n.
          if n \<noteq> 0 then fail AlreadyInitialized
          else seq (insert_revision now Active (bundle_apply_defaults b) []) (\<lambda>rev.
               seq (call DriverFailed (sql_insert_app_state (rn_id rev) (rn_id rev))) (\<lambda>_.
               ret rev))))"
    by (simp add: initialize_def Let_def)
  show ?thesis
    unfolding v using assms None
    by (intro wp_transaction wp_seq)
      (auto simp: wp_simps wp_call sql_insert_app_state_def intro!: wp_seq wp_insert_revision)
qed (simp add: initialize_def Let_def wp_simps)

lemma wp_save_draft:
  assumes "db_inv up d"
  shows "wp (save_draft up now b) (\<lambda>rev s. \<exists>a dr. db_app_state d = Some (a, dr) \<and>
      validate up (b_config (bundle_apply_defaults b)) = None \<and>
      rev = rev_of (new_row now Draft (bundle_apply_defaults b) d) \<and>
      s = (add_row now Draft (bundle_apply_defaults b) d)\<lparr>db_app_state := Some (a, db_rev_seq d + 1)\<rparr>)
    (\<lambda>e s. s = d) d"
proof (cases "validate up (b_config (bundle_apply_defaults b))")
  case None
  then have v: "save_draft up now b = transaction DriverFailed
         (seq (insert_revision now Draft (bundle_apply_defaults b) []) (\<lambda>rev.
          seq (call DriverFailed (sql_update_app_state (\<lambda>(a, _). (a, rn_id rev)))) (\<lambda>n.
          if n \<noteq> 1 then fail NotInitialized else ret rev)))"
    by (simp add: save_draft_def Let_def)
  show ?thesis
    unfolding v using assms None
    by (intro wp_transaction wp_seq wp_insert_revision)
      (auto simp: wp_simps wp_call sql_update_app_state_def db_inv_def split: option.splits prod.splits intro!: wp_seq)
qed (simp add: save_draft_def Let_def wp_simps)

lemma wp_revision_for:
  "(\<And>r s. db_app_state d = Some s \<Longrightarrow> find_revision d (col s) = Some r \<Longrightarrow> Q (rev_of r) d) \<Longrightarrow>
   (\<And>e. E e d) \<Longrightarrow> wp (revision_for col) Q E d"
  by (auto simp: revision_for_def wp_simps scan_revision_eq split: option.splits bind_splits)

lemma wp_sql_update [wp_simps]: "wp (call e (sql_update_revisions p f)) Q E d \<longleftrightarrow>
    E e d \<and> Q (affected p (db_revisions d)) (d\<lparr>db_revisions := update_rows p f (db_revisions d)\<rparr>)"
  by (simp add: wp_call sql_update_revisions_def)

lemma wp_update_app_state [wp_simps]: "wp (call e (sql_update_app_state f)) Q E d \<longleftrightarrow> E e d \<and>
    (case db_app_state d of None \<Rightarrow> Q 0 d
     | Some s \<Rightarrow> if fst (f s) \<in> rev_ids d \<and> snd (f s) \<in> rev_ids d then Q 1 (d\<lparr>db_app_state := Some (f s)\<rparr>)
         else E ConstraintFailed d)"
  by (auto simp: wp_call sql_update_app_state_def split: option.splits)

lemma wp_activate:
  assumes "db_inv up d"
  shows "wp (activate now i) (\<lambda>rev s. i \<in> rev_ids d \<and> s = activated now i d \<and>
      (\<exists>r. find_revision s i = Some r \<and> rev = rev_of r))
    (\<lambda>e s. s = d \<or> s = activated now i d \<and> i \<in> rev_ids d) d"
proof -
  have ids: "distinct (map rr_id (db_revisions d))" using assms by (simp add: db_inv_def)
  have "db_app_state d = None \<Longrightarrow> rev_ids d = {}" using assms by (simp add: db_inv_def rev_ids_def)
  with ids show ?thesis
    unfolding activate_def activate_tx_def
    by (intro wp_seq wp_transaction)
      (auto simp: wp_simps affected_ids activated_def rev_ids_def store_active_def
        split: option.splits intro!: wp_seq wp_revision_for)
qed

lemma wp_reset_draft:
  assumes "db_inv up d"
  shows "wp reset_draft_to_active (\<lambda>rev s. \<exists>a dr r. db_app_state d = Some (a, dr) \<and>
      s = d\<lparr>db_app_state := Some (a, a)\<rparr> \<and> find_revision d a = Some r \<and> rev = rev_of r)
    (\<lambda>e s. s = d \<or> (\<exists>a dr. db_app_state d = Some (a, dr) \<and> s = d\<lparr>db_app_state := Some (a, a)\<rparr>)) d"
  using assms unfolding reset_draft_to_active_def
  by (auto simp: wp_simps db_inv_def store_active_def find_revision_def split: option.splits
      intro!: wp_seq wp_revision_for)

lemma wp_prune: "wp prune_revisions (\<lambda>_ s. s = sql_prune d) (\<lambda>_ s. s = d) d"
  by (simp add: prune_revisions_def wp_call)

lemma wp_fail_revision: "wp (fail_revision i cause) (\<lambda>_ s. s = failed i cause d) (\<lambda>_ s. s = d) d"
  by (auto simp: fail_revision_def wp_simps failed_def intro!: wp_seq)

section \<open>The invariant\<close>

lemma db_inv_empty: "db_inv up empty_db"
  by (simp add: db_inv_def empty_db_def)

lemma payload_ok: "bundle_apply_defaults (bundle_apply_defaults b) = bundle_apply_defaults b"
  by (rule bundle_apply_defaults_idem)

lemma db_inv_initialize:
  assumes "db_inv up d" and "db_revisions d = []" and "validate up (b_config (bundle_apply_defaults b)) = None"
  shows "db_inv up ((add_row now Active (bundle_apply_defaults b) d)
     \<lparr>db_app_state := Some (db_rev_seq d + 1, db_rev_seq d + 1)\<rparr>)"
  using assms by (auto simp: db_inv_def add_row_def payload_ok rev_ids_def split: option.splits)

lemma db_inv_save_draft:
  assumes "db_inv up d" and "db_app_state d = Some (a, dr)"
    and "validate up (b_config (bundle_apply_defaults b)) = None"
  shows "db_inv up ((add_row now Draft (bundle_apply_defaults b) d)\<lparr>db_app_state := Some (a, db_rev_seq d + 1)\<rparr>)"
  using assms by (fastforce simp: db_inv_def add_row_def payload_ok rev_ids_def)

lemma activated_row:
  assumes "r \<in> set (db_revisions (activated now i d))"
  shows "\<exists>r0 \<in> set (db_revisions d). rr_id r = rr_id r0 \<and> rr_payload r = rr_payload r0 \<and>
    (rr_status r = Active \<longrightarrow> rr_id r = i)"
proof -
  from assms obtain r0 where "r0 \<in> set (db_revisions d)"
    "r = (let r1 = if rr_status r0 = Active then r0\<lparr>rr_status := Superseded\<rparr> else r0 in
       if rr_id r1 = i then r1\<lparr>rr_status := Active, rr_active_at := Some now, rr_error := None\<rparr> else r1)"
    by (auto simp: activated_def in_update_rows Let_def)
  then show ?thesis
    by (intro bexI [of _ r0]) (cases "rr_status r0 = Active"; cases "rr_id r0 = i"; simp)+
qed

lemma activated_ids [simp]: "map rr_id (db_revisions (activated now i d)) = map rr_id (db_revisions d)"
  by (simp add: activated_def)

lemma db_inv_activated:
  assumes "db_inv up d" and "i \<in> rev_ids d"
  shows "db_inv up (activated now i d)"
proof -
  have "rev_ids (activated now i d) = rev_ids d"
    unfolding rev_ids_def by (metis activated_ids list.set_map)
  moreover have "db_app_state (activated now i d) = Some (i, i)" "db_rev_seq (activated now i d) = db_rev_seq d"
    by (simp_all add: activated_def)
  moreover have "1 \<le> rr_id r \<and> rr_id r \<le> db_rev_seq d \<and> bundle_apply_defaults (rr_payload r) = rr_payload r \<and>
      validate up (b_config (rr_payload r)) = None \<and> (rr_status r = Active \<longrightarrow> rr_id r = i)"
    if "r \<in> set (db_revisions (activated now i d))" for r
  proof -
    from activated_row [OF that] obtain r0 where "r0 \<in> set (db_revisions d)" "rr_id r = rr_id r0"
      "rr_payload r = rr_payload r0" "rr_status r = Active \<longrightarrow> rr_id r = i" by blast
    with assms(1) show ?thesis by (simp add: db_inv_def)
  qed
  ultimately show ?thesis using assms by (simp add: db_inv_def)
qed

lemma db_inv_reset:
  assumes "db_inv up d" and "db_app_state d = Some (a, dr)"
  shows "db_inv up (d\<lparr>db_app_state := Some (a, a)\<rparr>)"
  using assms by (fastforce simp: db_inv_def rev_ids_def)

lemma db_inv_prune: "db_inv up d \<Longrightarrow> db_inv up (sql_prune d)"
  by (auto simp: db_inv_def sql_prune_def rev_ids_def distinct_map_filter image_iff split: option.splits)

lemma db_inv_failed: "db_inv up d \<Longrightarrow> db_inv up (failed i cause d)"
  by (auto simp: db_inv_def failed_def in_update_rows rev_ids_def split: option.splits)

section \<open>Histories\<close>

datatype store_op = OpInitialize int app_bundle | OpSaveDraft int app_bundle | OpActivate int int
  | OpResetDraft | OpPrune | OpFail int string | OpActive | OpDraft | OpPutMetric int int "string option"
  | OpMetrics int | OpGetImport string | OpPutImport cache_entry

definition store_step :: "(string \<Rightarrow> url option) \<Rightarrow> store_op \<Rightarrow> db \<times> bool list \<Rightarrow> db \<times> bool list" where
  "store_step up a w = (case a of
     OpInitialize now b \<Rightarrow> snd (initialize up now b w)
   | OpSaveDraft now b \<Rightarrow> snd (save_draft up now b w)
   | OpActivate now i \<Rightarrow> snd (activate now i w)
   | OpResetDraft \<Rightarrow> snd (reset_draft_to_active w)
   | OpPrune \<Rightarrow> snd (prune_revisions w)
   | OpFail i cause \<Rightarrow> snd (fail_revision i cause w)
   | OpActive \<Rightarrow> snd (store_active w)
   | OpDraft \<Rightarrow> snd (store_draft w)
   | OpPutMetric now ts p \<Rightarrow> snd (put_metric now ts p w)
   | OpMetrics l \<Rightarrow> snd (store_metrics l w)
   | OpGetImport u \<Rightarrow> snd (get_import_cache u w)
   | OpPutImport e \<Rightarrow> snd (put_import_cache e w))"

lemma db_inv_frame [simp]:
  "db_inv up (d\<lparr>db_metrics := m\<rparr>) = db_inv up d" "db_inv up (d\<lparr>db_import_cache := c\<rparr>) = db_inv up d"
  by (simp_all add: db_inv_def rev_ids_def split: option.split)

lemma wp_put_metric:
  "wp (put_metric now ts p) (\<lambda>_ s. \<exists>q. p = Some q \<and> s = d\<lparr>db_metrics :=
      filter (\<lambda>m. \<not> fst m < now - 24 * 60 * 60) (sql_replace_metric ts q (db_metrics d))\<rparr>) (\<lambda>_ s. s = d) d"
  by (cases p) (auto simp: put_metric_def wp_simps wp_call intro!: wp_transaction wp_seq)

lemma preserves_revisions:
  "preserves (db_inv up) (initialize up now b)" "preserves (db_inv up) (save_draft up now b)"
  "preserves (db_inv up) (activate now i)" "preserves (db_inv up) reset_draft_to_active"
  "preserves (db_inv up) prune_revisions" "preserves (db_inv up) (fail_revision i cause)"
  unfolding preserves_def
  subgoal by (blast intro: wp_mono [OF wp_initialize] db_inv_initialize)
  subgoal by (blast intro: wp_mono [OF wp_save_draft] db_inv_save_draft)
  subgoal by (blast intro: wp_mono [OF wp_activate] db_inv_activated)
  subgoal by (blast intro: wp_mono [OF wp_reset_draft] db_inv_reset)
  subgoal by (blast intro: wp_mono [OF wp_prune] db_inv_prune)
  subgoal by (blast intro: wp_mono [OF wp_fail_revision] db_inv_failed)
  done

lemma preserves_query [preserves_rules]: "preserves I (query f)"
  unfolding query_def by (rule preserves_call) simp

lemma preserves_reads:
  "preserves I store_active" "preserves I store_draft" "preserves I (store_metrics l)" "preserves I (get_import_cache u)"
  unfolding store_active_def store_draft_def revision_for_def store_metrics_def get_import_cache_def
  by (rule preserves_query)+

lemma preserves_tables: "preserves (db_inv up) (put_metric now ts p)" "preserves (db_inv up) (put_import_cache e)"
  subgoal by (auto simp: preserves_def intro!: wp_mono [OF wp_put_metric])
  subgoal by (simp add: preserves_def put_import_cache_def wp_call sql_put_import_def)
  done

lemma store_step_inv: "db_inv up (fst w) \<Longrightarrow> db_inv up (fst (store_step up a w))"
  unfolding store_step_def
  using preserves_revisions preserves_reads [of "db_inv up"] preserves_tables
  by (cases a) (simp_all add: preserves_run)

lemma store_run_inv: "db_inv up (fst w) \<Longrightarrow> db_inv up (fst (fold (store_step up) as w))"
  by (induction as arbitrary: w) (simp_all add: store_step_inv)

text \<open>
  Claim C16. In every state that any sequence of store operations reaches from a new database,
  whichever statements, begins and commits the driver makes fail, revision ids are unique and
  within the sequence, the active and the draft pointer name existing revisions (there are none before
  the initialisation), at most the revision the active pointer names has the status \<open>Active\<close>, and
  every payload is a configuration with its defaults filled in that passes validation.
\<close>

theorem store_reachable_inv: "db_inv up (fst (fold (store_step up) as (empty_db, fs)))"
  by (simp add: store_run_inv db_inv_empty)

section \<open>Saving and reading\<close>

lemma find_frame [simp]: "find_revision (d\<lparr>db_app_state := s\<rparr>) i = find_revision d i"
  by (simp add: find_revision_def)

lemma find_add_row_old:
  assumes "db_inv up d" and "i \<in> rev_ids d"
  shows "find_revision (add_row now st b d) i = find_revision d i"
  using find_revision_ids [OF assms(2)] by (auto simp: find_revision_def add_row_def find_append)

lemma revision_for_run: "revision_for col (d, []) =
    (scan_revision (Option.bind (db_app_state d) (\<lambda>s. find_revision d (col s))), d, [])"
  by (simp add: revision_for_def query_def call_cases)

text \<open>
  A draft that is saved is read back: the revision that \<^verbatim>\<open>SaveDraft\<close> returns is the one
  \<^verbatim>\<open>Draft\<close> reads, with the bundle given, its defaults filled in, and a new id; \<^verbatim>\<open>Active\<close> reads what it
  read before. A save that fails changes nothing.
\<close>

theorem save_draft_roundtrip:
  assumes "db_inv up d" and "save_draft up now b (d, fs) = (r, d', fs')"
  shows "case r of Inl e \<Rightarrow> d' = d
    | Inr new \<Rightarrow> fst (store_draft (d', [])) = Inr new \<and> rn_bundle new = bundle_apply_defaults b \<and>
        rn_id new \<notin> rev_ids d \<and> fst (store_active (d', [])) = fst (store_active (d, []))"
proof -
  have fresh: "db_rev_seq d + 1 \<notin> rev_ids d" using assms(1) by (force simp: db_inv_def rev_ids_def)
  have a: "db_app_state d = Some (a, dr) \<Longrightarrow> a \<in> rev_ids d" for a dr using assms(1) by (simp add: db_inv_def)
  show ?thesis
    using wp_run [OF wp_save_draft [OF assms(1)] assms(2)] fresh find_add_row [OF assms(1)] a
    by (cases r) (auto simp: store_draft_def store_active_def revision_for_run scan_revision_eq
        find_add_row_old [OF assms(1)] rev_of_def [of "new_row _ _ _ _"] payload_ok)
qed

lemma sample_valid: "validate (\<lambda>_. None) (b_config (bundle_apply_defaults sample_bundle)) = None"
  by code_simp

lemma initialize_run:
  assumes "validate up (b_config (bundle_apply_defaults b)) = None"
  shows "initialize up now b (empty_db, []) = (Inr (rev_of (new_row now Active (bundle_apply_defaults b) empty_db)),
    (add_row now Active (bundle_apply_defaults b) empty_db)\<lparr>db_app_state := Some (1, 1)\<rparr>, [])"
  using assms
  by (simp add: initialize_def Let_def act_defs query_def insert_revision_def sql_insert_revision_def
      sql_insert_app_state_def scan_revision_eq find_revision_def add_row_def new_row_def empty_db_def rev_ids_def)

lemma save_draft_run:
  assumes "db_inv up d" and "validate up (b_config (bundle_apply_defaults b)) = None"
    and "db_app_state d = Some (a, dr)" and "db_rev_seq d < 2 ^ 63 - 1"
  shows "save_draft up now b (d, []) = (Inr (rev_of (new_row now Draft (bundle_apply_defaults b) d)),
    (add_row now Draft (bundle_apply_defaults b) d)\<lparr>db_app_state := Some (a, db_rev_seq d + 1)\<rparr>, [])"
proof -
  have "a \<in> rev_ids (add_row now Draft (bundle_apply_defaults b) d)" using assms by (simp add: db_inv_def)
  moreover have "sql_insert_revision now Draft (bundle_apply_defaults b) [] d =
      (Inr (db_rev_seq d + 1), add_row now Draft (bundle_apply_defaults b) d)"
    using assms(4) by (simp add: sql_insert_revision_def Let_def add_row_def new_row_def)
  ultimately show ?thesis
    using assms find_add_row [OF assms(1)]
    by (simp add: save_draft_def Let_def act_defs query_def insert_revision_def scan_revision_eq
        sql_update_app_state_def)
qed

definition sample_db :: db where
  "sample_db = fst (snd (initialize (\<lambda>_. None) 0 sample_bundle (empty_db, [])))"

lemma sample_db_inv: "db_inv (\<lambda>_. None) sample_db"
  using store_step_inv [of "\<lambda>_. None" "(empty_db, [])" "OpInitialize 0 sample_bundle"]
  by (simp add: sample_db_def store_step_def db_inv_empty)

lemma sample_db_simps: "db_app_state sample_db = Some (1, 1)" "db_rev_seq sample_db = 1"
  unfolding sample_db_def initialize_run [OF sample_valid] by (simp_all add: add_row_def empty_db_def)

theorem save_draft_roundtrip_witness:
  "\<exists>new d'. save_draft (\<lambda>_. None) 5 sample_bundle (sample_db, []) = (Inr new, d', []) \<and>
     fst (store_draft (d', [])) = Inr new \<and> rn_id new = 2"
  using save_draft_run [OF sample_db_inv sample_valid, of 1 1 5]
    save_draft_roundtrip [OF sample_db_inv, of 5 sample_bundle "[]"]
  by (auto simp: sample_db_simps)

section \<open>Possible outcomes\<close>

lemma may_query: "f d = r \<Longrightarrow> may (query f) d r d"
  unfolding query_def by (rule may_call) simp

lemma may_store_active:
  "db_app_state d = Some (a, dr) \<Longrightarrow> find_revision d a = Some row \<Longrightarrow> may store_active d (Inr (rev_of row)) d"
  unfolding store_active_def revision_for_def by (rule may_query) (simp add: scan_revision_eq)

lemma may_save_draft:
  assumes inv: "db_inv up d" and v: "validate up (b_config (bundle_apply_defaults b)) = None"
    and st: "db_app_state d = Some (a, dr)" and room: "db_rev_seq d < 2 ^ 63 - 1"
  shows "may (save_draft up now b) d (Inr (rev_of (new_row now Draft (bundle_apply_defaults b) d)))
    ((add_row now Draft (bundle_apply_defaults b) d)\<lparr>db_app_state := Some (a, db_rev_seq d + 1)\<rparr>)"
proof -
  let ?b = "bundle_apply_defaults b" and ?d = "add_row now Draft (bundle_apply_defaults b) d"
  have a0: "a \<in> rev_ids d" using inv st by (simp add: db_inv_def)
  then have a: "a \<in> rev_ids ?d" by simp
  have ins: "sql_insert_revision now Draft ?b [] d = (Inr (db_rev_seq d + 1), ?d)"
    using room by (simp add: sql_insert_revision_def Let_def add_row_def new_row_def)
  have "may (insert_revision now Draft ?b []) d (Inr (rev_of (new_row now Draft ?b d))) ?d"
    unfolding insert_revision_def
    by (rule may_seq, rule may_call, rule ins, rule may_query) (simp add: scan_revision_eq find_add_row [OF inv])
  moreover have "may (call DriverFailed (sql_update_app_state (\<lambda>(a, _). (a, db_rev_seq d + 1)))) ?d (Inr 1)
      (?d\<lparr>db_app_state := Some (a, db_rev_seq d + 1)\<rparr>)"
    by (rule may_call) (simp add: sql_update_app_state_def st a0)
  moreover have "may (if (1::nat) \<noteq> 1 then fail NotInitialized else ret x) t (Inr x) t" for x :: revision and t
    by (simp add: may_basic)
  ultimately show ?thesis
    unfolding save_draft_def Let_def v option.case
    by (intro may_transaction) (auto intro!: may_seq)
qed

lemma may_activate_tx:
  assumes inv: "db_inv up d" and i: "i \<in> rev_ids d" and st: "db_app_state d = Some p"
  shows "may (activate_tx now i) d (Inr ()) (activated now i d)"
proof -
  define f :: "revision_row \<Rightarrow> revision_row" where "f = (\<lambda>r. r\<lparr>rr_status := Superseded\<rparr>)"
  define g :: "revision_row \<Rightarrow> revision_row" where "g = (\<lambda>r. r\<lparr>rr_status := Active, rr_active_at := Some now, rr_error := None\<rparr>)"
  define d1 where "d1 = d\<lparr>db_revisions := update_rows (\<lambda>r. rr_status r = Active) f (db_revisions d)\<rparr>"
  define d2 where "d2 = d1\<lparr>db_revisions := update_rows (\<lambda>r. rr_id r = i) g (db_revisions d1)\<rparr>"
  have ids: "map rr_id (db_revisions d1) = map rr_id (db_revisions d)" "map rr_id (db_revisions d2) = map rr_id (db_revisions d)"
    by (simp_all add: d1_def d2_def f_def g_def)
  then have in2: "i \<in> rev_ids d2" and in1: "i \<in> rr_id ` set (db_revisions d1)"
    using i by (metis rev_ids_def list.set_map)+
  have d1: "may (call DriverFailed (sql_update_revisions (\<lambda>r. rr_status r = Active) f)) d
      (Inr (affected (\<lambda>r. rr_status r = Active) (db_revisions d))) d1"
    by (rule may_call) (simp add: sql_update_revisions_def d1_def)
  have "distinct (map rr_id (db_revisions d1))" using inv ids(1) by (simp add: db_inv_def)
  then have "affected (\<lambda>r. rr_id r = i) (db_revisions d1) = 1" by (simp add: affected_ids in1)
  then have d2: "may (call DriverFailed (sql_update_revisions (\<lambda>r. rr_id r = i) g)) d1 (Inr 1) d2"
    by (intro may_call) (simp add: sql_update_revisions_def d2_def)
  have "d2\<lparr>db_app_state := Some (i, i)\<rparr> = activated now i d"
    by (simp add: d2_def d1_def activated_def f_def g_def)
  then have d3: "may (call DriverFailed (sql_update_app_state (\<lambda>_. (i, i)))) d2 (Inr 1) (activated now i d)"
    using st in2 by (intro may_call) (simp add: sql_update_app_state_def d2_def d1_def)
  have "may (if (1::nat) \<noteq> 1 then fail (RevisionNotFound i)
      else seq (call DriverFailed (sql_update_app_state (\<lambda>_. (i, i)))) (\<lambda>_. ret ())) d2 (Inr ()) (activated now i d)"
    using may_seq [OF d3 may_basic(1)] by simp
  then show ?thesis
    unfolding activate_tx_def f_def [symmetric] g_def [symmetric]
    by (intro may_transaction may_seq [OF d1] may_seq [OF d2])
qed

text \<open>The activation commits, and the read that follows succeeds or fails.\<close>

lemma may_activate:
  assumes "db_inv up d" and "i \<in> rev_ids d" and "db_app_state d = Some p"
  shows "\<exists>new. may (activate now i) d (Inr new) (activated now i d)"
    and "may (activate now i) d (Inl DriverFailed) (activated now i d)"
proof -
  have "i \<in> rev_ids (activated now i d)" using assms(2) by (metis activated_ids list.set_map rev_ids_def)
  then obtain row where "find_revision (activated now i d) i = Some row" using find_revision_ids by blast
  then have "may store_active (activated now i d) (Inr (rev_of row)) (activated now i d)"
    by (intro may_store_active) (auto simp: activated_def)
  then show "\<exists>new. may (activate now i) d (Inr new) (activated now i d)"
    unfolding activate_def by (blast intro: may_seq may_activate_tx [OF assms])
  show "may (activate now i) d (Inl DriverFailed) (activated now i d)"
    unfolding activate_def by (rule may_seq [OF may_activate_tx [OF assms]])
      (simp add: store_active_def revision_for_def query_def may_fault)
qed

lemma may_reset_draft:
  assumes inv: "db_inv up d" and st: "db_app_state d = Some (a, dr)" and row: "find_revision d a = Some row"
  shows "may reset_draft_to_active d (Inr (rev_of row)) (d\<lparr>db_app_state := Some (a, a)\<rparr>)"
proof -
  have "may (call DriverFailed (sql_update_app_state (\<lambda>(a, _). (a, a)))) d (Inr 1) (d\<lparr>db_app_state := Some (a, a)\<rparr>)"
    using inv st by (intro may_call) (simp add: sql_update_app_state_def db_inv_def)
  then show ?thesis
    unfolding reset_draft_to_active_def
    by (rule may_seq) (simp add: may_store_active [of _ a a] row)
qed

lemma may_prune: "may prune_revisions d (Inr ()) (sql_prune d)"
  unfolding prune_revisions_def by (rule may_call) simp

section \<open>The import cache\<close>

definition store_cache :: "db cache_ops" where
  "store_cache = \<lparr>ic_get = (\<lambda>d u. to_option (fst (get_import_cache u (d, [])))),
     ic_put = (\<lambda>d e. (case put_import_cache e (d, []) of (Inr _, d', _) \<Rightarrow> Some d' | (Inl _, _) \<Rightarrow> None))\<rparr>"

interpretation db_cache: import_cache store_cache
  by unfold_locales
    (auto simp: store_cache_def get_import_cache_def put_import_cache_def query_def call_cases to_option_def
      sql_put_import_def)

text \<open>
  Claim C17. A rule set that was downloaded into the database is not lost: if a later request for
  the same URL is answered with 304, the resolver yields the body it stored, and reading one import
  never changes the cached entry of another URL.
\<close>

theorem import_cache_serves_304:
  assumes "resolver_read sha env (Some store_cache) d imp = (Inr body, d')"
    and "im_path imp = []" and "body \<noteq> []" and "d' \<noteq> d"
    and "\<And>rq. rq_url rq = im_url imp \<Longrightarrow> \<exists>resp. http_do env' rq = Some resp \<and> rs_status resp = 304"
  shows "resolver_read sha env' (Some store_cache) d' imp = (Inr body, d') \<and>
    (\<forall>u. u \<noteq> im_url imp \<longrightarrow> db_import_cache d' u = db_import_cache d u)"
proof -
  have "ic_get store_cache e u = Some (db_import_cache e u)" for e u
    by (simp add: store_cache_def get_import_cache_def query_def call_cases to_option_def)
  with db_cache.read_after_download [OF assms] db_cache.read_keeps_other [OF assms(1)]
  show ?thesis by auto
qed

definition sample_import :: rule_import where
  "sample_import = \<lparr>im_name = ''a'', im_priority = 0, im_type = ''mihomo'', im_path = [], im_url = ''http://r'',
     im_format = ''domain'', im_exit = ''direct'', im_dns_pool = []\<rparr>"

definition sample_net :: "nat \<Rightarrow> net_env" where
  "sample_net status = no_net\<lparr>http_do := (\<lambda>rq. Some \<lparr>rs_status = status, rs_etag = ''e'',
     rs_last_modified = [], rs_body = ''payload''\<rparr>)\<rparr>"

theorem import_cache_serves_304_witness:
  "fst (resolver_read (\<lambda>_. []) (sample_net 304) (Some store_cache)
     (snd (resolver_read (\<lambda>_. []) (sample_net 200) (Some store_cache) empty_db sample_import)) sample_import)
   = Inr ''payload''"
proof -
  define r where "r = resolver_read (\<lambda>_. []) (sample_net 200) (Some store_cache) empty_db sample_import"
  have "fst r = Inr ''payload''" and "db_import_cache (snd r) ''http://r'' \<noteq> None"
    unfolding r_def by code_simp+
  then have "resolver_read (\<lambda>_. []) (sample_net 200) (Some store_cache) empty_db sample_import =
      (Inr ''payload'', snd r)" and "snd r \<noteq> empty_db"
    by (auto simp: r_def empty_db_def simp flip: surjective_pairing intro: prod_eqI)
  moreover have "im_path sample_import = []" "\<And>rq. \<exists>resp. http_do (sample_net 304) rq = Some resp \<and> rs_status resp = 304"
    by (simp_all add: sample_import_def sample_net_def)
  ultimately have "fst (resolver_read (\<lambda>_. []) (sample_net 304) (Some store_cache) (snd r) sample_import) = Inr ''payload''"
    by (subst import_cache_serves_304 [THEN conjunct1]) auto
  then show ?thesis by (simp add: r_def)
qed

end
