(* ===== verification/Supervisor.thy ===== *)
theory Supervisor
  imports Bundle Fallible Render_Props
begin

text \<open>
  \<^verbatim>\<open>internal/engine/supervisor.go\<close>: preparing the files of a revision, starting and stopping the group
  of managed processes, and the switch from one revision to the next with its rollback. Also the
  clean-up of \<^verbatim>\<open>internal/service/cleanup.go\<close>, which removes what \<^verbatim>\<open>Prepare\<close> wrote.

  The host is the record \<open>supervisor\<close>: the process groups ever started (with what the code tells of
  them), the current one, the loaded nftables ruleset, the directories under the state directory and
  the channel of the fatal error. A process, a file operation, a check command, the readiness wait
  and the shutdown wait are fallible calls; a group whose shutdown timed out may still run. The
  operations hold the supervisor's mutex, so each is one step.
\<close>

datatype sup_error = CommandMissing string | RenderFailed render_error | RenderPanic | FileFailed
  | CheckFailed string | StartFailed string | NotReady | ShutdownTimeout | AlreadyRunning
  | GroupExited | Joined sup_error sup_error | RestoreNft sup_error | RestoreGroup sup_error

text \<open>\<^verbatim>\<open>errors.Is(err, errShutdownTimeout)\<close>.\<close>

fun is_timeout :: "sup_error \<Rightarrow> bool" where
  "is_timeout ShutdownTimeout = True"
| "is_timeout (Joined e e') = (is_timeout e \<or> is_timeout e')"
| "is_timeout (RestoreNft e) = is_timeout e"
| "is_timeout (RestoreGroup e) = is_timeout e"
| "is_timeout _ = False"

record proc_group =
  pg_root :: string
  pg_bundle :: app_bundle
  pg_cmds :: "string list list"
  pg_stopped :: bool
  pg_alive :: bool

record supervisor =
  su_groups :: "proc_group list"
  su_current :: "nat option"
  su_fatal :: "sup_error option"
  su_nft :: "string option"
  su_dirs :: "(string \<times> output_file list) list"
  su_state_dir :: string

type_synonym 'a sup_act = "(supervisor, sup_error, 'a) act"

definition new_supervisor :: "string \<Rightarrow> supervisor" where
  "new_supervisor dir = \<lparr>su_groups = [], su_current = None, su_fatal = None, su_nft = None, su_dirs = [],
     su_state_dir = dir\<rparr>"

section \<open>Preparing a revision\<close>

definition require_runtime_commands :: "app_bundle \<Rightarrow> unit sup_act" where
  "require_runtime_commands b =
     (if list_ex (\<lambda>e. ex_type e = ''shadowsocks-rust'') (cf_exits (b_config b))
      then call (CommandMissing ''sslocal'') (\<lambda>s. (Inr (), s)) else ret ())"

definition remove_all :: "string \<Rightarrow> unit sup_act" where
  "remove_all root = call FileFailed (\<lambda>s. (Inr (), s\<lparr>su_dirs := filter (\<lambda>d. fst d \<noteq> root) (su_dirs s)\<rparr>))"

definition write_all :: "string \<Rightarrow> output_file list \<Rightarrow> unit sup_act" where
  "write_all root files = call FileFailed (\<lambda>s. (Inr (), s\<lparr>su_dirs := su_dirs s @ [(root, files)]\<rparr>))"

definition run_check :: "string list \<Rightarrow> unit sup_act" where
  "run_check cmd = call (CheckFailed (hd cmd)) (\<lambda>s. (Inr (), s))"

fun run_checks :: "string list list \<Rightarrow> unit sup_act" where
  "run_checks [] = ret ()"
| "run_checks (c # cs) = seq (run_check c) (\<lambda>_. run_checks cs)"

definition prepare_checks :: "string \<Rightarrow> app_bundle \<Rightarrow> string list list" where
  "prepare_checks root b =
     [[dn_binary (cf_dns (b_config b)), ''test'', ''-c'', path_join [root, ''smartdns'', ''smartdns.conf'']],
      [''haproxy'', ''-c'', ''-f'', path_join [root, ''haproxy'', ''haproxy.cfg'']],
      [''nft'', ''-c'', ''-f'', path_join [root, ''nftables'', ''5gws.nft'']]]"

definition prepare_at :: "(string \<Rightarrow> string) \<Rightarrow> string \<Rightarrow> app_bundle \<Rightarrow> unit sup_act" where
  "prepare_at sha root b =
     seq (require_runtime_commands b) (\<lambda>_.
     case generate_at sha (b_config b) (bundle_normalized b) root of
       Panic \<Rightarrow> fail RenderPanic
     | Ret (Inl e) \<Rightarrow> fail (RenderFailed e)
     | Ret (Inr files) \<Rightarrow>
         seq (remove_all root) (\<lambda>_.
         seq (write_all root files) (\<lambda>_.
         run_checks (prepare_checks root b))))"

definition revision_root :: "string \<Rightarrow> int \<Rightarrow> string" where
  "revision_root dir i = path_join [dir, ''revisions'', int_str i]"

definition prepare :: "(string \<Rightarrow> string) \<Rightarrow> int \<Rightarrow> app_bundle \<Rightarrow> string sup_act" where
  "prepare sha i b = seq (observe (\<lambda>s. revision_root (su_state_dir s) i)) (\<lambda>root.
     seq (prepare_at sha root b) (\<lambda>_. ret root))"

text \<open>\<open>tmp\<close> is the directory that \<^verbatim>\<open>os.MkdirTemp\<close> makes; the deferred \<^verbatim>\<open>os.RemoveAll\<close> ignores its error.\<close>

definition preflight :: "(string \<Rightarrow> string) \<Rightarrow> string \<Rightarrow> app_bundle \<Rightarrow> unit sup_act" where
  "preflight sha tmp b =
     seq (call FileFailed (\<lambda>s. (Inr (), s\<lparr>su_dirs := su_dirs s @ [(tmp, [])]\<rparr>))) (\<lambda>_.
     seq (attempt (prepare_at sha tmp b)) (\<lambda>r.
     seq (attempt (remove_all tmp)) (\<lambda>_.
     case r of Inl e \<Rightarrow> fail e | Inr _ \<Rightarrow> ret ())))"

section \<open>Process groups\<close>

definition update_group :: "nat \<Rightarrow> (proc_group \<Rightarrow> proc_group) \<Rightarrow> supervisor \<Rightarrow> supervisor" where
  "update_group i f s = s\<lparr>su_groups := (su_groups s)[i := f (su_groups s ! i)]\<rparr>"

definition report_fatal :: "sup_error \<Rightarrow> unit sup_act" where
  "report_fatal e = modify (\<lambda>s. case su_fatal s of None \<Rightarrow> s\<lparr>su_fatal := Some e\<rparr> | Some _ \<Rightarrow> s)"

text \<open>
  \<^verbatim>\<open>stopGroup\<close>: the group is marked, cancelled and signalled; then its processes are waited for.
\<close>

definition stop_group :: "nat \<Rightarrow> unit sup_act" where
  "stop_group i =
     seq (modify (update_group i (\<lambda>g. g\<lparr>pg_stopped := True\<rparr>))) (\<lambda>_.
     call ShutdownTimeout (\<lambda>s. (Inr (), update_group i (\<lambda>g. g\<lparr>pg_alive := False\<rparr>) s)))"

definition managed_commands :: "(string \<Rightarrow> string) \<Rightarrow> string \<Rightarrow> app_bundle \<Rightarrow> string list list" where
  "managed_commands sha root b =
     [[dn_binary (cf_dns (b_config b)), ''run'', ''-c'', path_join [root, ''smartdns'', ''smartdns.conf'']],
      [''haproxy'', ''-db'', ''-f'', path_join [root, ''haproxy'', ''haproxy.cfg'']]]
     @ map (\<lambda>e. [''sslocal'', ''-c'', path_join [root, ''ssrust'', config_file_name sha e]])
         (filter (\<lambda>e. ex_type e = ''shadowsocks-rust'') (cf_exits (b_config b)))"

fun start_commands :: "nat \<Rightarrow> string list list \<Rightarrow> unit sup_act" where
  "start_commands i [] = ret ()"
| "start_commands i (c # cs) =
     seq (call (StartFailed (hd c)) (\<lambda>s. (Inr (), update_group i (\<lambda>g. g\<lparr>pg_cmds := pg_cmds g @ [c]\<rparr>) s)))
       (\<lambda>_. start_commands i cs)"

definition abort_group :: "nat \<Rightarrow> sup_error \<Rightarrow> nat sup_act" where
  "abort_group i e = seq (attempt (stop_group i)) (\<lambda>r.
     case r of Inl e' \<Rightarrow> fail (Joined e e') | Inr _ \<Rightarrow> fail e)"

definition new_group :: "string \<Rightarrow> app_bundle \<Rightarrow> proc_group" where
  "new_group root b = \<lparr>pg_root = root, pg_bundle = b, pg_cmds = [], pg_stopped = False, pg_alive = True\<rparr>"

definition start_group :: "(string \<Rightarrow> string) \<Rightarrow> string \<Rightarrow> app_bundle \<Rightarrow> nat sup_act" where
  "start_group sha root b =
     seq (observe (\<lambda>s. length (su_groups s))) (\<lambda>i.
     seq (modify (\<lambda>s. s\<lparr>su_groups := su_groups s @ [new_group root b]\<rparr>)) (\<lambda>_.
     seq (attempt (start_commands i (managed_commands sha root b))) (\<lambda>r.
     case r of Inl e \<Rightarrow> abort_group i e
     | Inr _ \<Rightarrow> seq (attempt (call NotReady (\<lambda>s. (Inr (), s)))) (\<lambda>r.
         case r of Inl e \<Rightarrow> abort_group i e | Inr _ \<Rightarrow> ret i))))"

definition set_current :: "nat option \<Rightarrow> unit sup_act" where
  "set_current c = modify (\<lambda>s. s\<lparr>su_current := c\<rparr>)"

definition load_nft :: "string \<Rightarrow> unit sup_act" where
  "load_nft root = call (CheckFailed ''nft'') (\<lambda>s. (Inr (), s\<lparr>su_nft := Some root\<rparr>))"

definition sup_start :: "(string \<Rightarrow> string) \<Rightarrow> string \<Rightarrow> app_bundle \<Rightarrow> unit sup_act" where
  "sup_start sha root b = seq (observe su_current) (\<lambda>c.
     if c \<noteq> None then fail AlreadyRunning
     else seq (start_group sha root b) (\<lambda>i. set_current (Some i)))"

definition sup_boot :: "(string \<Rightarrow> string) \<Rightarrow> string \<Rightarrow> app_bundle \<Rightarrow> unit sup_act" where
  "sup_boot sha root b = seq (load_nft root) (\<lambda>_. sup_start sha root b)"

text \<open>\<^verbatim>\<open>restoreLocked\<close> reports what it cannot restore and returns nothing.\<close>

definition restore_locked :: "(string \<Rightarrow> string) \<Rightarrow> nat \<Rightarrow> unit sup_act" where
  "restore_locked sha p = seq (observe (\<lambda>s. su_groups s ! p)) (\<lambda>g.
     seq (attempt (load_nft (pg_root g))) (\<lambda>r.
     case r of Inl e \<Rightarrow> report_fatal (RestoreNft e)
     | Inr _ \<Rightarrow> seq (attempt (start_group sha (pg_root g) (pg_bundle g))) (\<lambda>r.
         case r of Inl e \<Rightarrow> report_fatal (RestoreGroup e)
         | Inr i \<Rightarrow> set_current (Some i))))"

definition restore_if :: "(string \<Rightarrow> string) \<Rightarrow> nat option \<Rightarrow> unit sup_act" where
  "restore_if sha previous = (case previous of None \<Rightarrow> ret () | Some p \<Rightarrow> restore_locked sha p)"

definition stop_previous :: "nat option \<Rightarrow> unit sup_act" where
  "stop_previous previous = (case previous of None \<Rightarrow> ret ()
     | Some p \<Rightarrow> seq (attempt (stop_group p)) (\<lambda>r.
         case r of Inl e \<Rightarrow> seq (report_fatal e) (\<lambda>_. fail e) | Inr _ \<Rightarrow> ret ()))"

definition sup_apply :: "(string \<Rightarrow> string) \<Rightarrow> string \<Rightarrow> app_bundle \<Rightarrow> unit sup_act" where
  "sup_apply sha root b = seq (observe su_current) (\<lambda>previous.
     seq (stop_previous previous) (\<lambda>_.
     seq (attempt (load_nft root)) (\<lambda>r.
     case r of Inl e \<Rightarrow> seq (restore_if sha previous) (\<lambda>_. fail e)
     | Inr _ \<Rightarrow> seq (attempt (start_group sha root b)) (\<lambda>r.
         case r of Inl e \<Rightarrow>
             if is_timeout e then seq (report_fatal e) (\<lambda>_. fail e)
             else seq (restore_if sha previous) (\<lambda>_. fail e)
         | Inr i \<Rightarrow> set_current (Some i)))))"

definition sup_stop :: "unit sup_act" where
  "sup_stop = seq (observe su_current) (\<lambda>c. case c of None \<Rightarrow> ret ()
     | Some p \<Rightarrow> seq (attempt (stop_group p)) (\<lambda>r.
         seq (case r of Inl e \<Rightarrow> report_fatal e | Inr _ \<Rightarrow> ret ()) (\<lambda>_. set_current None)))"

text \<open>\<^verbatim>\<open>watch\<close>: what happens when a process of group \<open>i\<close> exits.\<close>

definition group_exited :: "nat \<Rightarrow> unit sup_act" where
  "group_exited i = seq (observe (\<lambda>s. i < length (su_groups s) \<and> \<not> pg_stopped (su_groups s ! i) \<and> su_current s = Some i))
     (\<lambda>b. if b then report_fatal GroupExited else ret ())"

section \<open>Status and readiness addresses\<close>

text \<open>\<^verbatim>\<open>Status\<close> without the process ids: the programs of the current group and the gateway.\<close>

definition sup_status :: "(string \<Rightarrow> string) \<Rightarrow> supervisor \<Rightarrow> string list" where
  "sup_status base s = (case su_current s of None \<Rightarrow> []
     | Some i \<Rightarrow> map (\<lambda>c. base (hd c)) (pg_cmds (su_groups s ! i)) @ [''gateway''])"

definition loopback_address :: "string \<Rightarrow> string" where
  "loopback_address a = (case split_host_port a of None \<Rightarrow> a | Some (_, p) \<Rightarrow> join_host_port ''127.0.0.1'' p)"

definition readiness_addresses :: "app_bundle \<Rightarrow> string list" where
  "readiness_addresses b = (let c = b_config b in
     [loopback_address (dn_listen_tcp (cf_dns c)),
      join_host_port ''127.0.0.1'' (int_str (nw_http_redirect_port (cf_network c))),
      join_host_port ''127.0.0.1'' (int_str (nw_https_redirect_port (cf_network c)))]
     @ map (\<lambda>e. join_host_port (ex_listen_address e) (int_str (ex_listen_port e)))
         (filter (\<lambda>e. ex_type e = ''shadowsocks-rust'') (cf_exits c)))"

section \<open>Removing revision directories\<close>

text \<open>The entries of \<open>root\<close> with their names.\<close>

definition dir_entry :: "string \<Rightarrow> string \<Rightarrow> string option" where
  "dir_entry root path = (if has_prefix path (root @ ''/'')
     then let n = drop (length root + 1) path in if CHR ''/'' \<in> set n then None else Some n else None)"

fun prune_entries :: "string \<Rightarrow> int list \<Rightarrow> string list \<Rightarrow> unit sup_act" where
  "prune_entries root keep [] = ret ()"
| "prune_entries root keep (n # ns) =
     (case atoi n of
        None \<Rightarrow> prune_entries root keep ns
      | Some i \<Rightarrow> if i \<in> set keep then prune_entries root keep ns
          else seq (remove_all (path_join [root, n])) (\<lambda>_. prune_entries root keep ns))"

definition prune_revision_dirs :: "string \<Rightarrow> int list \<Rightarrow> unit sup_act" where
  "prune_revision_dirs dir keep = (let root = path_join [dir, ''revisions''] in
     seq (call FileFailed (\<lambda>s. (Inr (List.map_filter (\<lambda>d. dir_entry root (fst d)) (su_dirs s)), s)))
       (prune_entries root keep))"

end
