(* ===== verification/Supervisor_Props.thy ===== *)
theory Supervisor_Props
  imports Supervisor
begin

text \<open>
  What the supervisor keeps: at most the current group runs unsignalled, with all its commands and
  its own ruleset loaded, and a switch either completes or leaves the previous configuration
  current, running unless the failure was reported as fatal.
\<close>

definition running :: "proc_group \<Rightarrow> bool" where
  "running g \<longleftrightarrow> pg_alive g \<and> \<not> pg_stopped g"

definition sup_inv :: "(string \<Rightarrow> string) \<Rightarrow> supervisor \<Rightarrow> bool" where
  "sup_inv sha s \<longleftrightarrow>
     (\<forall>i. su_current s = Some i \<longrightarrow> i < length (su_groups s)) \<and>
     (\<forall>i < length (su_groups s). running (su_groups s ! i) \<longrightarrow> su_current s = Some i \<and>
        su_nft s = Some (pg_root (su_groups s ! i)) \<and>
        pg_cmds (su_groups s ! i) = managed_commands sha (pg_root (su_groups s ! i)) (pg_bundle (su_groups s ! i)))"

text \<open>The configuration that is current, and whether it runs.\<close>

definition rt_conf :: "supervisor \<Rightarrow> (string \<times> app_bundle) option" where
  "rt_conf s = map_option (\<lambda>i. (pg_root (su_groups s ! i), pg_bundle (su_groups s ! i))) (su_current s)"

definition rt_up :: "supervisor \<Rightarrow> bool" where
  "rt_up s \<longleftrightarrow> (\<exists>i. su_current s = Some i \<and> i < length (su_groups s) \<and> running (su_groups s ! i))"

text \<open>Nothing runs but what has been signalled: the state between stopping and starting.\<close>

definition quiet :: "supervisor \<Rightarrow> bool" where
  "quiet s \<longleftrightarrow> (\<forall>i. su_current s = Some i \<longrightarrow> i < length (su_groups s)) \<and>
     (\<forall>g \<in> set (su_groups s). \<not> running g)"

lemma quiet_inv: "quiet s \<Longrightarrow> sup_inv sha s"
  by (auto simp: quiet_def sup_inv_def)

lemma quiet_frame [simp]:
  "quiet (s\<lparr>su_fatal := f\<rparr>) = quiet s" "quiet (s\<lparr>su_nft := n\<rparr>) = quiet s" "quiet (s\<lparr>su_dirs := d\<rparr>) = quiet s"
  by (simp_all add: quiet_def)

lemma rt_frame [simp]:
  "rt_conf (s\<lparr>su_fatal := f\<rparr>) = rt_conf s" "rt_conf (s\<lparr>su_nft := n\<rparr>) = rt_conf s" "rt_conf (s\<lparr>su_dirs := d\<rparr>) = rt_conf s"
  "rt_up (s\<lparr>su_fatal := f\<rparr>) = rt_up s" "rt_up (s\<lparr>su_nft := n\<rparr>) = rt_up s" "rt_up (s\<lparr>su_dirs := d\<rparr>) = rt_up s"
  "sup_inv sha (s\<lparr>su_fatal := f\<rparr>) = sup_inv sha s" "sup_inv sha (s\<lparr>su_dirs := d\<rparr>) = sup_inv sha s"
  by (simp_all add: rt_conf_def rt_up_def sup_inv_def)

section \<open>Groups\<close>

lemma groups_update_inject [simp]: "s\<lparr>su_groups := a\<rparr> = s\<lparr>su_groups := b\<rparr> \<longleftrightarrow> a = b"
  by (metis supervisor.select_convs(1) supervisor.surjective supervisor.update_convs(1))

lemma wp_stop_group:
  "wp (stop_group i) (\<lambda>_ s'. s' = update_group i (\<lambda>g. g\<lparr>pg_stopped := True, pg_alive := False\<rparr>) s)
     (\<lambda>e s'. e = ShutdownTimeout \<and> s' = update_group i (\<lambda>g. g\<lparr>pg_stopped := True\<rparr>) s) s"
  unfolding stop_group_def
  by (cases "i < length (su_groups s)")
    (auto simp: wp_simps wp_call update_group_def list_update_beyond intro!: wp_seq)

lemma wp_start_commands:
  assumes "i < length (su_groups s)"
  shows "wp (start_commands i cs) (\<lambda>_ s'. s' = update_group i (\<lambda>g. g\<lparr>pg_cmds := pg_cmds g @ cs\<rparr>) s)
     (\<lambda>e s'. \<not> is_timeout e \<and> (\<exists>cs'. s' = update_group i (\<lambda>g. g\<lparr>pg_cmds := cs'\<rparr>) s)) s"
  using assms
proof (induction cs arbitrary: s)
  case Nil
  then show ?case by (simp add: wp_simps update_group_def)
next
  case (Cons c cs)
  have "update_group i (\<lambda>g. g\<lparr>pg_cmds := pg_cmds g\<rparr>) s = s"
    using Cons.prems by (simp add: update_group_def)
  then have "\<exists>cs'. s = update_group i (\<lambda>g. g\<lparr>pg_cmds := cs'\<rparr>) s"
    using Cons.prems by (intro exI [of _ "pg_cmds (su_groups s ! i)"]) (simp add: update_group_def)
  with Cons.prems show ?case
    by (auto simp: wp_call intro!: wp_seq wp_mono [OF Cons.IH]) (auto simp: update_group_def)
qed

lemma start_group_end:
  assumes "s1 = s\<lparr>su_groups := su_groups s @ [g]\<rparr>" and "\<not> is_timeout e"
  shows "wp (abort_group (length (su_groups s)) e) Q
    (\<lambda>e s'. \<exists>g. s' = s\<lparr>su_groups := su_groups s @ [g]\<rparr> \<and> pg_stopped g \<and> (pg_alive g \<longrightarrow> is_timeout e)) s1"
  unfolding abort_group_def
  using assms
  by (auto simp: wp_simps update_group_def intro!: wp_seq wp_attempt wp_mono [OF wp_stop_group] split: sum.splits)

lemma wp_start_group:
  "wp (start_group sha root b)
     (\<lambda>i s'. i = length (su_groups s) \<and> s' = s\<lparr>su_groups := su_groups s @
        [(new_group root b)\<lparr>pg_cmds := managed_commands sha root b\<rparr>]\<rparr>)
     (\<lambda>e s'. \<exists>g. s' = s\<lparr>su_groups := su_groups s @ [g]\<rparr> \<and> pg_stopped g \<and> (pg_alive g \<longrightarrow> is_timeout e)) s"
  unfolding start_group_def
  by (auto simp: wp_simps wp_call update_group_def new_group_def
      intro!: wp_seq wp_attempt wp_mono [OF wp_start_commands] start_group_end [OF refl])

section \<open>Switching\<close>

lemma quiet_append: "quiet s \<Longrightarrow> \<not> running g \<Longrightarrow> quiet (s\<lparr>su_groups := su_groups s @ [g]\<rparr>)"
  by (auto simp: quiet_def)

lemma rt_conf_append:
  "quiet s \<Longrightarrow> rt_conf (s\<lparr>su_groups := su_groups s @ [g]\<rparr>) = rt_conf s"
  by (auto simp: quiet_def rt_conf_def nth_append map_option_case split: option.split)

text \<open>A started group that becomes current, over a quiet host whose ruleset is the group's.\<close>

lemma switched:
  assumes "quiet s" and "su_nft s = Some root"
    and "s' = s\<lparr>su_groups := su_groups s @ [(new_group root b)\<lparr>pg_cmds := managed_commands sha root b\<rparr>],
      su_current := Some (length (su_groups s))\<rparr>"
  shows "sup_inv sha s' \<and> rt_conf s' = Some (root, b) \<and> rt_up s'"
proof -
  have "\<not> running (su_groups s ! i)" if "i < length (su_groups s)" for i
    using assms(1) that by (auto simp: quiet_def)
  with assms show ?thesis
    by (auto simp: sup_inv_def rt_conf_def rt_up_def running_def new_group_def nth_append less_Suc_eq)
qed

definition settled :: "(string \<Rightarrow> string) \<Rightarrow> (string \<times> app_bundle) option \<Rightarrow> supervisor \<Rightarrow> bool" where
  "settled sha conf s \<longleftrightarrow> sup_inv sha s \<and> rt_conf s = conf \<and> (conf = None \<or> rt_up s \<or> su_fatal s \<noteq> None)"

lemma wp_report_fatal:
  "quiet s \<Longrightarrow> rt_conf s = conf \<Longrightarrow> wp (report_fatal e) (\<lambda>_. settled sha conf) E s"
  by (auto simp: report_fatal_def wp_simps settled_def quiet_inv split: option.splits)

lemma wp_report_and_fail:
  "quiet s \<Longrightarrow> rt_conf s = conf \<Longrightarrow> wp (seq (report_fatal e) (\<lambda>_. fail e)) Q (\<lambda>_. settled sha conf) s"
  by (auto simp: wp_simps intro!: wp_seq wp_mono [OF wp_report_fatal [where sha = sha]])

lemma wp_load_nft:
  "wp (load_nft root) (\<lambda>_ s'. s' = s\<lparr>su_nft := Some root\<rparr>) (\<lambda>e s'. s' = s \<and> \<not> is_timeout e) s"
  by (simp add: load_nft_def wp_call)

lemma wp_restore_locked:
  assumes "quiet s" and "su_current s = Some p"
  shows "wp (restore_locked sha p) (\<lambda>_. settled sha (rt_conf s)) (\<lambda>_ _. False) s"
proof -
  define root where "root = pg_root (su_groups s ! p)"
  define b where "b = pg_bundle (su_groups s ! p)"
  have conf: "rt_conf s = Some (root, b)" using assms(2) by (simp add: rt_conf_def root_def b_def)
  let ?s1 = "s\<lparr>su_nft := Some root\<rparr>"
  have q: "quiet ?s1" using assms(1) by simp
  have start: "wp (start_group sha root b)
      (\<lambda>i s'. wp (set_current (Some i)) (\<lambda>_. settled sha (rt_conf s)) (\<lambda>_ _. False) s')
      (\<lambda>e s'. quiet s' \<and> rt_conf s' = rt_conf s) ?s1"
    by (rule wp_mono [OF wp_start_group])
      (use switched [OF q] quiet_append [OF q] rt_conf_append [OF q]
        in \<open>auto simp: set_current_def wp_simps settled_def conf running_def\<close>)
  show ?thesis
    unfolding restore_locked_def root_def [symmetric] b_def [symmetric]
    by (auto simp: wp_simps root_def [symmetric] b_def [symmetric]
        intro!: wp_seq wp_attempt wp_mono [OF wp_load_nft] wp_mono [OF start] wp_report_fatal assms(1))
qed

lemma wp_restore_if:
  assumes "quiet s" and "previous = su_current s" and "rt_conf s = conf"
  shows "wp (restore_if sha previous) (\<lambda>_. settled sha conf) (\<lambda>_ _. False) s"
  using assms wp_restore_locked [OF assms(1)] quiet_inv [OF assms(1)]
  by (auto simp: restore_if_def wp_simps settled_def rt_conf_def split: option.split)

text \<open>\<^verbatim>\<open>stopGroup\<close> on the current group leaves a quiet host, or reports the timeout.\<close>

lemma quiet_after_stop:
  assumes "sup_inv sha s" and "su_current s = Some p" and "\<And>g. \<not> running (f g)"
    and "\<And>g. pg_root (f g) = pg_root g" and "\<And>g. pg_bundle (f g) = pg_bundle g"
  shows "quiet (update_group p f s) \<and> rt_conf (update_group p f s) = rt_conf s \<and>
    su_current (update_group p f s) = Some p"
  using assms
  by (auto simp: quiet_def sup_inv_def update_group_def rt_conf_def nth_list_update in_set_conv_nth split: if_splits) metis

lemma wp_stop_previous:
  assumes "sup_inv sha s" and "su_current s = previous"
  shows "wp (stop_previous previous)
     (\<lambda>_ s'. quiet s' \<and> rt_conf s' = rt_conf s \<and> su_current s' = previous)
     (\<lambda>_. settled sha (rt_conf s)) s"
proof (cases previous)
  case None
  with assms show ?thesis by (auto simp: stop_previous_def wp_simps sup_inv_def quiet_def in_set_conv_nth)
next
  case (Some p)
  have c: "su_current s = Some p" using assms(2) Some by simp
  have f: "\<not> running (g\<lparr>pg_stopped := True, pg_alive := a\<rparr>)" "\<not> running (g\<lparr>pg_stopped := True\<rparr>)" for g a
    by (simp_all add: running_def)
  note q = quiet_after_stop [OF assms(1) c]
  show ?thesis
    unfolding stop_previous_def Some
    by (auto simp: wp_simps q f Some
        intro!: wp_report_and_fail wp_seq [of "attempt _"] wp_attempt wp_mono [OF wp_stop_group])
qed

lemma wp_sup_apply:
  assumes "sup_inv sha s"
  shows "wp (sup_apply sha root b)
     (\<lambda>_ s'. settled sha (Some (root, b)) s' \<and> rt_up s') (\<lambda>_. settled sha (rt_conf s)) s"
proof -
  have start: "wp (start_group sha root b)
      (\<lambda>i s'. wp (set_current (Some i)) (\<lambda>_ s'. settled sha (Some (root, b)) s' \<and> rt_up s') E s')
      (\<lambda>e s'. quiet s' \<and> rt_conf s' = rt_conf s1 \<and> su_current s' = su_current s1) s1"
    if "quiet s1" "su_nft s1 = Some root" for s1 E
    by (rule wp_mono [OF wp_start_group])
      (use switched [OF that] quiet_append [OF that(1)] rt_conf_append [OF that(1)]
        in \<open>auto simp: set_current_def wp_simps settled_def running_def\<close>)
  show ?thesis
    unfolding sup_apply_def
    by (auto simp: wp_simps
        intro!: wp_report_and_fail wp_seq [of "observe _"] wp_seq [of "stop_previous _"] wp_seq [of "attempt _"]
          wp_seq [of "restore_if _ _"] wp_attempt wp_mono [OF wp_stop_previous [OF assms refl]]
          wp_mono [OF wp_load_nft] wp_mono [OF start] wp_mono [OF wp_restore_if [OF _ _ refl]])
qed

section \<open>Files\<close>

text \<open>The file operations touch the directories only.\<close>

definition same_but_dirs :: "supervisor \<Rightarrow> supervisor \<Rightarrow> bool" where
  "same_but_dirs s s' \<longleftrightarrow> (\<exists>d. s' = s\<lparr>su_dirs := d\<rparr>)"

lemma same_refl [simp]: "same_but_dirs s s"
  by (auto simp: same_but_dirs_def intro: exI [of _ "su_dirs s"])

lemma same_trans: "same_but_dirs s s' \<Longrightarrow> same_but_dirs s' s'' \<Longrightarrow> same_but_dirs s s''"
  by (auto simp: same_but_dirs_def)

lemma same_simps:
  "same_but_dirs s s' \<Longrightarrow> sup_inv sha s' = sup_inv sha s \<and> rt_conf s' = rt_conf s \<and> rt_up s' = rt_up s \<and>
     su_fatal s' = su_fatal s \<and> su_state_dir s' = su_state_dir s"
  by (auto simp: same_but_dirs_def)

lemma same_dirs [simp]: "same_but_dirs s0 s \<Longrightarrow> same_but_dirs s0 (s\<lparr>su_dirs := d\<rparr>)"
  by (auto simp: same_but_dirs_def)

lemma preserves_files [preserves_rules]:
  "preserves (same_but_dirs s0) (remove_all root)" "preserves (same_but_dirs s0) (write_all root files)"
  "preserves (same_but_dirs s0) (run_check c)" "preserves (same_but_dirs s0) (require_runtime_commands b)"
  unfolding remove_all_def write_all_def run_check_def require_runtime_commands_def
  by (auto intro!: preserves_rules)

lemma preserves_checks [preserves_rules]: "preserves (same_but_dirs s0) (run_checks cs)"
  by (induction cs) (auto intro!: preserves_rules)

lemma preserves_prepare_at [preserves_rules]: "preserves (same_but_dirs s0) (prepare_at sha root b)"
  unfolding prepare_at_def
  by (auto intro!: preserves_rules split: go.split sum.split)

lemma preserves_prune_entries [preserves_rules]: "preserves (same_but_dirs s0) (prune_entries root keep ns)"
  by (induction ns) (auto intro!: preserves_rules)

lemma preserves_file_ops:
  "preserves (same_but_dirs s0) (prepare sha i b)" "preserves (same_but_dirs s0) (preflight sha tmp b)"
  "preserves (same_but_dirs s0) (prune_revision_dirs dir keep)"
  unfolding prepare_def preflight_def prune_revision_dirs_def Let_def
  by (auto intro!: preserves_rules)

section \<open>Histories\<close>

lemma wp_sup_boot:
  assumes "quiet s" and "su_current s = None"
  shows "wp (sup_boot sha root b) (\<lambda>_ s'. sup_inv sha s' \<and> rt_conf s' = Some (root, b) \<and> rt_up s')
    (\<lambda>_ s'. quiet s' \<and> su_current s' = None) s"
proof -
  have q: "quiet (s\<lparr>su_nft := Some root\<rparr>)" using assms(1) by simp
  have "wp (start_group sha root b)
      (\<lambda>i s'. wp (set_current (Some i)) (\<lambda>_ s'. sup_inv sha s' \<and> rt_conf s' = Some (root, b) \<and> rt_up s') E s')
      (\<lambda>_ s'. quiet s' \<and> su_current s' = None) (s\<lparr>su_nft := Some root\<rparr>)" for E
    by (rule wp_mono [OF wp_start_group])
      (use switched [OF q] quiet_append [OF q] assms(2) in \<open>auto simp: set_current_def wp_simps running_def\<close>)
  then show ?thesis
    using assms unfolding sup_boot_def sup_start_def
    by (auto simp: wp_simps intro!: wp_seq wp_mono [OF wp_load_nft])
qed

lemma preserves_report_fatal [preserves_rules]: "preserves (sup_inv sha) (report_fatal e)"
  unfolding report_fatal_def by (rule preserves_modify) (simp split: option.split)

lemma preserves_sup_stop: "preserves (sup_inv sha) sup_stop"
  unfolding preserves_def
proof (intro allI impI)
  fix s
  assume inv: "sup_inv sha s"
  have none: "quiet t \<Longrightarrow> sup_inv sha (t\<lparr>su_current := None\<rparr>)" for t
    by (simp add: quiet_def sup_inv_def)
  have f: "\<not> running (g\<lparr>pg_stopped := True, pg_alive := a\<rparr>)" "\<not> running (g\<lparr>pg_stopped := True\<rparr>)" for g a
    by (simp_all add: running_def)
  show "wp sup_stop (\<lambda>_. sup_inv sha) (\<lambda>_. sup_inv sha) s"
  proof (cases "su_current s")
    case None
    with inv show ?thesis unfolding sup_stop_def by (auto simp: wp_simps intro!: wp_seq)
  next
    case (Some p)
    note q = quiet_after_stop [OF inv Some]
    from Some show ?thesis
      unfolding sup_stop_def set_current_def report_fatal_def
      by (auto simp: wp_simps none q f split: option.split
          intro!: wp_seq wp_attempt wp_mono [OF wp_stop_group])
  qed
qed

datatype sup_op = OpApply string app_bundle | OpStop | OpPrepare int app_bundle | OpPreflight string app_bundle
  | OpPruneDirs string "int list" | OpExited nat

definition sup_step :: "(string \<Rightarrow> string) \<Rightarrow> sup_op \<Rightarrow> supervisor \<times> bool list \<Rightarrow> supervisor \<times> bool list" where
  "sup_step sha a w = (case a of
     OpApply root b \<Rightarrow> snd (sup_apply sha root b w)
   | OpStop \<Rightarrow> snd (sup_stop w)
   | OpPrepare i b \<Rightarrow> snd (prepare sha i b w)
   | OpPreflight tmp b \<Rightarrow> snd (preflight sha tmp b w)
   | OpPruneDirs dir keep \<Rightarrow> snd (prune_revision_dirs dir keep w)
   | OpExited i \<Rightarrow> snd (group_exited i w))"

lemma preserves_same:
  assumes "\<And>s0. preserves (same_but_dirs s0) m"
  shows "preserves (sup_inv sha) m"
  unfolding preserves_def
proof (intro allI impI)
  fix s
  assume "sup_inv sha s"
  then show "wp m (\<lambda>_. sup_inv sha) (\<lambda>_. sup_inv sha) s"
    by (intro wp_mono [OF preservesD [OF assms [of s] same_refl]]) (auto dest: same_simps)
qed

lemma preserves_sup_apply: "preserves (sup_inv sha) (sup_apply sha root b)"
  unfolding preserves_def by (auto intro: wp_mono [OF wp_sup_apply] simp: settled_def)

lemma preserves_exited: "preserves (sup_inv sha) (group_exited i)"
  unfolding group_exited_def by (auto intro!: preserves_rules)

lemma sup_step_inv: "sup_inv sha (fst w) \<Longrightarrow> sup_inv sha (fst (sup_step sha a w))"
  unfolding sup_step_def
  using preserves_sup_apply preserves_sup_stop preserves_exited preserves_same [OF preserves_file_ops(1)]
    preserves_same [OF preserves_file_ops(2)] preserves_same [OF preserves_file_ops(3)]
  by (cases a) (simp_all add: preserves_run)

lemma sup_run_inv: "sup_inv sha (fst w) \<Longrightarrow> sup_inv sha (fst (fold (sup_step sha) as w))"
  by (induction as arbitrary: w) (simp_all add: sup_step_inv)

lemma boot_inv: "sup_inv sha (fst (snd (sup_boot sha root b (new_supervisor dir, fs))))"
proof -
  obtain r s' fs' where run: "sup_boot sha root b (new_supervisor dir, fs) = (r, s', fs')"
    by (cases "sup_boot sha root b (new_supervisor dir, fs)")
  have "quiet (new_supervisor dir)" "su_current (new_supervisor dir) = None"
    by (simp_all add: quiet_def new_supervisor_def)
  from wp_run [OF wp_sup_boot [OF this] run] run show ?thesis by (cases r) (auto simp: quiet_inv)
qed

text \<open>
  Claim C18. After \<^verbatim>\<open>Boot\<close> and any sequence of switches, stops, preparations, preflights, clean-ups
  and process exits, whatever of it fails, at most the current process group is running and has not
  been told to stop; the loaded nftables ruleset is that group's own and all its commands were
  started. So no two revisions ever serve at the same time.
\<close>

theorem supervisor_single_generation:
  assumes "fold (sup_step sha) as (snd (sup_boot sha root b (new_supervisor dir, fs))) = (s, fs')"
    and "i < length (su_groups s)" and "running (su_groups s ! i)"
  shows "su_current s = Some i \<and> su_nft s = Some (pg_root (su_groups s ! i)) \<and>
    pg_cmds (su_groups s ! i) = managed_commands sha (pg_root (su_groups s ! i)) (pg_bundle (su_groups s ! i))"
proof -
  have "sup_inv sha (fst (fold (sup_step sha) as (snd (sup_boot sha root b (new_supervisor dir, fs)))))"
    by (rule sup_run_inv [OF boot_inv])
  then have "sup_inv sha s" by (simp only: assms(1) fst_conv)
  with assms(2,3) show ?thesis unfolding sup_inv_def by blast
qed

text \<open>
  Claim C19. A switch to another revision completes or is undone: on success the new configuration is
  current and runs; on any error the configuration that was current still is, and it runs again
  unless the failure has been reported as fatal, which ends the daemon.
\<close>

theorem supervisor_switch:
  assumes "sup_inv sha s" and "sup_apply sha root b (s, fs) = (r, s', fs')"
  shows "sup_inv sha s' \<and> (case r of
      Inr _ \<Rightarrow> rt_conf s' = Some (root, b) \<and> rt_up s'
    | Inl _ \<Rightarrow> rt_conf s' = rt_conf s \<and> (rt_conf s = None \<or> rt_up s' \<or> su_fatal s' \<noteq> None))"
  using wp_run [OF wp_sup_apply [OF assms(1)] assms(2)] by (cases r) (auto simp: settled_def)

text \<open>A daemon that booted \<^verbatim>\<open>/old\<close> and switches to \<^verbatim>\<open>/new\<close>; in the first case a process does not start.\<close>

definition sample_boot :: "supervisor \<times> bool list" where
  "sample_boot = snd (sup_boot (\<lambda>_. []) ''/old'' sample_bundle (new_supervisor ''/s'', []))"

theorem supervisor_switch_witness:
  "\<exists>e s' fs'. sup_apply (\<lambda>_. []) ''/new'' sample_bundle (fst sample_boot, [False, False, True]) = (Inl e, s', fs') \<and>
     rt_conf s' = Some (''/old'', sample_bundle)"
proof -
  obtain r s' fs' where run: "sup_apply (\<lambda>_. []) ''/new'' sample_bundle (fst sample_boot, [False, False, True]) = (r, s', fs')"
    by (cases "sup_apply (\<lambda>_. []) ''/new'' sample_bundle (fst sample_boot, [False, False, True])")
  have "case fst (sup_apply (\<lambda>_. []) ''/new'' sample_bundle (fst sample_boot, [False, False, True])) of
      Inl e \<Rightarrow> True | Inr _ \<Rightarrow> False"
    by code_simp
  with run obtain e where "r = Inl e" by (auto split: sum.splits)
  moreover have "rt_conf (fst sample_boot) = Some (''/old'', sample_bundle)" by code_simp
  moreover have "sup_inv (\<lambda>_. []) (fst sample_boot)" unfolding sample_boot_def by (rule boot_inv)
  ultimately show ?thesis using supervisor_switch [OF _ run] run by auto
qed

theorem supervisor_single_generation_witness:
  "su_nft (fst (fold (sup_step (\<lambda>_. [])) [OpApply ''/new'' sample_bundle] sample_boot)) = Some ''/new''"
proof -
  let ?w = "fold (sup_step (\<lambda>_. [])) [OpApply ''/new'' sample_bundle] sample_boot"
  have r: "fold (sup_step (\<lambda>_. [])) [OpApply ''/new'' sample_bundle]
      (snd (sup_boot (\<lambda>_. []) ''/old'' sample_bundle (new_supervisor ''/s'', []))) = (fst ?w, snd ?w)"
    by (simp add: sample_boot_def)
  have "1 < length (su_groups (fst ?w))" "running (su_groups (fst ?w) ! 1)" "pg_root (su_groups (fst ?w) ! 1) = ''/new''"
    by code_simp+
  with supervisor_single_generation [OF r this(1,2)] show ?thesis by simp
qed

section \<open>What can succeed\<close>

lemma smooth_groups: "smooth (stop_group i)" "smooth (load_nft root)" "smooth (set_current c)" "smooth (report_fatal e)"
  unfolding stop_group_def load_nft_def set_current_def report_fatal_def
  by (auto intro!: smooth_rules)

lemma smooth_start_commands: "smooth (start_commands i cs)"
  by (induction cs) (auto intro!: smooth_rules)

lemma smooth_start_group: "smooth (start_group sha root b)"
  unfolding start_group_def
  by (auto intro!: smooth_basic smooth_attempt smooth_seq [of "observe _"] smooth_seq [of "modify _"]
      smooth_start_commands smooth_call)

lemma smooth_sup_apply: "smooth (sup_apply sha root b)"
proof -
  have "smooth (stop_previous c)" for c
    unfolding stop_previous_def
    by (auto intro!: smooth_basic smooth_attempt smooth_groups split: option.split)
  then show ?thesis
    unfolding sup_apply_def
    by (auto intro!: smooth_attempt smooth_groups smooth_start_group smooth_seq [of "observe _"]
        smooth_seq [of "stop_previous _"] smooth_basic)
qed

lemma smooth_checks: "smooth (run_checks cs)"
  by (induction cs) (auto simp: run_check_def intro!: smooth_rules)

lemma smooth_prune_dirs: "smooth (prune_revision_dirs dir keep)"
proof -
  have "smooth (prune_entries root keep ns)" for root ns
    by (induction ns) (auto simp: remove_all_def intro!: smooth_rules split: option.split)
  then show ?thesis unfolding prune_revision_dirs_def Let_def by (auto intro!: smooth_rules)
qed

lemma smooth_prepare_at:
  assumes "generate_at sha (b_config b) (bundle_normalized b) root = Ret (Inr files)"
  shows "smooth (prepare_at sha root b)"
  unfolding prepare_at_def assms
  by (auto simp: require_runtime_commands_def remove_all_def write_all_def intro!: smooth_rules smooth_checks)

end
