(* ===== verification/Service.thy ===== *)
theory Service
  imports Store_Props Supervisor_Props Matching
begin

text \<open>
  \<^verbatim>\<open>internal/service/service.go\<close>: saving, validating and applying bundles. The state is the database,
  the runtime behind the interface \<^verbatim>\<open>Runtime\<close> (the record \<open>runtime_ops\<close> of operations over any
  runtime state) and the cached active and draft revisions. The rule resolver is the interface
  \<^verbatim>\<open>RuleResolver\<close>, a function over the database that holds its cache.

  \<^verbatim>\<open>applyMu\<close> makes \<^verbatim>\<open>ApplyBundle\<close> one step. The errors carry where they come from, which the code's
  wrapped texts do not.
\<close>

record 'rt runtime_ops =
  ro_preflight :: "app_bundle \<Rightarrow> ('rt, sup_error, unit) act"
  ro_prepare :: "int \<Rightarrow> app_bundle \<Rightarrow> ('rt, sup_error, string) act"
  ro_apply :: "string \<Rightarrow> app_bundle \<Rightarrow> ('rt, sup_error, unit) act"
  ro_prune_dirs :: "string \<Rightarrow> int list \<Rightarrow> ('rt, sup_error, unit) act"

record 'rt service =
  sv_db :: db
  sv_rt :: 'rt
  sv_active :: revision
  sv_draft :: revision

text \<open>
  What an operation gets from outside: the URL parser, \<^verbatim>\<open>DeepEqual\<close>, the regular expressions, the
  clock, the text of an error, the resolver and the runtime.
\<close>

record 'rt service_env =
  en_up :: "string \<Rightarrow> url option"
  en_deq :: "config \<times> rules_file \<Rightarrow> config \<times> rules_file \<Rightarrow> bool"
  en_re :: regexp_pkg
  en_now :: int
  en_text :: "sup_error \<Rightarrow> string"
  en_norm :: "db \<Rightarrow> rules_file \<Rightarrow> (rules_error + normalized) \<times> db"
  en_rt :: "'rt runtime_ops"

datatype service_error = StoreError store_error | RulesError rules_error | ConfigError config_error
  | RuntimeError sup_error | PruneError store_error | CleanupError sup_error
  | CandidateFailed service_error "service_error option" "service_error option"
  | ActivationFailed service_error "service_error option" "service_error option"

type_synonym ('rt, 'a) service_act = "('rt service, service_error, 'a) act"

definition on_db :: "(store_error \<Rightarrow> service_error) \<Rightarrow> 'a store_act \<Rightarrow> ('rt, 'a) service_act" where
  "on_db h m = lift_act sv_db (\<lambda>d s. s\<lparr>sv_db := d\<rparr>) h m"

definition on_rt :: "(sup_error \<Rightarrow> service_error) \<Rightarrow> ('rt, sup_error, 'a) act \<Rightarrow> ('rt, 'a) service_act" where
  "on_rt h m = lift_act sv_rt (\<lambda>r s. s\<lparr>sv_rt := r\<rparr>) h m"

definition set_draft :: "revision \<Rightarrow> ('rt, unit) service_act" where
  "set_draft r = modify (\<lambda>s. s\<lparr>sv_draft := r\<rparr>)"

definition set_active_and_draft :: "revision \<Rightarrow> ('rt, unit) service_act" where
  "set_active_and_draft r = modify (\<lambda>s. s\<lparr>sv_active := r, sv_draft := r\<rparr>)"

definition left :: "'e + 'a \<Rightarrow> 'e option" where
  "left r = (case r of Inl e \<Rightarrow> Some e | Inr _ \<Rightarrow> None)"

section \<open>Validation\<close>

definition service_save_draft :: "'rt service_env \<Rightarrow> app_bundle \<Rightarrow> ('rt, revision) service_act" where
  "service_save_draft en b =
     seq (on_db StoreError (save_draft (en_up en) (en_now en) (b\<lparr>b_resolved := []\<rparr>))) (\<lambda>r.
     seq (set_draft r) (\<lambda>_. ret r))"

definition resolve_bundle :: "'rt service_env \<Rightarrow> app_bundle \<Rightarrow> ('rt, app_bundle \<times> warning list) service_act" where
  "resolve_bundle en b0 = (let b = bundle_apply_defaults b0 in
     case validate (en_up en) (b_config b) of Some e \<Rightarrow> fail (ConfigError e) | None \<Rightarrow>
     case validate_managed (b_rules b) of Some e \<Rightarrow> fail (RulesError e) | None \<Rightarrow>
     case validate_dns_pool_references (b_rules b) (pool_names (cf_dns (b_config b))) of
       Some e \<Rightarrow> fail (RulesError e) | None \<Rightarrow>
     seq (compute (\<lambda>s. case en_norm en (sv_db s) (b_rules b) of
         (r, d) \<Rightarrow> (map_sum RulesError id r, s\<lparr>sv_db := d\<rparr>))) (\<lambda>n.
     case compile (en_re en) n of Inl e \<Rightarrow> fail (RulesError e)
     | Inr _ \<Rightarrow> ret (b\<lparr>b_resolved := n_rules n\<rparr>, n_warnings n)))"

record validation =
  va_revision_id :: int
  va_rule_count :: nat
  va_warnings :: "warning list"
  va_bundle :: app_bundle

definition validate_bundle :: "'rt service_env \<Rightarrow> app_bundle \<Rightarrow> ('rt, validation) service_act" where
  "validate_bundle en b = seq (resolve_bundle en b) (\<lambda>(resolved, ws).
     seq (on_rt RuntimeError (ro_preflight (en_rt en) resolved)) (\<lambda>_.
     ret \<lparr>va_revision_id = 0, va_rule_count = length (b_resolved resolved), va_warnings = ws, va_bundle = resolved\<rparr>))"

definition validate_draft :: "'rt service_env \<Rightarrow> ('rt, validation) service_act" where
  "validate_draft en = seq (on_db StoreError store_draft) (\<lambda>r.
     seq (validate_bundle en (rn_bundle r)) (\<lambda>v. ret (v\<lparr>va_revision_id := rn_id r\<rparr>)))"

section \<open>Applying\<close>

record apply_result =
  ar_changed :: bool
  ar_revision_id :: int
  ar_rule_count :: nat
  ar_warnings :: "warning list"

definition state_dir :: "revision \<Rightarrow> string" where
  "state_dir r = sy_state_dir (cf_system (b_config (rn_bundle r)))"

definition clean_up :: "'rt service_env \<Rightarrow> revision \<Rightarrow> ('rt, unit) service_act" where
  "clean_up en r = on_rt CleanupError (ro_prune_dirs (en_rt en) (state_dir r) [rn_id r])"

definition restore_active_draft :: "'rt service_env \<Rightarrow> ('rt, unit) service_act" where
  "restore_active_draft en = seq (on_db StoreError reset_draft_to_active) (\<lambda>r.
     seq (set_active_and_draft r) (\<lambda>_.
     seq (on_db PruneError prune_revisions) (\<lambda>_. clean_up en r)))"

text \<open>The branch for a bundle that is the active one.\<close>

definition apply_unchanged :: "'rt service_env \<Rightarrow> revision \<Rightarrow> ('rt, apply_result) service_act" where
  "apply_unchanged en act =
     seq (on_db StoreError reset_draft_to_active) (\<lambda>reset.
     seq (on_db PruneError prune_revisions) (\<lambda>_.
     seq (clean_up en act) (\<lambda>_.
     seq (set_active_and_draft reset) (\<lambda>_.
     ret \<lparr>ar_changed = False, ar_revision_id = rn_id act,
       ar_rule_count = length (b_resolved (rn_bundle act)), ar_warnings = []\<rparr>))))"

definition switch_runtime :: "'rt service_env \<Rightarrow> revision \<Rightarrow> ('rt, unit) service_act" where
  "switch_runtime en cand =
     seq (on_rt RuntimeError (ro_prepare (en_rt en) (rn_id cand) (rn_bundle cand))) (\<lambda>root.
     on_rt RuntimeError (ro_apply (en_rt en) root (rn_bundle cand)))"

fun error_text :: "'rt service_env \<Rightarrow> service_error \<Rightarrow> string" where
  "error_text en (RuntimeError e) = en_text en e"
| "error_text en _ = []"

text \<open>\<^verbatim>\<open>errors.Join\<close> of the cause with what went wrong on the way back.\<close>

definition candidate_failed :: "'rt service_env \<Rightarrow> revision \<Rightarrow> service_error \<Rightarrow> ('rt, apply_result) service_act" where
  "candidate_failed en cand e =
     seq (attempt (on_db StoreError (fail_revision (rn_id cand) (error_text en e)))) (\<lambda>f.
     seq (attempt (restore_active_draft en)) (\<lambda>r.
     fail (CandidateFailed e (left f) (left r))))"

definition activation_failed :: "'rt service_env \<Rightarrow> revision \<Rightarrow> service_error \<Rightarrow> ('rt, apply_result) service_act" where
  "activation_failed en act e =
     seq (attempt (on_rt RuntimeError (ro_apply (en_rt en) (revision_root (state_dir act) (rn_id act)) (rn_bundle act)))) (\<lambda>rb.
     seq (attempt (restore_active_draft en)) (\<lambda>r.
     fail (ActivationFailed e (left rb) (left r))))"

definition finish_apply :: "'rt service_env \<Rightarrow> warning list \<Rightarrow> revision \<Rightarrow> ('rt, apply_result) service_act" where
  "finish_apply en ws new =
     seq (set_active_and_draft new) (\<lambda>_.
     seq (on_db PruneError prune_revisions) (\<lambda>_.
     seq (clean_up en new) (\<lambda>_.
     ret \<lparr>ar_changed = True, ar_revision_id = rn_id new,
       ar_rule_count = length (b_resolved (rn_bundle new)), ar_warnings = ws\<rparr>)))"

definition apply_candidate :: "'rt service_env \<Rightarrow> revision \<Rightarrow> warning list \<Rightarrow> revision \<Rightarrow> ('rt, apply_result) service_act" where
  "apply_candidate en act ws cand =
     seq (set_draft cand) (\<lambda>_.
     seq (attempt (switch_runtime en cand)) (\<lambda>r.
     case r of Inl e \<Rightarrow> candidate_failed en cand e
     | Inr _ \<Rightarrow> seq (attempt (on_db StoreError (activate (en_now en) (rn_id cand)))) (\<lambda>r.
         case r of Inl e \<Rightarrow> activation_failed en act e
         | Inr new \<Rightarrow> finish_apply en ws new)))"

definition apply_changed :: "'rt service_env \<Rightarrow> revision \<Rightarrow> app_bundle \<Rightarrow> ('rt, apply_result) service_act" where
  "apply_changed en act b =
     seq (resolve_bundle en b) (\<lambda>(resolved, ws).
     seq (on_db StoreError (save_draft (en_up en) (en_now en) resolved)) (\<lambda>cand.
     apply_candidate en act ws cand))"

definition apply_bundle :: "'rt service_env \<Rightarrow> app_bundle \<Rightarrow> ('rt, apply_result) service_act" where
  "apply_bundle en b =
     seq (on_db StoreError store_active) (\<lambda>act.
     case validate_managed (b_rules b) of Some e \<Rightarrow> fail (RulesError e) | None \<Rightarrow>
     if same_input (en_deq en) (rn_bundle act) b \<and> resolved_local_rules_current (rn_bundle act)
     then apply_unchanged en act else apply_changed en act b)"

definition service_apply :: "'rt service_env \<Rightarrow> ('rt, revision) service_act" where
  "service_apply en = seq (on_db StoreError store_draft) (\<lambda>r.
     seq (apply_bundle en (rn_bundle r)) (\<lambda>_. observe sv_active))"

end
