(* ===== verification/Service_Props.thy ===== *)
theory Service_Props
  imports Service
begin

text \<open>
  What an apply keeps. The runtime is used through a contract, the locale \<open>revision_runtime\<close>; its
  instance is the supervisor. The central invariant \<open>service_linked\<close> ties the three places that
  know the active revision together: the database, the service's cache and the running processes.
\<close>

record rt_view =
  vw_conf :: "(string \<times> app_bundle) option"
  vw_up :: bool
  vw_fatal :: bool
  vw_dir :: string

text \<open>The database and the cache agree that revision \<open>a\<close> with row \<open>row\<close> is active; the runtime looks like \<open>v\<close>.\<close>

definition service_at :: "(string \<Rightarrow> url option) \<Rightarrow> ('rt \<Rightarrow> rt_view) \<Rightarrow> ('rt \<Rightarrow> bool) \<Rightarrow> int \<Rightarrow> revision_row
    \<Rightarrow> rt_view \<Rightarrow> 'rt service \<Rightarrow> bool" where
  "service_at up view ok a row v s \<longleftrightarrow> db_inv up (sv_db s) \<and> (\<exists>dr. db_app_state (sv_db s) = Some (a, dr)) \<and>
     find_revision (sv_db s) a = Some row \<and> sv_active s = rev_of row \<and> ok (sv_rt s) \<and> view (sv_rt s) = v"

definition service_linked :: "(string \<Rightarrow> url option) \<Rightarrow> ('rt \<Rightarrow> rt_view) \<Rightarrow> ('rt \<Rightarrow> bool) \<Rightarrow> 'rt service \<Rightarrow> bool" where
  "service_linked up view ok s \<longleftrightarrow> (\<exists>row. service_at up view ok (rr_id row) row (view (sv_rt s)) s \<and>
     vw_conf (view (sv_rt s)) = Some (revision_root (vw_dir (view (sv_rt s))) (rr_id row), rn_bundle (rev_of row)) \<and>
     (vw_up (view (sv_rt s)) \<or> vw_fatal (view (sv_rt s))))"

lemma rn_bundle_rev_of: "rn_bundle (rev_of r) = bundle_apply_defaults (rr_payload r)"
  by (simp add: rev_of_def)

lemma find_prune:
  assumes "db_app_state d = Some (a, dr)"
  shows "find_revision (sql_prune d) a = find_revision d a"
proof -
  have "find (\<lambda>r. rr_id r = a) (filter (\<lambda>r. rr_id r = a \<or> rr_id r = dr) rs) = find (\<lambda>r. rr_id r = a) rs" for rs
    by (induction rs) auto
  with assms show ?thesis by (simp add: sql_prune_def find_revision_def)
qed

lemma find_failed: "i \<noteq> a \<Longrightarrow> find_revision (failed i c d) a = find_revision d a"
  by (auto simp: failed_def find_revision_def find_update_rows map_option_case dest: find_SomeD split: option.split)

lemma find_activated:
  assumes "find_revision (activated now i d) i = Some r'"
  shows "\<exists>r. find_revision d i = Some r \<and> rr_payload r' = rr_payload r"
  using assms by (auto simp: activated_def find_revision_def find_update_rows split: if_splits)

lemma app_state_frame [simp]:
  "db_app_state (sql_prune d) = db_app_state d" "db_app_state (failed i c d) = db_app_state d"
  "db_app_state (activated now i d) = Some (i, i)"
  by (simp_all add: sql_prune_def failed_def activated_def)

lemma wp_on_db [wp_simps]: "wp (on_db h m) Q E s \<longleftrightarrow>
    wp m (\<lambda>x d. Q x (s\<lparr>sv_db := d\<rparr>)) (\<lambda>e d. E (h e) (s\<lparr>sv_db := d\<rparr>)) (sv_db s)"
  by (simp add: on_db_def wp_simps)

lemma wp_on_rt [wp_simps]: "wp (on_rt h m) Q E s \<longleftrightarrow>
    wp m (\<lambda>x d. Q x (s\<lparr>sv_rt := d\<rparr>)) (\<lambda>e d. E (h e) (s\<lparr>sv_rt := d\<rparr>)) (sv_rt s)"
  by (simp add: on_rt_def wp_simps)

section \<open>Database steps around the active revision\<close>

lemma at_save_draft:
  assumes "service_at up view ok a row v s"
  shows "wp (on_db h (save_draft up now b))
     (\<lambda>cand s'. service_at up view ok a row v s' \<and> rn_id cand \<noteq> a \<and>
        (\<exists>r. find_revision (sv_db s') (rn_id cand) = Some r \<and> cand = rev_of r) \<and>
        rn_bundle cand = bundle_apply_defaults b)
     (\<lambda>_. service_at up view ok a row v) s"
proof -
  have inv: "db_inv up (sv_db s)" and a: "find_revision (sv_db s) a = Some row"
    using assms by (auto simp: service_at_def)
  have a_in: "a \<in> rev_ids (sv_db s)" using a by (auto simp: rev_ids_def dest: find_revision_SomeD)
  then have "db_rev_seq (sv_db s) + 1 \<noteq> a" using inv by (force simp: db_inv_def rev_ids_def)
  with assms show ?thesis
    unfolding wp_on_db
    by (intro wp_mono [OF wp_save_draft [OF inv]])
      (auto simp: service_at_def db_inv_save_draft find_add_row_old [OF inv a_in] find_add_row [OF inv]
        rev_of_def [of "new_row _ _ _ _"] payload_ok)
qed

lemma at_fail: "rn \<noteq> a \<Longrightarrow> preserves (service_at up view ok a row v) (on_db h (fail_revision rn c))"
  unfolding preserves_def wp_on_db
  by (auto intro!: wp_mono [OF wp_fail_revision] simp: service_at_def db_inv_failed find_failed)

lemma at_prune: "preserves (service_at up view ok a row v) (on_db h prune_revisions)"
  unfolding preserves_def wp_on_db
  by (auto intro!: wp_mono [OF wp_prune] simp: service_at_def db_inv_prune find_prune)

lemma at_set_draft: "preserves (service_at up view ok a row v) (set_draft r)"
  unfolding set_draft_def by (rule preserves_modify) (simp add: service_at_def)

lemma at_reset:
  assumes "service_at up view ok a row v s"
  shows "wp (on_db h reset_draft_to_active)
    (\<lambda>r s'. service_at up view ok a row v s' \<and> r = rev_of row \<and> db_app_state (sv_db s') = Some (a, a))
    (\<lambda>_. service_at up view ok a row v) s"
  unfolding wp_on_db
  by (rule wp_mono [OF wp_reset_draft [of up]])
    (use assms in \<open>auto simp: service_at_def intro: db_inv_reset\<close>)

lemma at_active:
  assumes "service_at up view ok a row v s"
  shows "wp (on_db h store_active) (\<lambda>r s'. s' = s \<and> r = rev_of row) (\<lambda>_ s'. s' = s) s"
  unfolding wp_on_db store_active_def
  by (rule wp_revision_for) (use assms in \<open>auto simp: service_at_def\<close>)

lemma at_activate:
  assumes "service_at up view ok a row v s" and "find_revision (sv_db s) i = Some r"
  shows "wp (on_db h (activate now i))
     (\<lambda>new s'. \<exists>row'. service_at up view ok i row' v (s'\<lparr>sv_active := new\<rparr>) \<and> new = rev_of row' \<and>
        rn_bundle new = rn_bundle (rev_of r) \<and> rr_id row' = i \<and> db_app_state (sv_db s') = Some (i, i) \<and>
        sv_rt s' = sv_rt s)
     (\<lambda>_ s'. db_inv up (sv_db s') \<and> sv_rt s' = sv_rt s) s"
proof -
  have inv: "db_inv up (sv_db s)" using assms by (auto simp: service_at_def)
  have row': "rr_payload r' = rr_payload r \<and> rr_id r' = i"
    if "find_revision (activated now i (sv_db s)) i = Some r'" for r'
    using find_activated [OF that] find_revision_SomeD [OF that] assms(2) by simp
  have new: "\<exists>row'. service_at up view ok i row' v (s\<lparr>sv_db := activated now i (sv_db s), sv_active := rev_of r'\<rparr>) \<and>
      rev_of r' = rev_of row' \<and> rn_bundle (rev_of r') = rn_bundle (rev_of r) \<and> rr_id row' = i"
    if "i \<in> rev_ids (sv_db s)" "find_revision (activated now i (sv_db s)) i = Some r'" for r'
    using row' [OF that(2)] that assms(1) db_inv_activated [OF inv that(1)]
    by (intro exI [of _ r']) (simp add: service_at_def rn_bundle_rev_of)
  show ?thesis
    unfolding wp_on_db
    by (rule wp_mono [OF wp_activate [OF inv]])
      (use new inv in \<open>auto intro: db_inv_activated\<close>)
qed

section \<open>Outcomes\<close>

text \<open>What a result of \<^verbatim>\<open>ApplyBundle\<close> on the bundle \<open>b\<close> means, and what an error means.\<close>

definition applied :: "(string \<Rightarrow> url option) \<Rightarrow> ('rt \<Rightarrow> rt_view) \<Rightarrow> ('rt \<Rightarrow> bool) \<Rightarrow> app_bundle \<Rightarrow> 'rt service
    \<Rightarrow> apply_result \<Rightarrow> 'rt service \<Rightarrow> bool" where
  "applied up view ok b s res s' \<longleftrightarrow> service_linked up view ok s' \<and> sv_draft s' = sv_active s' \<and>
     ar_revision_id res = rn_id (sv_active s') \<and> ar_rule_count res = length (b_resolved (rn_bundle (sv_active s'))) \<and>
     (if ar_changed res
      then rn_id (sv_active s') \<noteq> rn_id (sv_active s) \<and> vw_up (view (sv_rt s')) \<and>
        (rn_bundle (sv_active s'))\<lparr>b_resolved := []\<rparr> = (bundle_apply_defaults b)\<lparr>b_resolved := []\<rparr>
      else rn_id (sv_active s') = rn_id (sv_active s) \<and> view (sv_rt s') = view (sv_rt s))"

fun after_activation :: "service_error \<Rightarrow> bool" where
  "after_activation (PruneError _) = True"
| "after_activation (CleanupError _) = True"
| "after_activation _ = False"

fun activation_error :: "service_error \<Rightarrow> bool" where
  "activation_error (ActivationFailed _ _ _) = True"
| "activation_error _ = False"

definition not_applied :: "(string \<Rightarrow> url option) \<Rightarrow> ('rt \<Rightarrow> rt_view) \<Rightarrow> ('rt \<Rightarrow> bool) \<Rightarrow> 'rt service
    \<Rightarrow> service_error \<Rightarrow> 'rt service \<Rightarrow> bool" where
  "not_applied up view ok s e s' \<longleftrightarrow> db_inv up (sv_db s') \<and>
     (\<not> activation_error e \<longrightarrow> service_linked up view ok s' \<and>
        (\<not> after_activation e \<longrightarrow> sv_active s' = sv_active s))"

section \<open>The contract of the runtime\<close>

text \<open>
  The laws a runtime keeps, whatever fails: preparing, checking and cleaning up leave what runs
  alone, \<^verbatim>\<open>Prepare\<close> names the directory of the revision, and \<^verbatim>\<open>Apply\<close> either switches or leaves the
  configuration that was current, running unless a fatal error was reported. Of the resolver, that
  it writes nothing but its cache.
\<close>

locale revision_runtime =
  fixes en :: "'rt service_env" and view :: "'rt \<Rightarrow> rt_view" and ok :: "'rt \<Rightarrow> bool"
  assumes prepare_law: "ok r \<Longrightarrow> wp (ro_prepare (en_rt en) i b)
       (\<lambda>root r'. ok r' \<and> view r' = view r \<and> root = revision_root (vw_dir (view r)) i)
       (\<lambda>_ r'. ok r' \<and> view r' = view r) r"
    and preflight_law: "preserves (\<lambda>r. ok r \<and> view r = v) (ro_preflight (en_rt en) b)"
    and prune_law: "preserves (\<lambda>r. ok r \<and> view r = v) (ro_prune_dirs (en_rt en) dir keep)"
    and apply_law: "ok r \<Longrightarrow> wp (ro_apply (en_rt en) root b)
       (\<lambda>_ r'. ok r' \<and> vw_conf (view r') = Some (root, b) \<and> vw_up (view r') \<and> vw_dir (view r') = vw_dir (view r))
       (\<lambda>_ r'. ok r' \<and> vw_conf (view r') = vw_conf (view r) \<and> vw_dir (view r') = vw_dir (view r) \<and>
          (vw_conf (view r) = None \<or> vw_up (view r') \<or> vw_fatal (view r'))) r"
    and resolver_law: "\<exists>c. snd (en_norm en d f) = d\<lparr>db_import_cache := c\<rparr>"
begin

lemma at_clean_up: "preserves (service_at up view ok a row v) (clean_up en r)"
  unfolding preserves_def clean_up_def wp_on_rt
  by (auto simp: service_at_def intro!: wp_mono [OF preservesD [OF prune_law [of v]]])

lemma at_restore: "preserves (service_at up view ok a row v) (restore_active_draft en)"
proof -
  have set: "wp (set_active_and_draft (rev_of row)) (\<lambda>_. service_at up view ok a row v) E s"
    if "service_at up view ok a row v s" for s E
    using that by (simp add: set_active_and_draft_def wp_simps service_at_def)
  show ?thesis
    unfolding preserves_def restore_active_draft_def
    by (auto intro!: wp_seq wp_mono [OF at_reset] wp_mono [OF set] wp_mono [OF preservesD [OF at_prune]]
        preservesD [OF at_clean_up])
qed

lemma at_resolve: "preserves (service_at up view ok a row v) (resolve_bundle en b)"
proof -
  have "preserves (service_at up view ok a row v)
      (compute (\<lambda>s. case en_norm en (sv_db s) f of (r, d) \<Rightarrow> (map_sum RulesError id r, s\<lparr>sv_db := d\<rparr>)))" for f
    unfolding preserves_def
  proof (intro allI impI)
    fix s
    assume at: "service_at up view ok a row v s"
    obtain c where "snd (en_norm en (sv_db s) f) = (sv_db s)\<lparr>db_import_cache := c\<rparr>" using resolver_law by blast
    then have "service_at up view ok a row v (s\<lparr>sv_db := snd (en_norm en (sv_db s) f)\<rparr>)"
      using at by (simp add: service_at_def find_revision_def)
    then show "wp (compute (\<lambda>s. case en_norm en (sv_db s) f of (r, d) \<Rightarrow> (map_sum RulesError id r, s\<lparr>sv_db := d\<rparr>)))
        (\<lambda>_. service_at up view ok a row v) (\<lambda>_. service_at up view ok a row v) s"
      by (auto simp: wp_compute split: prod.split sum.split)
  qed
  then show ?thesis unfolding resolve_bundle_def Let_def by (auto intro!: preserves_rules)
qed

lemma at_validate: "preserves (service_at up view ok a row v) (validate_bundle en b)"
proof -
  have "preserves (service_at up view ok a row v) (on_rt RuntimeError (ro_preflight (en_rt en) b'))" for b'
    unfolding preserves_def wp_on_rt
    by (auto simp: service_at_def intro!: wp_mono [OF preservesD [OF preflight_law [of v]]])
  then show ?thesis
    unfolding validate_bundle_def by (auto intro!: preserves_rules at_resolve split: prod.split)
qed

text \<open>The runtime follows the candidate or stays where it was.\<close>

lemma at_switch:
  assumes "service_at up view ok a row v s"
  shows "wp (switch_runtime en cand)
    (\<lambda>_ s'. \<exists>v'. service_at up view ok a row v' s' \<and> vw_up v' \<and> vw_dir v' = vw_dir v \<and>
       vw_conf v' = Some (revision_root (vw_dir v) (rn_id cand), rn_bundle cand) \<and> sv_db s' = sv_db s)
    (\<lambda>_ s'. \<exists>v'. service_at up view ok a row v' s' \<and> vw_conf v' = vw_conf v \<and> vw_dir v' = vw_dir v \<and>
       (vw_conf v = None \<or> vw_up v' \<or> vw_fatal v' \<or> v' = v)) s"
proof -
  have ok: "ok (sv_rt s)" and v: "v = view (sv_rt s)" using assms by (auto simp: service_at_def)
  show ?thesis
    unfolding switch_runtime_def
    by (rule wp_seq, unfold wp_on_rt, rule wp_mono [OF prepare_law [OF ok]], intro wp_mono [OF apply_law])
      (use assms v in \<open>auto simp: service_at_def\<close>)
qed

text \<open>What is left when the activation itself fails.\<close>

definition sound :: "(string \<Rightarrow> url option) \<Rightarrow> 'rt service \<Rightarrow> bool" where
  "sound up s \<longleftrightarrow> db_inv up (sv_db s) \<and> ok (sv_rt s)"

lemma sound_steps:
  "preserves (sound up) (on_db h prune_revisions)" "preserves (sound up) (on_db h reset_draft_to_active)"
  "preserves (sound up) (on_rt h' (ro_apply (en_rt en) root b))" "preserves (sound up) (clean_up en r)"
  "preserves (sound up) (set_active_and_draft r)"
  unfolding preserves_def wp_on_db wp_on_rt clean_up_def set_active_and_draft_def
  using preserves_revisions(4,5)
  subgoal by (auto simp: sound_def preserves_def intro: wp_mono)
  subgoal using preserves_revisions(4) by (auto simp: sound_def preserves_def intro: wp_mono)
  subgoal by (auto simp: sound_def intro: wp_mono [OF apply_law])
  subgoal by (auto simp: sound_def intro!: wp_mono [OF preservesD [OF prune_law]])
  subgoal by (simp add: sound_def wp_simps)
  done

lemma sound_activation_failed: "preserves (sound up) (activation_failed en act e)"
  unfolding activation_failed_def restore_active_draft_def
  by (auto intro!: preserves_rules sound_steps)

lemma linked_at:
  assumes "service_at up view ok a row v s" and "a = rr_id row"
    and "vw_conf v = Some (revision_root (vw_dir v) a, rn_bundle (rev_of row))" and "vw_up v \<or> vw_fatal v"
  shows "service_linked up view ok s"
  using assms by (auto simp: service_linked_def service_at_def intro!: exI [of _ row])

lemma at_db_inv: "service_at up view ok a row v s \<Longrightarrow> db_inv up (sv_db s)"
  and at_active_eq: "service_at up view ok a row v s \<Longrightarrow> sv_active s = rev_of row"
  by (simp_all add: service_at_def)

lemma wp_finish:
  assumes at: "service_at up view ok i row v (s\<lparr>sv_active := rev_of row\<rparr>)" and i: "i = rr_id row"
    and conf: "vw_conf v = Some (revision_root (vw_dir v) i, rn_bundle (rev_of row))" and up: "vw_up v"
  shows "wp (finish_apply en ws (rev_of row))
    (\<lambda>res s'. service_linked up view ok s' \<and> sv_draft s' = sv_active s' \<and> sv_active s' = rev_of row \<and>
       vw_up (view (sv_rt s')) \<and> ar_changed res \<and> ar_revision_id res = i \<and>
       ar_rule_count res = length (b_resolved (rn_bundle (rev_of row))))
    (\<lambda>e s'. db_inv up (sv_db s') \<and> service_linked up view ok s' \<and> after_activation e) s"
proof -
  define I where "I = (\<lambda>s'. service_at up view ok i row v s' \<and> sv_draft s' = rev_of row)"
  have prune: "wp (on_db PruneError prune_revisions) (\<lambda>_. I)
      (\<lambda>e s'. service_at up view ok i row v s' \<and> after_activation e) t" if "I t" for t
    unfolding wp_on_db prune_revisions_def
    using that by (auto simp: wp_call I_def service_at_def db_inv_prune find_prune)
  have clean: "wp (clean_up en r) (\<lambda>_. I)
      (\<lambda>e s'. service_at up view ok i row v s' \<and> after_activation e) t" if "I t" for t r
    unfolding clean_up_def wp_on_rt
    using that by (auto simp: I_def service_at_def intro!: wp_mono [OF preservesD [OF prune_law [of v]]])
  have link: "service_at up view ok i row v t \<Longrightarrow> db_inv up (sv_db t) \<and> service_linked up view ok t" for t
    using linked_at [OF _ i conf] up at_db_inv by blast
  have fin: "service_linked up view ok t \<and> sv_draft t = rev_of row \<and> sv_active t = rev_of row \<and>
      vw_up (view (sv_rt t))" if "I t" for t
    using that link [of t] up by (simp add: I_def service_at_def)
  have "I (s\<lparr>sv_active := rev_of row, sv_draft := rev_of row\<rparr>)"
    using at by (simp add: I_def service_at_def)
  then show ?thesis
    unfolding finish_apply_def set_active_and_draft_def
    by (auto simp: wp_simps intro!: wp_seq wp_mono [OF prune] wp_mono [OF clean] dest!: link)
      (auto simp: i dest: fin)
qed

lemma resolved_bundle: "bundle_apply_defaults (b\<lparr>b_resolved := rs\<rparr>) = (bundle_apply_defaults b)\<lparr>b_resolved := rs\<rparr>"
  by (simp add: bundle_apply_defaults_def Let_def)

lemma wp_resolve:
  "wp (resolve_bundle en b) (\<lambda>r _. (fst r)\<lparr>b_resolved := []\<rparr> = (bundle_apply_defaults b)\<lparr>b_resolved := []\<rparr>)
     (\<lambda>e _. \<not> activation_error e \<and> \<not> after_activation e) s"
  unfolding resolve_bundle_def Let_def
  by (auto simp: wp_simps wp_compute map_sum_eq_Inl map_sum_eq_Inr intro!: wp_seq
      split: option.split sum.split prod.split)

lemma wp_failing:
  "wp (candidate_failed en cand e) (\<lambda>_ _. False) (\<lambda>e _. \<not> activation_error e \<and> \<not> after_activation e) s"
  "wp (activation_failed en act e) (\<lambda>_ _. False) (\<lambda>e _. activation_error e) s"
  unfolding candidate_failed_def activation_failed_def
  by (auto simp: wp_simps intro!: wp_seq wp_attempt_any)

lemma at_candidate_failed:
  "rn_id cand \<noteq> a \<Longrightarrow> preserves (service_at up view ok a row v) (candidate_failed en cand e)"
  unfolding candidate_failed_def by (auto intro!: preserves_rules at_fail at_restore)

lemma wp_apply_candidate:
  assumes at: "service_at up view ok a row v s" and a: "a = rr_id row"
    and conf: "vw_conf v = Some (revision_root (vw_dir v) a, rn_bundle (rev_of row))" and up: "vw_up v \<or> vw_fatal v"
    and cand: "rn_id cand \<noteq> a" "find_revision (sv_db s) (rn_id cand) = Some r" "cand = rev_of r"
  shows "wp (apply_candidate en act ws cand)
    (\<lambda>res s'. service_linked up view ok s' \<and> sv_draft s' = sv_active s' \<and> rn_id (sv_active s') = rn_id cand \<and>
       rn_bundle (sv_active s') = rn_bundle cand \<and> vw_up (view (sv_rt s')) \<and> ar_changed res \<and>
       ar_revision_id res = rn_id cand \<and> ar_rule_count res = length (b_resolved (rn_bundle cand)))
    (\<lambda>e s'. not_applied up view ok s e s') s" (is "wp _ ?Q ?E s")
proof -
  have not: "not_applied up view ok s e s'" if "service_at up view ok a row v' s'" "vw_conf v' = vw_conf v"
    "vw_dir v' = vw_dir v" "vw_up v' \<or> vw_fatal v'" for e s' v'
    using linked_at [OF that(1) a] that(2-4) conf at_db_inv [OF that(1)] at_active_eq [OF that(1)]
      at_active_eq [OF at] by (simp add: not_applied_def)
  have rejected: "wp (candidate_failed en cand e) ?Q ?E s'"
    if "service_at up view ok a row v' s'" "vw_conf v' = vw_conf v" "vw_dir v' = vw_dir v"
      "vw_up v' \<or> vw_fatal v' \<or> v' = v" for e s' v'
    by (rule wp_mono [OF wp_conj [OF preservesD [OF at_candidate_failed [OF cand(1)] that(1)] wp_failing(1)]])
      (use not that(2-4) up in auto)
  have inactive: "wp (activation_failed en act e) ?Q ?E s'" if "sound up s'" for e s'
    by (rule wp_mono [OF wp_conj [OF preservesD [OF sound_activation_failed that] wp_failing(2)]])
      (auto simp: not_applied_def sound_def)
  have switched: "wp (attempt (on_db StoreError (activate (en_now en) (rn_id cand))))
      (\<lambda>r. wp (case r of Inl e \<Rightarrow> activation_failed en act e | Inr new \<Rightarrow> finish_apply en ws new) ?Q ?E) ?E s'"
    if s': "service_at up view ok a row v' s'" "sv_db s' = sv_db s" and v': "vw_up v'" "vw_dir v' = vw_dir v"
      "vw_conf v' = Some (revision_root (vw_dir v) (rn_id cand), rn_bundle cand)" for s' v'
  proof (rule wp_attempt, rule wp_mono [OF at_activate [OF s'(1)]])
    show "find_revision (sv_db s') (rn_id cand) = Some r" using cand s' by simp
  next
    fix new and t :: "'rt service"
    assume "\<exists>row'. service_at up view ok (rn_id cand) row' v' (t\<lparr>sv_active := new\<rparr>) \<and> new = rev_of row' \<and>
        rn_bundle new = rn_bundle (rev_of r) \<and> rr_id row' = rn_id cand \<and>
        db_app_state (sv_db t) = Some (rn_id cand, rn_id cand) \<and> sv_rt t = sv_rt s'"
    then obtain row' where n: "service_at up view ok (rn_id cand) row' v' (t\<lparr>sv_active := new\<rparr>)"
      "new = rev_of row'" "rn_bundle new = rn_bundle (rev_of r)" "rr_id row' = rn_id cand"
      by blast
    then have r: "service_at up view ok (rn_id cand) row' v' (t\<lparr>sv_active := rev_of row'\<rparr>)"
      "new = rev_of row'" "rn_bundle (rev_of row') = rn_bundle cand" "rn_id cand = rr_id row'"
      using cand(3) by simp_all
    have "wp (finish_apply en ws (rev_of row')) ?Q ?E t"
      by (rule wp_mono [OF wp_finish [OF r(1,4)]])
        (use v' r in \<open>auto simp: not_applied_def\<close>)
    with r show "wp (case Inr new of Inl e \<Rightarrow> activation_failed en act e | Inr new \<Rightarrow> finish_apply en ws new) ?Q ?E t"
      by simp
  next
    fix e and t :: "'rt service"
    assume "db_inv up (sv_db t) \<and> sv_rt t = sv_rt s'"
    then have "sound up t" using s'(1) by (simp add: sound_def service_at_def)
    then show "wp (case Inl e of Inl e \<Rightarrow> activation_failed en act e | Inr new \<Rightarrow> finish_apply en ws new) ?Q ?E t"
      by (simp add: inactive)
  qed
  have at1: "service_at up view ok a row v (s\<lparr>sv_draft := cand\<rparr>)" using at by (simp add: service_at_def)
  show ?thesis
    unfolding apply_candidate_def set_draft_def
    by (rule wp_seq, unfold wp_modify, rule wp_seq, rule wp_attempt, rule wp_mono [OF at_switch [OF at1]])
      (auto simp: conf intro!: wp_seq switched intro: rejected)
qed

lemma wp_apply_changed:
  assumes at: "service_at up view ok a row v s" and a: "a = rr_id row" and en: "en_up en = up"
    and conf: "vw_conf v = Some (revision_root (vw_dir v) a, rn_bundle (rev_of row))" and up: "vw_up v \<or> vw_fatal v"
  shows "wp (apply_changed en act b) (applied up view ok b s) (not_applied up view ok s) s"
proof -
  have not: "not_applied up view ok s e s'" if "service_at up view ok a row v s'" for s' e
    using linked_at [OF that a conf up] at_db_inv [OF that] at_active_eq [OF that] at_active_eq [OF at]
    by (simp add: not_applied_def)
  have candidate: "wp (apply_candidate en act ws cand) (applied up view ok b s) (not_applied up view ok s) s'"
    if s': "service_at up view ok a row v s'" and cand: "rn_id cand \<noteq> a"
      "find_revision (sv_db s') (rn_id cand) = Some r" "cand = rev_of r" "rn_bundle cand = bundle_apply_defaults res"
      and res: "res\<lparr>b_resolved := []\<rparr> = (bundle_apply_defaults b)\<lparr>b_resolved := []\<rparr>" for s' cand r res ws
  proof (rule wp_mono [OF wp_apply_candidate [OF s' a conf up cand(1-3)]])
    have "(rn_bundle cand)\<lparr>b_resolved := []\<rparr> = bundle_apply_defaults (res\<lparr>b_resolved := []\<rparr>)"
      by (simp add: cand(4) resolved_bundle)
    then have "(rn_bundle cand)\<lparr>b_resolved := []\<rparr> = (bundle_apply_defaults b)\<lparr>b_resolved := []\<rparr>"
      by (simp add: res resolved_bundle payload_ok)
    moreover have "rn_id (sv_active s) = a" using at_active_eq [OF at] a by simp
    ultimately show "applied up view ok b s r' t"
      if "service_linked up view ok t \<and> sv_draft t = sv_active t \<and> rn_id (sv_active t) = rn_id cand \<and>
         rn_bundle (sv_active t) = rn_bundle cand \<and> vw_up (view (sv_rt t)) \<and> ar_changed r' \<and>
         ar_revision_id r' = rn_id cand \<and> ar_rule_count r' = length (b_resolved (rn_bundle cand))" for r' t
      using that cand(1) by (simp add: applied_def)
    show "not_applied up view ok s e t" if "not_applied up view ok s' e t" for e t
      using that at_active_eq [OF at] at_active_eq [OF s'] by (simp add: not_applied_def)
  qed
  have "wp (resolve_bundle en b) (\<lambda>r s'. service_at up view ok a row v s' \<and>
      (fst r)\<lparr>b_resolved := []\<rparr> = (bundle_apply_defaults b)\<lparr>b_resolved := []\<rparr>)
      (\<lambda>e s'. service_at up view ok a row v s' \<and> \<not> activation_error e \<and> \<not> after_activation e) s"
    by (rule wp_conj [OF preservesD [OF at_resolve at] wp_resolve])
  then show ?thesis
    unfolding apply_changed_def en
    by (auto intro!: wp_seq wp_mono [OF at_save_draft] candidate elim!: wp_mono simp: not split: prod.split)
qed

lemma wp_apply_unchanged:
  assumes at: "service_at up view ok a row v s" and a: "a = rr_id row"
    and conf: "vw_conf v = Some (revision_root (vw_dir v) a, rn_bundle (rev_of row))" and up: "vw_up v \<or> vw_fatal v"
  shows "wp (apply_unchanged en (rev_of row)) (applied up view ok b s) (not_applied up view ok s) s"
proof -
  have not: "not_applied up view ok s e s'" if "service_at up view ok a row v s'" for s' e
    using linked_at [OF that a conf up] at_db_inv [OF that] at_active_eq [OF that] at_active_eq [OF at]
    by (simp add: not_applied_def)
  have fin: "applied up view ok b s \<lparr>ar_changed = False, ar_revision_id = rr_id row,
      ar_rule_count = length (b_resolved (rn_bundle (rev_of row))), ar_warnings = []\<rparr>
      (s'\<lparr>sv_active := rev_of row, sv_draft := rev_of row\<rparr>)"
    if s': "service_at up view ok a row v s'" for s'
  proof -
    have "service_at up view ok a row v (s'\<lparr>sv_active := rev_of row, sv_draft := rev_of row\<rparr>)"
      using s' by (simp add: service_at_def)
    then show ?thesis
      using linked_at [OF _ a conf up] at_active_eq [OF at] at s' by (simp add: applied_def service_at_def)
  qed
  show ?thesis
    unfolding apply_unchanged_def set_active_and_draft_def
    by (auto simp: wp_simps intro!: wp_seq wp_mono [OF at_reset [OF at]] not fin
        wp_mono [OF preservesD [OF at_prune]] wp_mono [OF preservesD [OF at_clean_up]])
qed

lemma wp_apply_bundle:
  assumes "service_linked up view ok s" and en: "en_up en = up"
  shows "wp (apply_bundle en b) (applied up view ok b s) (not_applied up view ok s) s"
proof -
  obtain row where at: "service_at up view ok (rr_id row) row (view (sv_rt s)) s"
    and conf: "vw_conf (view (sv_rt s)) = Some (revision_root (vw_dir (view (sv_rt s))) (rr_id row), rn_bundle (rev_of row))"
    and up: "vw_up (view (sv_rt s)) \<or> vw_fatal (view (sv_rt s))"
    using assms(1) by (auto simp: service_linked_def)
  have not: "not_applied up view ok s e s" for e
    using assms(1) at_db_inv [OF at] by (simp add: not_applied_def)
  show ?thesis
    unfolding apply_bundle_def
    by (auto simp: wp_simps not intro!: wp_seq wp_mono [OF at_active [OF at]] split: option.split
        intro: wp_apply_changed [OF at refl en conf up] wp_apply_unchanged [OF at refl conf up])
qed

end

end
