(* ===== verification/Daemon_Service.thy ===== *)
theory Daemon_Service
  imports Service_Props
begin

text \<open>
  The service as \<^verbatim>\<open>daemon.Run\<close> builds it: the supervisor as the runtime and the resolver with the
  database as its import cache. They meet the contract of \<open>revision_runtime\<close>, which gives the
  properties of \<^verbatim>\<open>ApplyBundle\<close> on the real components.
\<close>

definition supervisor_ops :: "(string \<Rightarrow> string) \<Rightarrow> string \<Rightarrow> supervisor runtime_ops" where
  "supervisor_ops sha tmp = \<lparr>ro_preflight = preflight sha tmp, ro_prepare = prepare sha,
     ro_apply = sup_apply sha, ro_prune_dirs = prune_revision_dirs\<rparr>"

definition sup_view :: "supervisor \<Rightarrow> rt_view" where
  "sup_view s = \<lparr>vw_conf = rt_conf s, vw_up = rt_up s, vw_fatal = (su_fatal s \<noteq> None), vw_dir = su_state_dir s\<rparr>"

definition daemon_env :: "(string \<Rightarrow> url option) \<Rightarrow> (config \<times> rules_file \<Rightarrow> config \<times> rules_file \<Rightarrow> bool) \<Rightarrow> regexp_pkg
    \<Rightarrow> decoders \<Rightarrow> net_env \<Rightarrow> (string \<Rightarrow> string) \<Rightarrow> (sup_error \<Rightarrow> string) \<Rightarrow> string \<Rightarrow> int \<Rightarrow> supervisor service_env" where
  "daemon_env up deq re dec net sha txt tmp now = \<lparr>en_up = up, en_deq = deq, en_re = re, en_now = now,
     en_text = txt, en_norm = resolver_normalize sha re dec net (Some store_cache),
     en_rt = supervisor_ops sha tmp\<rparr>"

section \<open>The resolver writes its cache only\<close>

definition cache_only :: "db \<Rightarrow> db \<Rightarrow> bool" where
  "cache_only d d' \<longleftrightarrow> (\<exists>c. d' = d\<lparr>db_import_cache := c\<rparr>)"

lemma cache_only_refl [simp]: "cache_only d d"
  by (auto simp: cache_only_def intro: exI [of _ "db_import_cache d"])

lemma cache_only_trans: "cache_only d d' \<Longrightarrow> cache_only d' d'' \<Longrightarrow> cache_only d d''"
  by (auto simp: cache_only_def)

lemma cache_put: "ic_put store_cache d e = Some d' \<Longrightarrow> cache_only d d'"
  by (auto simp: store_cache_def put_import_cache_def call_cases sql_put_import_def cache_only_def)

lemma resolver_read_cache: "cache_only d (snd (resolver_read sha net (Some store_cache) d imp))"
  using cache_put by (auto simp: resolver_read_def Let_def split: sum.split option.split)

lemma resolve_import_cache: "cache_only d (snd (resolve_import sha re dec net (Some store_cache) d imp))"
  using resolver_read_cache [of d sha net imp]
  by (auto simp: resolve_import_def split: sum.split option.split prod.split)

lemma resolve_all_cache: "cache_only d (snd (resolve_all sha re dec net (Some store_cache) d imps))"
proof (induction imps arbitrary: d)
  case (Cons imp imps)
  show ?case
    using resolve_import_cache [of d sha re dec net imp]
      Cons [of "snd (resolve_import sha re dec net (Some store_cache) d imp)"]
    by (auto simp: Let_def split: prod.split intro: cache_only_trans)
qed simp

lemma resolver_normalize_cache: "cache_only d (snd (resolver_normalize sha re dec net (Some store_cache) d f))"
  using resolve_all_cache [of d sha re dec net "rf_imports f"]
  by (auto simp: resolver_normalize_def Let_def split: sum.split prod.split)

section \<open>The supervisor keeps the contract\<close>

lemma preserves_dir:
  "preserves (\<lambda>s. su_state_dir s = d) (report_fatal e)" "preserves (\<lambda>s. su_state_dir s = d) (stop_group i)"
  "preserves (\<lambda>s. su_state_dir s = d) (load_nft root)" "preserves (\<lambda>s. su_state_dir s = d) (set_current c)"
  unfolding report_fatal_def stop_group_def load_nft_def set_current_def update_group_def
  by (auto intro!: preserves_rules split: option.split)

lemma preserves_dir_start_commands: "preserves (\<lambda>s. su_state_dir s = d) (start_commands i cs)"
  by (induction cs) (auto intro!: preserves_rules simp: update_group_def)

lemma preserves_dir_start: "preserves (\<lambda>s. su_state_dir s = d) (start_group sha root b)"
  unfolding start_group_def abort_group_def
  by (auto intro!: preserves_rules preserves_dir preserves_dir_start_commands)

lemma preserves_dir_apply: "preserves (\<lambda>s. su_state_dir s = d) (sup_apply sha root b)"
  unfolding sup_apply_def stop_previous_def restore_if_def restore_locked_def
  by (auto intro!: preserves_rules preserves_dir preserves_dir_start)

lemma same_view: "same_but_dirs s s' \<Longrightarrow> sup_inv sha s' = sup_inv sha s \<and> sup_view s' = sup_view s"
  by (simp add: sup_view_def same_simps)

lemma preserves_view:
  assumes "\<And>s0. preserves (same_but_dirs s0) m"
  shows "preserves (\<lambda>s. sup_inv sha s \<and> sup_view s = v) m"
  unfolding preserves_def
proof (intro allI impI)
  fix s
  assume s: "sup_inv sha s \<and> sup_view s = v"
  show "wp m (\<lambda>_ s. sup_inv sha s \<and> sup_view s = v) (\<lambda>_ s. sup_inv sha s \<and> sup_view s = v) s"
    by (rule wp_mono [OF preservesD [OF assms [of s] same_refl]]) (use s same_view in auto)
qed

lemma wp_prepare:
  "wp (prepare sha i b) (\<lambda>root s'. same_but_dirs s s' \<and> root = revision_root (su_state_dir s) i)
     (\<lambda>_ s'. same_but_dirs s s') s"
  unfolding prepare_def
  by (auto simp: wp_simps intro!: wp_seq wp_mono [OF preservesD [OF preserves_prepare_at [of s]]])

lemma wp_apply_contract:
  assumes "sup_inv sha s"
  shows "wp (sup_apply sha root b)
     (\<lambda>_ s'. sup_inv sha s' \<and> vw_conf (sup_view s') = Some (root, b) \<and> vw_up (sup_view s') \<and>
        vw_dir (sup_view s') = vw_dir (sup_view s))
     (\<lambda>_ s'. sup_inv sha s' \<and> vw_conf (sup_view s') = vw_conf (sup_view s) \<and> vw_dir (sup_view s') = vw_dir (sup_view s) \<and>
        (vw_conf (sup_view s) = None \<or> vw_up (sup_view s') \<or> vw_fatal (sup_view s'))) s"
  by (rule wp_mono [OF wp_conj [OF wp_sup_apply [OF assms] preservesD [OF preserves_dir_apply refl]]])
    (auto simp: settled_def sup_view_def)

interpretation daemon: revision_runtime "daemon_env up deq re dec net sha txt tmp now" sup_view "sup_inv sha"
proof (unfold_locales, goal_cases)
  case (1 r i b)
  then show ?case
    by (auto simp: daemon_env_def supervisor_ops_def sup_view_def
        intro!: wp_mono [OF wp_prepare] dest: same_simps)
next
  case (2 v b)
  show ?case unfolding daemon_env_def supervisor_ops_def by (simp add: preserves_view preserves_file_ops)
next
  case (3 v dir keep)
  show ?case unfolding daemon_env_def supervisor_ops_def by (simp add: preserves_view preserves_file_ops)
next
  case (4 r root b)
  then show ?case unfolding daemon_env_def supervisor_ops_def by (simp add: wp_apply_contract)
next
  case (5 d f)
  show ?case using resolver_normalize_cache [of d sha re dec net f] by (simp add: daemon_env_def cache_only_def)
qed

section \<open>Applying a bundle\<close>



section \<open>A daemon to try it on\<close>

definition sample_decoders :: decoders where
  "sample_decoders = no_decoders\<lparr>json_parse := (\<lambda>_. Some (JObj [(''rules'',
     JArr [JObj [(''domain_suffix'', JStr ''example.org'')]])]))\<rparr>"

definition sample_env :: "supervisor service_env" where
  "sample_env = daemon_env (\<lambda>_. None) (\<lambda>_ _. False) plain_re sample_decoders (sample_net 200) (\<lambda>_. []) (\<lambda>_. ''e'') ''/t'' 7"

definition sample_active :: revision where
  "sample_active = (case fst (initialize (\<lambda>_. None) 0 sample_bundle (empty_db, [])) of Inr r \<Rightarrow> r)"

definition sample_service :: "supervisor service" where
  "sample_service = \<lparr>sv_db = sample_db,
     sv_rt = fst (snd (sup_boot (\<lambda>_. []) (revision_root ''/s'' 1) (rn_bundle sample_active) (new_supervisor ''/s'', []))),
     sv_active = sample_active, sv_draft = sample_active\<rparr>"

lemma sample_active_eq: "sample_active = rev_of (new_row 0 Active (bundle_apply_defaults sample_bundle) empty_db)"
  unfolding sample_active_def initialize_run [OF sample_valid] by simp

lemma sample_find: "find_revision sample_db 1 = Some (new_row 0 Active (bundle_apply_defaults sample_bundle) empty_db)"
  unfolding sample_db_def initialize_run [OF sample_valid]
  by (simp add: add_row_def empty_db_def find_revision_def new_row_def)

lemma sample_boots:
  "rt_conf (sv_rt sample_service) = Some (revision_root ''/s'' 1, rn_bundle sample_active)"
  "rt_up (sv_rt sample_service)" "su_state_dir (sv_rt sample_service) = ''/s''"
proof -
  let ?b = "sup_boot (\<lambda>_. []) (revision_root ''/s'' 1) (rn_bundle sample_active) (new_supervisor ''/s'', [])"
  obtain r s' fs' where run: "?b = (r, s', fs')" by (cases ?b)
  have "case fst ?b of Inr _ \<Rightarrow> su_state_dir (fst (snd ?b)) = ''/s'' | Inl _ \<Rightarrow> False"
    unfolding sample_active_eq rn_bundle_rev_of new_row_simps by code_simp
  with run have r: "r = Inr ()" "su_state_dir s' = ''/s''" by (auto split: sum.splits)
  have "quiet (new_supervisor ''/s'')" "su_current (new_supervisor ''/s'') = None"
    by (simp_all add: quiet_def new_supervisor_def)
  from wp_run [OF wp_sup_boot [OF this] run] r run
  show "rt_conf (sv_rt sample_service) = Some (revision_root ''/s'' 1, rn_bundle sample_active)"
    "rt_up (sv_rt sample_service)" "su_state_dir (sv_rt sample_service) = ''/s''"
    by (simp_all add: sample_service_def)
qed

lemma sample_at: "service_at (\<lambda>_. None) sup_view (sup_inv (\<lambda>_. [])) 1
    (new_row 0 Active (bundle_apply_defaults sample_bundle) empty_db) (sup_view (sv_rt sample_service)) sample_service"
  using sample_db_inv sample_find boot_inv
  by (simp add: service_at_def sample_db_simps sample_active_eq [symmetric])
    (simp add: sample_service_def sample_db_simps)

lemma sample_linked: "service_linked (\<lambda>_. None) sup_view (sup_inv (\<lambda>_. [])) sample_service"
proof (rule daemon.linked_at [OF sample_at])
  show "1 = rr_id (new_row 0 Active (bundle_apply_defaults sample_bundle) empty_db)"
    by (simp add: empty_db_def)
qed (simp_all add: sup_view_def sample_boots sample_active_eq)

section \<open>Runs of the sample daemon\<close>

lemma may_on_db:
  assumes "sv_db s = d" and "may m d r d'"
  shows "may (on_db h m) s (map_sum h id r) (s\<lparr>sv_db := d'\<rparr>)"
  unfolding on_db_def using assms by (intro may_lift) simp

lemmas may_on_db_ok = may_on_db [where r = "Inr x" for x, simplified]

lemma may_on_rt_ok:
  assumes "sv_rt s = rt" and "may m rt (Inr x) rt'"
  shows "may (on_rt h m) s (Inr x) (s\<lparr>sv_rt := rt'\<rparr>)"
proof -
  have "may (on_rt h m) s (map_sum h id (Inr x)) (s\<lparr>sv_rt := rt'\<rparr>)"
    unfolding on_rt_def using assms by (intro may_lift) simp
  then show ?thesis by simp
qed

lemma smooth_on_rt: "smooth m \<Longrightarrow> smooth (on_rt h m)"
  unfolding on_rt_def by (rule smooth_lift)

text \<open>The sample bundle resolves, and what it resolves to can be rendered.\<close>

lemma sample_resolves:
  "\<exists>n d. en_norm sample_env sample_db (b_rules (bundle_apply_defaults sample_bundle)) = (Inr n, d) \<and>
     (\<exists>c. compile plain_re n = Inr c) \<and>
     (\<exists>files. generate_at (\<lambda>_. []) (b_config (bundle_apply_defaults sample_bundle))
        \<lparr>n_rules = n_rules n, n_warnings = []\<rparr> ''/s/revisions/2'' = Ret (Inr files))"
proof -
  define r where "r = en_norm sample_env sample_db (b_rules (bundle_apply_defaults sample_bundle))"
  have "case fst r of Inr n \<Rightarrow> (case compile plain_re n of Inr _ \<Rightarrow>
      (case generate_at (\<lambda>_. []) (b_config (bundle_apply_defaults sample_bundle)) \<lparr>n_rules = n_rules n, n_warnings = []\<rparr>
        ''/s/revisions/2'' of Ret (Inr _) \<Rightarrow> True | _ \<Rightarrow> False) | _ \<Rightarrow> False) | _ \<Rightarrow> False"
    unfolding r_def by code_simp
  then show ?thesis
    unfolding r_def [symmetric] by (cases r) (auto split: sum.splits go.splits; metis sum.exhaust)
qed

lemma sample_checks:
  "validate (\<lambda>_. None) (b_config (bundle_apply_defaults sample_bundle)) = None"
  "validate_managed (b_rules (bundle_apply_defaults sample_bundle)) = None"
  "validate_managed (b_rules sample_bundle) = None"
  "validate_dns_pool_references (b_rules (bundle_apply_defaults sample_bundle))
     (pool_names (cf_dns (b_config (bundle_apply_defaults sample_bundle)))) = None"
  "revision_root ''/s'' 2 = ''/s/revisions/2''"
  by code_simp+

lemma sample_env_simps [simp]:
  "en_up sample_env = (\<lambda>_. None)" "en_deq sample_env = (\<lambda>_ _. False)" "en_re sample_env = plain_re"
  "en_now sample_env = 7" "en_rt sample_env = supervisor_ops (\<lambda>_. []) ''/t''"
  by (simp_all add: sample_env_def daemon_env_def)

text \<open>Up to the candidate: it is draft revision 2, and revision 1 is still the active one.\<close>

definition sample_row :: revision_row where
  "sample_row = new_row 0 Active (bundle_apply_defaults sample_bundle) empty_db"

lemma sample_candidate:
  "\<exists>s cand ws r. (\<forall>res s'. may (apply_candidate sample_env (rev_of sample_row) ws cand) s res s' \<longrightarrow>
       may (apply_bundle sample_env sample_bundle) sample_service res s') \<and>
     service_at (\<lambda>_. None) sup_view (sup_inv (\<lambda>_. [])) 1 sample_row (sup_view (sv_rt sample_service)) s \<and>
     rn_id cand = 2 \<and> find_revision (sv_db s) 2 = Some r \<and> cand = rev_of r \<and>
     (\<exists>files. generate_at (\<lambda>_. []) (b_config (rn_bundle cand)) (bundle_normalized (rn_bundle cand)) (revision_root ''/s'' 2) = Ret (Inr files))"
proof -
  let ?b = "bundle_apply_defaults sample_bundle"
  obtain n d where n: "en_norm sample_env sample_db (b_rules ?b) = (Inr n, d)" "\<exists>c. compile plain_re n = Inr c"
    and files: "\<exists>files. generate_at (\<lambda>_. []) (b_config ?b) \<lparr>n_rules = n_rules n, n_warnings = []\<rparr> ''/s/revisions/2'' = Ret (Inr files)"
    using sample_resolves by blast
  have db: "sv_db sample_service = sample_db" by (simp add: sample_service_def)
  define s1 where "s1 = sample_service\<lparr>sv_db := d\<rparr>"
  define res where "res = ?b\<lparr>b_resolved := n_rules n\<rparr>"
  have resolve: "may (resolve_bundle sample_env sample_bundle) sample_service (Inr (res, n_warnings n)) s1"
    unfolding resolve_bundle_def Let_def sample_env_simps sample_checks option.case
    by (rule may_seq [OF may_compute]) (use n db in \<open>auto simp: s1_def res_def may_basic\<close>)
  have cache: "cache_only sample_db d"
    using resolver_normalize_cache n(1) by (metis sample_env_def daemon_env_def service_env.select_convs(6) snd_conv)
  then have inv: "db_inv (\<lambda>_. None) d" and st: "db_app_state d = Some (1, 1)" and seq1: "db_rev_seq d = 1"
    and find1: "find_revision d 1 = find_revision sample_db 1"
    using sample_db_inv sample_db_simps by (auto simp: cache_only_def find_revision_def)
  define cand where "cand = new_row 7 Draft (bundle_apply_defaults res) d"
  define d2 where "d2 = (add_row 7 Draft (bundle_apply_defaults res) d)\<lparr>db_app_state := Some (1, 2)\<rparr>"
  have res_eq: "bundle_apply_defaults res = res" by (simp add: res_def daemon.resolved_bundle payload_ok)
  have "validate (\<lambda>_. None) (b_config (bundle_apply_defaults res)) = None"
    using sample_checks(1) unfolding res_eq by (simp add: res_def)
  from may_save_draft [OF inv this st, of 7] have save: "may (save_draft (\<lambda>_. None) 7 res) d (Inr (rev_of cand)) d2"
    by (simp add: seq1 cand_def d2_def)
  define s2 where "s2 = sample_service\<lparr>sv_db := d2\<rparr>"
  have valid: "validate (\<lambda>_. None) (b_config (bundle_apply_defaults res)) = None"
    using sample_checks(1) unfolding res_eq by (simp add: res_def)
  have one: "1 \<in> rev_ids d" using inv st by (simp add: db_inv_def)
  have at: "service_at (\<lambda>_. None) sup_view (sup_inv (\<lambda>_. [])) 1 sample_row (sup_view (sv_rt sample_service)) s2"
    using sample_at find1 sample_find find_add_row_old [OF inv one] db_inv_save_draft [OF inv st valid, of 7]
    by (simp add: service_at_def s2_def d2_def seq1 sample_row_def)
  have find2: "find_revision (sv_db s2) 2 = Some cand"
    using find_add_row [OF inv, of 7] by (simp add: s2_def d2_def seq1 cand_def)
  have run: "may (apply_bundle sample_env sample_bundle) sample_service r s'"
    if "may (apply_candidate sample_env (rev_of sample_row) (n_warnings n) (rev_of cand)) s2 r s'" for r s'
  proof -
    have "may (on_db StoreError (save_draft (\<lambda>_. None) 7 res)) s1 (Inr (rev_of cand)) s2"
      using may_on_db_ok [of s1 d, OF _ save, of StoreError] by (simp add: s1_def s2_def)
    then have "may (apply_changed sample_env (rev_of sample_row) sample_bundle) sample_service r s'"
      unfolding apply_changed_def sample_env_simps
      by (intro may_seq [OF resolve]) (auto intro: may_seq that)
    moreover have "may (on_db StoreError store_active) sample_service (Inr (rev_of sample_row)) sample_service"
      using may_on_db_ok [OF db may_store_active [OF sample_db_simps(1)], of "sample_row" StoreError] sample_find
      by (simp add: db [symmetric] sample_row_def)
    ultimately show ?thesis
      unfolding apply_bundle_def sample_env_simps sample_checks(3) option.case
      by (intro may_seq) (auto simp: same_input_def Let_def)
  qed
  have cand: "rn_id (rev_of cand) = 2" "rn_bundle (rev_of cand) = res"
    by (simp_all add: cand_def seq1 rn_bundle_rev_of res_eq payload_ok)
  have "\<exists>files. generate_at (\<lambda>_. []) (b_config res) (bundle_normalized res) (revision_root ''/s'' 2) = Ret (Inr files)"
    using files by (simp add: res_def bundle_normalized_def sample_checks)
  with run at find2 cand show ?thesis
    by (intro exI [of _ s2] exI [of _ "rev_of cand"] exI [of _ "n_warnings n"] exI [of _ cand]) simp
qed

text \<open>The candidate's processes run; the activation is next.\<close>

lemma sample_switched:
  "\<exists>s ws r v. (\<forall>res s'. may (seq (attempt (on_db StoreError (activate 7 2))) (\<lambda>r. case r of
         Inl e \<Rightarrow> activation_failed sample_env (rev_of sample_row) e | Inr new \<Rightarrow> finish_apply sample_env ws new)) s res s' \<longrightarrow>
       may (apply_bundle sample_env sample_bundle) sample_service res s') \<and>
     service_at (\<lambda>_. None) sup_view (sup_inv (\<lambda>_. [])) 1 sample_row v s \<and> find_revision (sv_db s) 2 = Some r"
proof -
  obtain s cand ws r where run: "\<And>res s'. may (apply_candidate sample_env (rev_of sample_row) ws cand) s res s' \<Longrightarrow>
       may (apply_bundle sample_env sample_bundle) sample_service res s'"
    and at: "service_at (\<lambda>_. None) sup_view (sup_inv (\<lambda>_. [])) 1 sample_row (sup_view (sv_rt sample_service)) s"
    and cand: "rn_id cand = 2" "find_revision (sv_db s) 2 = Some r" "cand = rev_of r"
    and files: "\<exists>files. generate_at (\<lambda>_. []) (b_config (rn_bundle cand)) (bundle_normalized (rn_bundle cand)) (revision_root ''/s'' 2) = Ret (Inr files)"
    using sample_candidate by blast
  define s1 where "s1 = s\<lparr>sv_draft := cand\<rparr>"
  have at1: "service_at (\<lambda>_. None) sup_view (sup_inv (\<lambda>_. [])) 1 sample_row (sup_view (sv_rt sample_service)) s1"
    using at by (simp add: s1_def service_at_def)
  have dir: "vw_dir (sup_view (sv_rt sample_service)) = ''/s''" by (simp add: sup_view_def sample_boots)
  have "su_state_dir (sv_rt s1) = ''/s''" using at1 dir by (simp add: service_at_def sup_view_def)
  moreover have "smooth (prepare_at (\<lambda>_. []) (revision_root ''/s'' 2) (rn_bundle cand))"
    using files smooth_prepare_at by blast
  ultimately obtain rt where "may (prepare_at (\<lambda>_. []) (revision_root (su_state_dir (sv_rt s1)) 2) (rn_bundle cand)) (sv_rt s1) (Inr ()) rt"
    by (auto simp: smooth_def)
  then have "may (prepare (\<lambda>_. []) 2 (rn_bundle cand)) (sv_rt s1) (Inr (revision_root (su_state_dir (sv_rt s1)) 2)) rt"
    unfolding prepare_def by (rule may_seq [OF may_basic(3) may_seq [OF _ may_basic(1)]])
  moreover obtain rt' where "may (sup_apply (\<lambda>_. []) (revision_root (su_state_dir (sv_rt s1)) 2) (rn_bundle cand)) rt (Inr ()) rt'"
    using smooth_sup_apply by (fastforce simp: smooth_def)
  ultimately have switch: "may (switch_runtime sample_env cand) s1 (Inr ()) (s1\<lparr>sv_rt := rt'\<rparr>)"
    unfolding switch_runtime_def on_rt_def sample_env_simps supervisor_ops_def cand(1) runtime_ops.select_convs
    using may_lift [where g = sv_rt and p = "\<lambda>r s. s\<lparr>sv_rt := r\<rparr>" and h = RuntimeError and t = s1]
      may_lift [where g = sv_rt and p = "\<lambda>r s. s\<lparr>sv_rt := r\<rparr>" and h = RuntimeError and t = "s1\<lparr>sv_rt := rt\<rparr>"]
    by (intro may_seq) fastforce+
  have env: "sample_env = daemon_env (\<lambda>_. None) (\<lambda>_ _. False) plain_re sample_decoders (sample_net 200) (\<lambda>_. []) (\<lambda>_. ''e'') ''/t'' 7"
    by (rule sample_env_def)
  obtain v where v: "service_at (\<lambda>_. None) sup_view (sup_inv (\<lambda>_. [])) 1 sample_row v (s1\<lparr>sv_rt := rt'\<rparr>)"
    using may_wp [OF switch [unfolded env] daemon.at_switch [OF at1]] dir cand(1) by auto
  have "may (apply_bundle sample_env sample_bundle) sample_service res s'"
    if "may (seq (attempt (on_db StoreError (activate 7 2))) (\<lambda>r. case r of
         Inl e \<Rightarrow> activation_failed sample_env (rev_of sample_row) e | Inr new \<Rightarrow> finish_apply sample_env ws new))
       (s1\<lparr>sv_rt := rt'\<rparr>) res s'" for res s'
    using that unfolding sample_env_simps
    by (intro run, unfold apply_candidate_def set_draft_def, intro may_seq [OF may_basic(4)] may_seq [OF may_attempt])
      (use switch cand(1) in \<open>auto simp: s1_def\<close>)
  moreover have "find_revision (sv_db (s1\<lparr>sv_rt := rt'\<rparr>)) 2 = Some r" using cand(2) by (simp add: s1_def)
  ultimately show ?thesis
    using v by (intro exI [of _ "s1\<lparr>sv_rt := rt'\<rparr>"] exI [of _ ws] exI [of _ r] exI [of _ v]) auto
qed



section \<open>The activation that is committed but not read back\<close>

text \<open>
  \<^verbatim>\<open>Activate\<close> reads the revision back after its commit, and \<^verbatim>\<open>ApplyBundle\<close> takes a failure of
  that read for a failed activation: it switches the processes back and restores what the database
  now calls active, the candidate. A daemon can so end up with an apply reported as failed, the new
  revision active in the database and the cache, and the processes of the old one running.
\<close>

theorem activation_read_failure:
  "\<exists>fs e s'. apply_bundle sample_env sample_bundle (sample_service, fs) = (Inl e, s', []) \<and>
     activation_error e \<and> rn_id (sv_active sample_service) = 1 \<and> rn_id (sv_active s') = 2 \<and>
     db_app_state (sv_db s') = Some (2, 2) \<and> rt_conf (sv_rt s') = Some (revision_root (state_dir sample_active) 1, rn_bundle sample_active)"
proof -
  obtain s ws r v where run: "\<And>res s'. may (seq (attempt (on_db StoreError (activate 7 2))) (\<lambda>r. case r of
         Inl e \<Rightarrow> activation_failed sample_env (rev_of sample_row) e | Inr new \<Rightarrow> finish_apply sample_env ws new)) s res s' \<Longrightarrow>
       may (apply_bundle sample_env sample_bundle) sample_service res s'"
    and at: "service_at (\<lambda>_. None) sup_view (sup_inv (\<lambda>_. [])) 1 sample_row v s" and find: "find_revision (sv_db s) 2 = Some r"
    using sample_switched by blast
  define d where "d = activated 7 2 (sv_db s)"
  obtain dr where inv: "db_inv (\<lambda>_. None) (sv_db s)" "db_app_state (sv_db s) = Some (1, dr)" "2 \<in> rev_ids (sv_db s)"
    using at find_revision_SomeD [OF find] by (force simp: service_at_def rev_ids_def)
  have 1: "may (attempt (on_db StoreError (activate 7 2))) s (Inr (Inl (StoreError DriverFailed))) (s\<lparr>sv_db := d\<rparr>)"
    using may_attempt [OF may_on_db [OF refl may_activate(2) [OF inv(1,3,2), of 7], of StoreError]] by (simp add: d_def)
  have inv_d: "db_inv (\<lambda>_. None) d" unfolding d_def by (rule db_inv_activated [OF inv(1,3)])
  have "2 \<in> rev_ids d" unfolding d_def by (metis inv(3) activated_ids list.set_map rev_ids_def)
  then obtain row where row: "find_revision d 2 = Some row" using find_revision_ids by blast
  have st: "db_app_state d = Some (2, 2)" by (simp add: d_def)
  let ?root = "revision_root (state_dir (rev_of sample_row)) (rn_id (rev_of sample_row))"
  obtain rt where rt: "may (sup_apply (\<lambda>_. []) ?root (rn_bundle (rev_of sample_row))) (sv_rt s) (Inr ()) rt"
    using smooth_sup_apply by (fastforce simp: smooth_def)
  have "sup_inv (\<lambda>_. []) (sv_rt s)" using at by (simp add: service_at_def)
  from may_wp [OF rt wp_apply_contract [OF this]]
  have conf: "rt_conf rt = Some (?root, rn_bundle (rev_of sample_row))" by (simp add: sup_view_def)
  have 2: "may (attempt (on_rt RuntimeError (sup_apply (\<lambda>_. []) ?root (rn_bundle (rev_of sample_row))))) (s\<lparr>sv_db := d\<rparr>)
      (Inr (Inr ())) (s\<lparr>sv_db := d, sv_rt := rt\<rparr>)"
    using may_attempt [OF may_on_rt_ok [OF _ rt, of "s\<lparr>sv_db := d\<rparr>" RuntimeError]] by simp
  define s3 where "s3 = s\<lparr>sv_db := d, sv_rt := rt\<rparr>"
  have 3: "may (on_db StoreError reset_draft_to_active) s3 (Inr (rev_of row)) (s3\<lparr>sv_db := d\<lparr>db_app_state := Some (2, 2)\<rparr>\<rparr>)"
    using may_on_db_ok [OF _ may_reset_draft [OF inv_d st row], of s3 StoreError] by (simp add: s3_def)
  define s4 where "s4 = s3\<lparr>sv_db := d\<lparr>db_app_state := Some (2, 2)\<rparr>, sv_active := rev_of row, sv_draft := rev_of row\<rparr>"
  define s5 where "s5 = s4\<lparr>sv_db := sql_prune (d\<lparr>db_app_state := Some (2, 2)\<rparr>)\<rparr>"
  have 4: "may (on_db PruneError prune_revisions) s4 (Inr ()) s5"
    using may_on_db_ok [OF _ may_prune, of s4 "d\<lparr>db_app_state := Some (2, 2)\<rparr>" PruneError] by (simp add: s4_def s5_def)
  obtain rt2 where rt2: "may (prune_revision_dirs (state_dir (rev_of row)) [rn_id (rev_of row)]) rt (Inr ()) rt2"
    using smooth_prune_dirs by (fastforce simp: smooth_def)
  have conf2: "rt_conf rt2 = rt_conf rt"
    using may_wp [OF rt2 preservesD [OF preserves_file_ops(3) same_refl]] same_simps by blast
  have 5: "may (clean_up sample_env (rev_of row)) s5 (Inr ()) (s5\<lparr>sv_rt := rt2\<rparr>)"
    unfolding clean_up_def sample_env_simps supervisor_ops_def runtime_ops.select_convs
    by (rule may_on_rt_ok [OF _ rt2]) (simp add: s5_def s4_def s3_def)
  have set: "may (set_active_and_draft (rev_of row)) (s3\<lparr>sv_db := d\<lparr>db_app_state := Some (2, 2)\<rparr>\<rparr>) (Inr ()) s4"
    unfolding set_active_and_draft_def using may_basic(4) by (fastforce simp: s4_def)
  have 6: "may (restore_active_draft sample_env) s3 (Inr ()) (s5\<lparr>sv_rt := rt2\<rparr>)"
    unfolding restore_active_draft_def by (rule may_seq, rule 3, rule may_seq, rule set, rule may_seq, rule 4, rule 5)
  have "may (activation_failed sample_env (rev_of sample_row) (StoreError DriverFailed)) (s\<lparr>sv_db := d\<rparr>)
      (Inl (ActivationFailed (StoreError DriverFailed) None None)) (s5\<lparr>sv_rt := rt2\<rparr>)"
    unfolding activation_failed_def sample_env_simps supervisor_ops_def runtime_ops.select_convs
    by (rule may_seq, rule 2, rule may_seq, rule may_attempt, rule 6 [unfolded s3_def]) (simp add: left_def may_basic)
  with 1 have "may (apply_bundle sample_env sample_bundle) sample_service
      (Inl (ActivationFailed (StoreError DriverFailed) None None)) (s5\<lparr>sv_rt := rt2\<rparr>)"
    by (intro run) (auto intro: may_seq)
  from may_run [OF this] obtain fs where "apply_bundle sample_env sample_bundle (sample_service, fs) =
      (Inl (ActivationFailed (StoreError DriverFailed) None None), s5\<lparr>sv_rt := rt2\<rparr>, [])" ..
  moreover have "sample_active = rev_of sample_row" "rn_id sample_active = 1" "rn_id (rev_of row) = 2"
    using find_revision_SomeD [OF row] by (simp_all add: sample_active_eq sample_row_def empty_db_def)
  ultimately show ?thesis
    using conf conf2 by (intro exI [of _ fs] exI) (auto simp: s5_def s4_def sample_service_def sql_prune_def)
qed

end
