(* ===== verification/Updater.thy ===== *)
theory Updater
  imports Go_Path Fallible
begin

text \<open>
  \<^verbatim>\<open>internal/updater/updater.go\<close>: checking for a release, replacing the binary, and confirming or rolling
  back the replacement at the next start.

  The file system maps paths to contents; a content is text or the record \<^verbatim>\<open>pending\<close> in JSON (which
  \<^verbatim>\<open>json.Unmarshal\<close> reads back). Every file operation is a fallible call, and \<^verbatim>\<open>copyFile\<close> and \<^verbatim>\<open>os.WriteFile\<close> are
  split where a failure leaves something behind. What the server answers, SHA-256 in hexadecimal, and
  what a binary prints for \<^verbatim>\<open>version\<close> are parameters.
\<close>

datatype content = Raw string | PendingJson string string

type_synonym files = "string \<Rightarrow> content option"

record update_info =
  ui_current :: string
  ui_latest :: string
  ui_available :: bool
  ui_asset_url :: string
  ui_sum_url :: string

record release =
  re_tag_name :: string
  re_assets :: "(string \<times> string) list"

record update_env =
  ue_release :: "release option"
  ue_fetch :: "string \<Rightarrow> string option"
  ue_sha256 :: "string \<Rightarrow> string"
  ue_version :: "string \<Rightarrow> string option"
  ue_arch :: string
  ue_tmp :: string

datatype update_error = Io | NotFound | CheckFailed | LacksAsset | DownloadFailed | BadChecksumFile | ChecksumMismatch
  | VersionMismatch | BadPending

type_synonym 'a update_act = "(files, update_error, 'a) act"

definition the_text :: "content \<Rightarrow> string" where
  "the_text c = (case c of Raw s \<Rightarrow> s | PendingJson _ _ \<Rightarrow> [])"

section \<open>File operations\<close>

definition read_file :: "string \<Rightarrow> content update_act" where
  "read_file p = call Io (\<lambda>f. (case f p of None \<Rightarrow> Inl NotFound | Some c \<Rightarrow> Inr c, f))"

definition put_file :: "string \<Rightarrow> content \<Rightarrow> unit update_act" where
  "put_file p c = call Io (\<lambda>f. (Inr (), f(p \<mapsto> c)))"

definition remove_file :: "string \<Rightarrow> unit update_act" where
  "remove_file p = call Io (\<lambda>f. (if f p = None then Inl NotFound else Inr (), f(p := None)))"

definition rename_file :: "string \<Rightarrow> string \<Rightarrow> unit update_act" where
  "rename_file p q = call Io (\<lambda>f. case f p of None \<Rightarrow> (Inl NotFound, f) | Some c \<Rightarrow> (Inr (), f(q \<mapsto> c, p := None)))"

definition effect_free :: "unit update_act" where
  "effect_free = call Io (\<lambda>f. (Inr (), f))"

text \<open>\<^verbatim>\<open>_ = os.Remove(p)\<close>.\<close>

definition try_remove :: "string \<Rightarrow> unit update_act" where
  "try_remove p = seq (attempt (remove_file p)) (\<lambda>_. ret ())"

text \<open>A temporary file beside the target, synced and renamed; its removal on an error may fail too.\<close>

definition copy_file :: "string \<Rightarrow> string \<Rightarrow> unit update_act" where
  "copy_file src dst = (let tmp = dst @ ''.tmp'' in
     seq (read_file src) (\<lambda>c.
     seq (put_file tmp (Raw [])) (\<lambda>_.
     seq (attempt (put_file tmp c)) (\<lambda>r. case r of Inl e \<Rightarrow> seq (try_remove tmp) (\<lambda>_. fail e) | Inr _ \<Rightarrow>
     seq (attempt effect_free) (\<lambda>r. case r of Inl e \<Rightarrow> seq (try_remove tmp) (\<lambda>_. fail e) | Inr _ \<Rightarrow>
     seq (attempt effect_free) (\<lambda>r. case r of Inl e \<Rightarrow> seq (try_remove tmp) (\<lambda>_. fail e) | Inr _ \<Rightarrow>
     rename_file tmp dst))))))"

definition pending_path :: "string \<Rightarrow> string" where
  "pending_path dir = path_join [dir, ''update-pending.json'']"

text \<open>\<^verbatim>\<open>os.WriteFile\<close> truncates before it writes.\<close>

definition write_pending :: "string \<Rightarrow> string \<Rightarrow> string \<Rightarrow> unit update_act" where
  "write_pending dir binary backup = seq (put_file (pending_path dir) (Raw [])) (\<lambda>_.
     put_file (pending_path dir) (PendingJson binary backup))"

section \<open>Checking\<close>

fun asset_urls :: "string \<Rightarrow> (string \<times> string) list \<Rightarrow> string \<times> string \<Rightarrow> string \<times> string" where
  "asset_urls name [] u = u"
| "asset_urls name ((n, url) # as) (a, s) = asset_urls name as
     (if n = name then (url, s) else if n = name @ ''.sha256'' then (a, url) else (a, s))"

definition update_check :: "update_env \<Rightarrow> string \<Rightarrow> update_info update_act" where
  "update_check en current = call CheckFailed (\<lambda>f. (case ue_release en of None \<Rightarrow> Inl CheckFailed
     | Some r \<Rightarrow> let latest = trim_prefix (re_tag_name r) ''v''; name = ''5gws-linux-'' @ ue_arch en;
         (a, s) = asset_urls name (re_assets r) ([], []) in
         if a = [] \<or> s = [] then Inl LacksAsset
         else Inr \<lparr>ui_current = current, ui_latest = latest, ui_available = (latest \<noteq> [] \<and> latest \<noteq> current),
           ui_asset_url = a, ui_sum_url = s\<rparr>, f))"

section \<open>Applying\<close>

definition download :: "update_env \<Rightarrow> string \<Rightarrow> string \<Rightarrow> nat \<Rightarrow> unit update_act" where
  "download en url path limit = call DownloadFailed (\<lambda>f. case ue_fetch en url of None \<Rightarrow> (Inl DownloadFailed, f)
     | Some body \<Rightarrow> (if f path \<noteq> None then Inl Io else Inr (), if f path \<noteq> None then f else f(path \<mapsto> Raw (take limit body))))"

definition checksum_ok :: "update_env \<Rightarrow> string \<Rightarrow> string \<Rightarrow> bool" where
  "checksum_ok en binary sums \<longleftrightarrow> Go_Prelude.fields sums \<noteq> [] \<and> length (hd (Go_Prelude.fields sums)) = 64 \<and>
     equal_fold (hd (Go_Prelude.fields sums)) (ue_sha256 en binary)"

definition verify_download :: "update_env \<Rightarrow> string \<Rightarrow> string \<Rightarrow> unit update_act" where
  "verify_download en binary sum_file = seq (read_file sum_file) (\<lambda>w. let want = Go_Prelude.fields (the_text w) in
     if want = [] \<or> length (hd want) \<noteq> 64 then fail BadChecksumFile
     else seq (read_file binary) (\<lambda>c.
       if \<not> equal_fold (hd want) (ue_sha256 en (the_text c)) then fail ChecksumMismatch else ret ()))"

definition check_version :: "update_env \<Rightarrow> string \<Rightarrow> string \<Rightarrow> unit update_act" where
  "check_version en candidate latest = seq (read_file candidate) (\<lambda>c.
     case ue_version en (the_text c) of None \<Rightarrow> fail VersionMismatch
     | Some out \<Rightarrow> if trim_space out \<noteq> latest then fail VersionMismatch else ret ())"

definition candidate_path :: "update_env \<Rightarrow> string" where
  "candidate_path en = path_join [ue_tmp en, ''5gws'']"

definition sum_path :: "update_env \<Rightarrow> string" where
  "sum_path en = path_join [ue_tmp en, ''5gws.sha256'']"

definition backup_path :: "string \<Rightarrow> string \<Rightarrow> string" where
  "backup_path dir current = path_join [dir, ''updates'', ''5gws-'' @ current]"

definition fetch_update :: "update_env \<Rightarrow> update_info \<Rightarrow> unit update_act" where
  "fetch_update en info =
     seq (download en (ui_asset_url info) (candidate_path en) 134217728) (\<lambda>_.
     seq (download en (ui_sum_url info) (sum_path en) 1048576) (\<lambda>_.
     seq (verify_download en (candidate_path en) (sum_path en)) (\<lambda>_.
     seq effect_free (\<lambda>_.
     check_version en (candidate_path en) (ui_latest info)))))"

definition swap_binary :: "update_env \<Rightarrow> string \<Rightarrow> string \<Rightarrow> string \<Rightarrow> unit update_act" where
  "swap_binary en current binary dir = (let backup = backup_path dir current in
     seq effect_free (\<lambda>_.
     seq (copy_file binary backup) (\<lambda>_.
     seq (write_pending dir binary backup) (\<lambda>_.
     seq (attempt (copy_file (candidate_path en) binary)) (\<lambda>r.
     case r of Inl e \<Rightarrow> seq (try_remove (pending_path dir)) (\<lambda>_. fail e)
     | Inr _ \<Rightarrow> ret ())))))"

definition remove_tmp :: "update_env \<Rightarrow> unit update_act" where
  "remove_tmp en = seq (attempt (call Io (\<lambda>f. (Inr (), f(candidate_path en := None, sum_path en := None))))) (\<lambda>_. ret ())"

definition update_apply :: "update_env \<Rightarrow> string \<Rightarrow> string \<Rightarrow> string \<Rightarrow> update_info update_act" where
  "update_apply en current binary dir = seq (update_check en current) (\<lambda>info.
     if \<not> ui_available info then ret info
     else seq effect_free (\<lambda>_.
       seq (attempt (seq (fetch_update en info) (\<lambda>_. swap_binary en current binary dir))) (\<lambda>r.
       seq (remove_tmp en) (\<lambda>_. case r of Inl e \<Rightarrow> fail e | Inr _ \<Rightarrow> ret info))))"

section \<open>The next start\<close>

definition confirm :: "string \<Rightarrow> unit update_act" where
  "confirm dir = seq (attempt (remove_file (pending_path dir))) (\<lambda>r. case r of
     Inl e \<Rightarrow> if e = NotFound then ret () else fail e | Inr _ \<Rightarrow> ret ())"

definition rollback_pending :: "string \<Rightarrow> unit update_act" where
  "rollback_pending dir = seq (attempt (read_file (pending_path dir))) (\<lambda>r. case r of
     Inl e \<Rightarrow> if e = NotFound then ret () else fail e
   | Inr (Raw _) \<Rightarrow> fail BadPending
   | Inr (PendingJson binary backup) \<Rightarrow> seq (copy_file backup binary) (\<lambda>_. remove_file (pending_path dir)))"

section \<open>Every update can be undone\<close>

lemma wp_read_file [wp_simps]: "wp (read_file p) Q E f \<longleftrightarrow> E Io f \<and> (case f p of None \<Rightarrow> E NotFound f | Some c \<Rightarrow> Q c f)"
  by (simp add: read_file_def wp_call split: option.split)

lemma wp_put_file [wp_simps]: "wp (put_file p c) Q E f \<longleftrightarrow> E Io f \<and> Q () (f(p \<mapsto> c))"
  by (simp add: put_file_def wp_call)

lemma wp_effect_free [wp_simps]: "wp effect_free Q E f \<longleftrightarrow> E Io f \<and> Q () f"
  by (simp add: effect_free_def wp_call)

lemma wp_remove_file [wp_simps]:
  "wp (remove_file p) Q E f \<longleftrightarrow> E Io f \<and> (if f p = None then E NotFound (f(p := None)) else Q () (f(p := None)))"
  by (simp add: remove_file_def wp_call)

lemma wp_try_remove [wp_intros]:
  assumes "Q () f" and "Q () (f(p := None))"
  shows "wp (try_remove p) Q E f"
  unfolding try_remove_def by (intro wp_seq wp_attempt) (simp add: wp_simps assms)

text \<open>Equal but for the files in \<open>ps\<close>.\<close>

definition same_files :: "string set \<Rightarrow> files \<Rightarrow> files \<Rightarrow> bool" where
  "same_files ps f f' \<longleftrightarrow> (\<forall>p. p \<notin> ps \<longrightarrow> f' p = f p)"

lemma wp_copy_file:
  assumes "src \<noteq> dst @ ''.tmp''"
    and ok: "\<And>c. f src = Some c \<Longrightarrow> Q () (f(dst @ ''.tmp'' := None, dst \<mapsto> c))"
    and err: "\<And>e f'. same_files {dst @ ''.tmp''} f f' \<Longrightarrow> E e f'"
  shows "wp (copy_file src dst) Q E f"
  unfolding copy_file_def Let_def
  by (auto simp: wp_simps rename_file_def wp_call same_files_def fun_upd_twist [of dst "dst @ ''.tmp''"]
      split: option.split intro!: wp_intros ok err)

definition genuine :: "update_env \<Rightarrow> update_info \<Rightarrow> string \<Rightarrow> bool" where
  "genuine en info new \<longleftrightarrow> (\<exists>body sums out. ue_fetch en (ui_asset_url info) = Some body \<and> new = take 134217728 body \<and>
     ue_fetch en (ui_sum_url info) = Some sums \<and> checksum_ok en new (take 1048576 sums) \<and>
     ue_version en new = Some out \<and> trim_space out = ui_latest info)"

lemma wp_download:
  assumes ok: "\<And>body. ue_fetch en url = Some body \<Longrightarrow> f path = None \<Longrightarrow> Q () (f(path \<mapsto> Raw (take limit body)))"
    and err: "\<And>e. E e f"
  shows "wp (download en url path limit) Q E f"
  using assms by (simp add: download_def wp_call split: option.split)

lemma same_files_refl [simp]: "same_files ps f f"
  by (simp add: same_files_def)

lemma wp_fetch_update:
  assumes "candidate_path en \<noteq> sum_path en"
  shows "wp (fetch_update en info)
    (\<lambda>_ f'. same_files {candidate_path en, sum_path en} f f' \<and>
       (\<exists>new. f' (candidate_path en) = Some (Raw new) \<and> genuine en info new))
    (\<lambda>_ f'. same_files {candidate_path en, sum_path en} f f') f"
  unfolding fetch_update_def verify_download_def check_version_def
  using assms
  by (auto simp: wp_simps same_files_def the_text_def genuine_def checksum_ok_def Let_def
      intro!: wp_seq wp_download split: option.split)

definition update_names :: "update_env \<Rightarrow> string \<Rightarrow> string \<Rightarrow> string \<Rightarrow> string list" where
  "update_names en current binary dir = [binary, binary @ ''.tmp'', backup_path dir current,
     backup_path dir current @ ''.tmp'', pending_path dir, candidate_path en, sum_path en]"

text \<open>The old binary is in place, and a roll-back would leave it there or fail without touching it.\<close>

definition recoverable :: "content \<Rightarrow> string \<Rightarrow> string \<Rightarrow> string \<Rightarrow> files \<Rightarrow> bool" where
  "recoverable old binary backup pending f \<longleftrightarrow> f binary = Some old \<and> (f pending = None \<or> f pending = Some (Raw []) \<or>
     f pending = Some (PendingJson binary backup) \<and> f backup = Some old)"

definition replaced :: "update_env \<Rightarrow> update_info \<Rightarrow> content \<Rightarrow> string \<Rightarrow> string \<Rightarrow> string \<Rightarrow> files \<Rightarrow> bool" where
  "replaced en info old binary backup pending f \<longleftrightarrow> (\<exists>new. genuine en info new \<and> f binary = Some (Raw new)) \<and>
     f pending = Some (PendingJson binary backup) \<and> f backup = Some old"

lemma wp_swap_binary:
  assumes "distinct (update_names en current binary dir)"
    and "recoverable old binary (backup_path dir current) (pending_path dir) f"
    and "f (candidate_path en) = Some (Raw new)" and "genuine en info new"
  shows "wp (swap_binary en current binary dir)
    (\<lambda>_. replaced en info old binary (backup_path dir current) (pending_path dir))
    (\<lambda>_. recoverable old binary (backup_path dir current) (pending_path dir)) f"
  using assms unfolding swap_binary_def write_pending_def Let_def update_names_def
  by (auto simp: wp_simps recoverable_def replaced_def same_files_def
      intro!: wp_intros wp_copy_file)

lemma wp_update_check:
  "(\<And>i. Q i f) \<Longrightarrow> (\<And>e. E e f) \<Longrightarrow> wp (update_check en current) Q E f"
  by (simp add: update_check_def wp_call Let_def split: option.split prod.split)

lemma wp_remove_tmp:
  assumes "Q () f" and "Q () (f(candidate_path en := None, sum_path en := None))"
  shows "wp (remove_tmp en) Q E f"
  unfolding remove_tmp_def by (intro wp_seq wp_attempt) (simp add: wp_call wp_simps assms)

lemma wp_update_apply:
  assumes names: "distinct (update_names en current binary dir)"
    and old: "recoverable old binary (backup_path dir current) (pending_path dir) f"
  shows "wp (update_apply en current binary dir)
    (\<lambda>info f'. if ui_available info then replaced en info old binary (backup_path dir current) (pending_path dir) f' else f' = f)
    (\<lambda>_. recoverable old binary (backup_path dir current) (pending_path dir)) f"
proof -
  let ?R = "recoverable old binary (backup_path dir current) (pending_path dir)"
  let ?N = "\<lambda>info. replaced en info old binary (backup_path dir current) (pending_path dir)"
  have ne: "candidate_path en \<noteq> sum_path en" using names by (simp add: update_names_def)
  have keep: "?R f'" if "same_files {candidate_path en, sum_path en} f f'" for f'
    using that old names by (auto simp: same_files_def recoverable_def update_names_def)
  have "?R (f'(candidate_path en := None, sum_path en := None)) = ?R f'"
    "?N info (f'(candidate_path en := None, sum_path en := None)) = ?N info f'" for f' info
    using names by (auto simp: recoverable_def replaced_def update_names_def)
  note tmp = this
  have "wp (seq (fetch_update en info) (\<lambda>_. swap_binary en current binary dir)) (\<lambda>_. ?N info) (\<lambda>_. ?R) f" for info
    by (rule wp_seq, rule wp_mono [OF wp_fetch_update [OF ne]])
      (use keep wp_swap_binary [OF names] in blast)+
  then have body: "wp (attempt (seq (fetch_update en info) (\<lambda>_. swap_binary en current binary dir)))
      (\<lambda>r f'. case r of Inl _ \<Rightarrow> ?R f' | Inr _ \<Rightarrow> ?N info f') E f" for info E
    by (intro wp_attempt) simp
  show ?thesis
    unfolding update_apply_def
  proof (rule wp_seq, rule wp_update_check)
    fix info
    show "wp (if \<not> ui_available info then ret info else seq effect_free (\<lambda>_.
        seq (attempt (seq (fetch_update en info) (\<lambda>_. swap_binary en current binary dir))) (\<lambda>r.
        seq (remove_tmp en) (\<lambda>_. case r of Inl e \<Rightarrow> fail e | Inr _ \<Rightarrow> ret info))))
        (\<lambda>info f'. if ui_available info then ?N info f' else f' = f) (\<lambda>_. ?R) f"
      by (auto simp: wp_simps tmp old intro!: wp_seq wp_mono [OF body] wp_remove_tmp split: sum.splits)
  qed (rule old)
qed

lemma wp_rollback_recoverable:
  assumes "distinct (update_names en current binary dir)"
    and "recoverable old binary (backup_path dir current) (pending_path dir) f"
  shows "wp (rollback_pending dir) (\<lambda>_ f'. f' binary = Some old) (\<lambda>_ f'. f' binary = Some old) f"
  using assms unfolding rollback_pending_def recoverable_def update_names_def
  by (auto simp: wp_simps same_files_def intro!: wp_seq wp_attempt wp_copy_file)

lemma wp_rollback_replaced:
  assumes "distinct (update_names en current binary dir)"
    and "replaced en info old binary (backup_path dir current) (pending_path dir) f"
  shows "wp (rollback_pending dir) (\<lambda>_ f'. f' binary = Some old \<and> f' (pending_path dir) = None)
    (\<lambda>_ f'. f' binary = Some old \<or> f' binary = f binary) f"
  using assms unfolding rollback_pending_def replaced_def update_names_def
  by (auto simp: wp_simps same_files_def intro!: wp_seq wp_attempt wp_copy_file)

lemma wp_run_both: "wp m (\<lambda>_. P) (\<lambda>_. P) s \<Longrightarrow> P (fst (snd (m (s, fs))))"
  by (auto simp: wp_def outcome_def split: sum.splits dest: spec [of _ fs])

text \<open>
  Claim C29. Whatever fails on the way, an update that reports an error leaves the old binary in place,
  and a roll-back at the next start keeps it, whether the roll-back itself succeeds or not. An update
  that reports success and was available has installed the downloaded release, whose checksum and
  version were compared, and a roll-back that succeeds restores the old binary and forgets the update.
\<close>

theorem update_reversible:
  assumes names: "distinct (update_names en current binary dir)"
    and old: "recoverable old binary (backup_path dir current) (pending_path dir) f"
    and run: "update_apply en current binary dir (f, fs) = (r, f', fs')"
  shows "case r of
      Inl _ \<Rightarrow> f' binary = Some old \<and> (\<forall>fs1. fst (snd (rollback_pending dir (f', fs1))) binary = Some old)
    | Inr info \<Rightarrow> if \<not> ui_available info then f' = f
        else (\<exists>new. genuine en info new \<and> f' binary = Some (Raw new)) \<and>
          (\<forall>fs1 w. rollback_pending dir (f', fs1) = (Inr (), w) \<longrightarrow>
             fst w binary = Some old \<and> fst w (pending_path dir) = None)"
proof (cases r)
  case (Inl e)
  with wp_run [OF wp_update_apply [OF names old] run]
  have rec: "recoverable old binary (backup_path dir current) (pending_path dir) f'" by simp
  have "fst (snd (rollback_pending dir (f', fs1))) binary = Some old" for fs1
    by (rule wp_run_both [OF wp_rollback_recoverable [OF names rec]])
  with rec Inl show ?thesis by (simp add: recoverable_def)
next
  case (Inr info)
  show ?thesis
  proof (cases "ui_available info")
    case True
    with Inr wp_run [OF wp_update_apply [OF names old] run]
    have rep: "replaced en info old binary (backup_path dir current) (pending_path dir) f'" by simp
    have "fst w binary = Some old \<and> fst w (pending_path dir) = None" if "rollback_pending dir (f', fs1) = (Inr (), w)" for fs1 w
      using wp_run [OF wp_rollback_replaced [OF names rep], of fs1 _ "fst w" "snd w"] that by simp
    with rep Inr True show ?thesis by (simp add: replaced_def)
  qed (use Inr wp_run [OF wp_update_apply [OF names old] run] in simp)
qed

section \<open>Two updates before a restart\<close>

definition sample_update_env :: "string \<Rightarrow> update_env" where
  "sample_update_env body = \<lparr>ue_release = Some \<lparr>re_tag_name = ''v2'', re_assets =
       [(''5gws-linux-amd64'', ''asset''), (''5gws-linux-amd64.sha256'', ''sum'')]\<rparr>,
     ue_fetch = (\<lambda>u. Some (if u = ''asset'' then body else replicate 64 (CHR ''a''))),
     ue_sha256 = (\<lambda>_. replicate 64 (CHR ''a'')), ue_version = (\<lambda>_. Some ''2''), ue_arch = ''amd64'', ue_tmp = ''/b/t''\<rparr>"

definition sample_files :: files where
  "sample_files = [''/b/5gws'' \<mapsto> Raw ''old'']"

abbreviation sample_update :: "string \<Rightarrow> files \<times> bool list \<Rightarrow> (update_error + update_info) \<times> files \<times> bool list" where
  "sample_update body \<equiv> update_apply (sample_update_env body) ''1'' ''/b/5gws'' ''/s''"

lemma sample_names: "distinct (update_names (sample_update_env body) ''1'' ''/b/5gws'' ''/s'')"
  by code_simp

lemma sample_update_ok: "map_option ui_available (case fst (sample_update ''new'' (sample_files, [])) of Inr i \<Rightarrow> Some i | Inl _ \<Rightarrow> None) = Some True"
  by code_simp

theorem update_reversible_witness:
  "let w = snd (sample_update ''new'' (sample_files, [])); u = rollback_pending ''/s'' (fst w, []) in
     fst w ''/b/5gws'' = Some (Raw ''new'') \<and> fst (snd u) ''/b/5gws'' = Some (Raw ''old'') \<and>
     fst (snd u) (pending_path ''/s'') = None"
proof -
  let ?r = "sample_update ''new'' (sample_files, [])"
  let ?u = "rollback_pending ''/s'' (fst (snd ?r), [])"
  have old: "recoverable (Raw ''old'') ''/b/5gws'' (backup_path ''/s'' ''1'') (pending_path ''/s'') sample_files"
    by code_simp
  obtain i where i: "fst ?r = Inr i" "ui_available i"
    using sample_update_ok by (auto split: sum.splits)
  have "fst ?u = Inr ()" by code_simp
  then have u: "?u = (Inr (), snd ?u)" by (metis prod.collapse)
  have r: "?r = (Inr i, fst (snd ?r), snd (snd ?r))" using i(1) by (metis prod.collapse)
  have "fst (snd ?r) ''/b/5gws'' = Some (Raw ''new'')" by code_simp
  moreover have "fst (snd ?u) ''/b/5gws'' = Some (Raw ''old'') \<and> fst (snd ?u) (pending_path ''/s'') = None"
    using update_reversible [OF sample_names old r] i(2) u
    by (simp only: sum.case if_False not_True_eq_False)
  ultimately show ?thesis by (simp add: Let_def)
qed

text \<open>
  The process that answers the update keeps running for a second with its old version. A second
  request in that time backs up what is now the new binary, and the roll-back restores that.
\<close>

lemma second_update_loses_the_old_binary:
  "let w = snd (sample_update ''new'' (snd (sample_update ''new'' (sample_files, [])))) in
     fst (snd (rollback_pending ''/s'' w)) ''/b/5gws'' = Some (Raw ''new'')"
  by code_simp

end
