(* ===== verification/Daemon_Start.thy ===== *)
theory Daemon_Start
  imports Daemon_Service Updater
begin

text \<open>
  The start of \<^verbatim>\<open>daemon.Run\<close> in \<^verbatim>\<open>internal/daemon/daemon.go\<close>, from the opened database to the service: the
  draft is reconciled, stale revisions and directories removed, the active revision prepared and
  booted. The host is the database, the supervisor with the directories on disk, and the files the
  updater keeps.
\<close>

record host =
  ho_db :: db
  ho_sup :: supervisor
  ho_files :: files

datatype daemon_error = DaemonStore store_error | NoResolvedRules | DaemonRuntime sup_error
  | ControlFailed | ServerFailed string | ConfirmFailed update_error | WithRollback daemon_error update_error

type_synonym 'a daemon_act = "(host, daemon_error, 'a) act"

definition ho_on_db :: "'a store_act \<Rightarrow> 'a daemon_act" where
  "ho_on_db m = lift_act ho_db (\<lambda>d h. h\<lparr>ho_db := d\<rparr>) DaemonStore m"

definition ho_on_sup :: "'a sup_act \<Rightarrow> 'a daemon_act" where
  "ho_on_sup m = lift_act ho_sup (\<lambda>s h. h\<lparr>ho_sup := s\<rparr>) DaemonRuntime m"

text \<open>\<^verbatim>\<open>filepath.Glob(stateDir/preflight-*)\<close> for a state directory without the characters of a pattern.\<close>

definition is_preflight_dir :: "string \<Rightarrow> string \<Rightarrow> bool" where
  "is_preflight_dir dir path = (case dir_entry (path_join [dir]) path of None \<Rightarrow> False | Some n \<Rightarrow> has_prefix n ''preflight-'')"

fun remove_paths :: "string list \<Rightarrow> unit sup_act" where
  "remove_paths [] = ret ()"
| "remove_paths (p # ps) = seq (remove_all p) (\<lambda>_. remove_paths ps)"

definition prune_preflight_dirs :: "string \<Rightarrow> unit sup_act" where
  "prune_preflight_dirs dir = seq (call FileFailed (\<lambda>s. (Inr (filter (is_preflight_dir dir) (map fst (su_dirs s))), s)))
     remove_paths"

definition reconcile_draft :: "(config \<times> rules_file \<Rightarrow> config \<times> rules_file \<Rightarrow> bool) \<Rightarrow> revision \<Rightarrow> revision daemon_act" where
  "reconcile_draft deq act = seq (ho_on_db store_draft) (\<lambda>dr.
     if rn_status dr = Failed \<or> same_input deq (rn_bundle act) (rn_bundle dr)
     then ho_on_db reset_draft_to_active else ret dr)"

text \<open>\<^verbatim>\<open>engine.NewSupervisor\<close> on a host whose directories stay.\<close>

definition fresh_supervisor :: "string \<Rightarrow> supervisor \<Rightarrow> supervisor" where
  "fresh_supervisor dir s = (new_supervisor dir)\<lparr>su_dirs := su_dirs s, su_nft := su_nft s\<rparr>"

definition start_active :: "(config \<times> rules_file \<Rightarrow> config \<times> rules_file \<Rightarrow> bool) \<Rightarrow> (string \<Rightarrow> string) \<Rightarrow> revision
    \<Rightarrow> supervisor service daemon_act" where
  "start_active deq sha act =
     (if b_resolved (rn_bundle act) = [] \<and>
         0 < length (rf_rules (b_rules (rn_bundle act))) + length (rf_imports (b_rules (rn_bundle act)))
      then fail NoResolvedRules
      else seq (reconcile_draft deq act) (\<lambda>dr.
        seq (ho_on_db prune_revisions) (\<lambda>_.
        seq (ho_on_sup (prune_revision_dirs (state_dir act) [rn_id act, rn_id dr])) (\<lambda>_.
        seq (ho_on_sup (prune_preflight_dirs (state_dir act))) (\<lambda>_.
        seq (modify (\<lambda>h. h\<lparr>ho_sup := fresh_supervisor (state_dir act) (ho_sup h)\<rparr>)) (\<lambda>_.
        seq (ho_on_sup (prepare sha (rn_id act) (rn_bundle act))) (\<lambda>root.
        seq (ho_on_sup (sup_boot sha root (rn_bundle act))) (\<lambda>_.
        observe (\<lambda>h. \<lparr>sv_db = ho_db h, sv_rt = ho_sup h, sv_active = act, sv_draft = dr\<rparr>)))))))))"

section \<open>A start links the database, the cache and the processes\<close>

lemma wp_ho [wp_simps]:
  "wp (ho_on_db m) Q E h \<longleftrightarrow> wp m (\<lambda>x d. Q x (h\<lparr>ho_db := d\<rparr>)) (\<lambda>e d. E (DaemonStore e) (h\<lparr>ho_db := d\<rparr>)) (ho_db h)"
  "wp (ho_on_sup n) Q' E h \<longleftrightarrow> wp n (\<lambda>x s. Q' x (h\<lparr>ho_sup := s\<rparr>)) (\<lambda>e s. E (DaemonRuntime e) (h\<lparr>ho_sup := s\<rparr>)) (ho_sup h)"
  by (simp_all add: ho_on_db_def ho_on_sup_def wp_simps)

lemma preserves_remove_paths: "preserves (same_but_dirs s0) (remove_paths ps)"
  by (induction ps) (auto intro!: preserves_rules simp: remove_all_def)

lemma preserves_prune_preflight: "preserves (same_but_dirs s0) (prune_preflight_dirs dir)"
  unfolding prune_preflight_dirs_def by (auto intro!: preserves_rules preserves_remove_paths)

lemma preserves_dir_boot: "preserves (\<lambda>s. su_state_dir s = d) (sup_boot sha root b)"
  unfolding sup_boot_def sup_start_def
  by (auto intro!: preserves_rules preserves_dir preserves_dir_start)

text \<open>The database with \<open>row\<close> as its active revision.\<close>

definition active_row :: "(string \<Rightarrow> url option) \<Rightarrow> revision_row \<Rightarrow> db \<Rightarrow> bool" where
  "active_row up row d \<longleftrightarrow> db_inv up d \<and> (\<exists>dr. db_app_state d = Some (rr_id row, dr)) \<and>
     find_revision d (rr_id row) = Some row"

lemma active_row_reset:
  "active_row up row d \<Longrightarrow> db_app_state d = Some (a, dr) \<Longrightarrow> active_row up row (d\<lparr>db_app_state := Some (a, a)\<rparr>)"
  by (auto simp: active_row_def db_inv_reset)

lemma active_row_prune: "active_row up row d \<Longrightarrow> active_row up row (sql_prune d)"
  by (auto simp: active_row_def db_inv_prune find_prune)

lemma wp_active_row:
  assumes "active_row up row d"
  shows "wp store_active (\<lambda>r d'. d' = d \<and> r = rev_of row) (\<lambda>_ d'. d' = d) d"
  unfolding store_active_def by (rule wp_revision_for) (use assms in \<open>auto simp: active_row_def\<close>)

lemma active_row_exists:
  assumes "db_inv up d" and "db_app_state d = Some (a, dr)"
  obtains row where "active_row up row d" "rr_id row = a"
proof -
  from assms have "a \<in> rev_ids d" by (simp add: db_inv_def)
  then obtain row where "find_revision d a = Some row" "rr_id row = a"
    by (metis find_revision_ids find_revision_SomeD)
  with assms that show ?thesis by (auto simp: active_row_def)
qed

text \<open>Before the processes start: the active row, the files, and nothing running.\<close>

definition starting :: "(string \<Rightarrow> url option) \<Rightarrow> revision_row \<Rightarrow> files \<Rightarrow> host \<Rightarrow> bool" where
  "starting up row f h \<longleftrightarrow> active_row up row (ho_db h) \<and> ho_files h = f \<and> quiet (ho_sup h) \<and> su_current (ho_sup h) = None"

lemma preserves_active_row:
  "preserves (active_row up row) reset_draft_to_active" "preserves (active_row up row) prune_revisions"
  unfolding preserves_def
  by (auto intro!: wp_mono [OF wp_reset_draft [of up]] wp_mono [OF wp_prune] active_row_prune intro: active_row_reset
      simp: active_row_def [of up row] db_inv_reset)

lemma starting_db: "preserves (active_row up row) m \<Longrightarrow> preserves (starting up row f) (ho_on_db m)"
  unfolding preserves_def by (auto simp: wp_simps starting_def elim!: wp_mono [rotated 1] intro: wp_mono)

lemma starting_sup:
  assumes "\<And>s0. preserves (same_but_dirs s0) m"
  shows "preserves (starting up row f) (ho_on_sup m)"
  unfolding preserves_def wp_ho
proof (intro allI impI)
  fix h
  assume "starting up row f h"
  then show "wp m (\<lambda>_ s. starting up row f (h\<lparr>ho_sup := s\<rparr>)) (\<lambda>_ s. starting up row f (h\<lparr>ho_sup := s\<rparr>)) (ho_sup h)"
    by (intro wp_mono [OF preservesD [OF assms same_refl]]) (auto simp: starting_def same_but_dirs_def)
qed

lemma starting_reconcile: "preserves (starting up row f) (reconcile_draft deq act)"
  unfolding reconcile_draft_def
  by (intro preserves_rules starting_db preserves_active_row preserves_reads)

lemma starting_files:
  "preserves (starting up row f) (ho_on_db prune_revisions)"
  "preserves (starting up row f) (ho_on_sup (prune_revision_dirs dir keep))"
  "preserves (starting up row f) (ho_on_sup (prune_preflight_dirs dir))"
  by (intro starting_db starting_sup preserves_active_row preserves_file_ops preserves_prune_preflight)+

lemma quiet_fresh [simp]: "quiet (fresh_supervisor dir s)" "su_current (fresh_supervisor dir s) = None"
  "su_state_dir (fresh_supervisor dir s) = dir"
  by (simp_all add: quiet_def fresh_supervisor_def new_supervisor_def)

text \<open>The service that a start hands over.\<close>

definition started :: "(string \<Rightarrow> url option) \<Rightarrow> (string \<Rightarrow> string) \<Rightarrow> revision_row \<Rightarrow> supervisor service \<Rightarrow> host \<Rightarrow> bool" where
  "started up sha row s h \<longleftrightarrow> service_linked up sup_view (sup_inv sha) s \<and> sv_db s = ho_db h \<and> sv_rt s = ho_sup h \<and>
     sv_active s = rev_of row \<and> rt_up (ho_sup h)"

lemma wp_boot_active:
  assumes "starting up row f h" and "su_state_dir (ho_sup h) = state_dir (rev_of row)"
  shows "wp (seq (ho_on_sup (prepare sha (rr_id row) (rn_bundle (rev_of row)))) (\<lambda>root.
      seq (ho_on_sup (sup_boot sha root (rn_bundle (rev_of row)))) (\<lambda>_.
      observe (\<lambda>h. \<lparr>sv_db = ho_db h, sv_rt = ho_sup h, sv_active = rev_of row, sv_draft = dr\<rparr>))))
    (\<lambda>s h'. started up sha row s h' \<and> ho_files h' = f) (\<lambda>_. starting up row f) h"
proof -
  let ?b = "rn_bundle (rev_of row)" and ?root = "revision_root (state_dir (rev_of row)) (rr_id row)"
  have boot: "wp (sup_boot sha ?root ?b)
      (\<lambda>_ s'. (sup_inv sha s' \<and> rt_conf s' = Some (?root, ?b) \<and> rt_up s') \<and> su_state_dir s' = state_dir (rev_of row))
      (\<lambda>_ s'. (quiet s' \<and> su_current s' = None) \<and> su_state_dir s' = state_dir (rev_of row)) s"
    if "quiet s" "su_current s = None" "su_state_dir s = state_dir (rev_of row)" for s
    by (rule wp_conj [OF wp_sup_boot [OF that(1,2)] preservesD [OF preserves_dir_boot that(3)]])
  have same: "quiet s \<and> su_current s = None \<and> su_state_dir s = state_dir (rev_of row)"
    if "same_but_dirs (ho_sup h) s" for s
    using that assms by (auto simp: same_but_dirs_def starting_def)
  let ?obs = "\<lambda>h. \<lparr>sv_db = ho_db h, sv_rt = ho_sup h, sv_active = rev_of row, sv_draft = dr\<rparr>"
  let ?Q = "\<lambda>s h'. started up sha row s h' \<and> ho_files h' = f"
  have linked: "?Q (?obs (h\<lparr>ho_sup := s\<rparr>)) (h\<lparr>ho_sup := s\<rparr>)"
    if "sup_inv sha s" "rt_conf s = Some (?root, ?b)" "rt_up s" "su_state_dir s = state_dir (rev_of row)" for s
    using that assms(1)
    by (auto simp: started_def service_linked_def service_at_def starting_def active_row_def sup_view_def)
  have run: "wp (seq (ho_on_sup (sup_boot sha ?root ?b)) (\<lambda>_. observe ?obs)) ?Q (\<lambda>_. starting up row f) (h\<lparr>ho_sup := s\<rparr>)"
    if "same_but_dirs (ho_sup h) s" for s
    by (rule wp_seq, simp only: wp_ho, rule wp_mono [OF boot])
      (use same [OF that] linked assms(1) in \<open>auto simp: wp_simps starting_def\<close>)
  show ?thesis
    by (rule wp_seq, simp only: wp_ho, rule wp_mono [OF wp_prepare])
      (use run same assms in \<open>auto simp: starting_def\<close>)
qed

lemma wp_start_active:
  assumes "starting up row f h"
  shows "wp (start_active deq sha (rev_of row)) (\<lambda>s h'. started up sha row s h' \<and> ho_files h' = f)
    (\<lambda>_. starting up row f) h"
proof -
  let ?E = "\<lambda>_ :: daemon_error. starting up row f"
  have step: "wp (seq m k) Q ?E h'" if "preserves (starting up row f) m" "starting up row f h'"
    "\<And>x h'. starting up row f h' \<Longrightarrow> wp (k x) Q ?E h'" for m :: "'z daemon_act" and k :: "'z \<Rightarrow> 'y daemon_act" and Q h'
    by (rule wp_seq, rule wp_mono [OF preservesD [OF that(1,2)]]) (use that(3) in auto)
  have boot: "wp (seq (modify (\<lambda>h. h\<lparr>ho_sup := fresh_supervisor (state_dir (rev_of row)) (ho_sup h)\<rparr>)) (\<lambda>_.
      seq (ho_on_sup (prepare sha (rr_id row) (rn_bundle (rev_of row)))) (\<lambda>root.
      seq (ho_on_sup (sup_boot sha root (rn_bundle (rev_of row)))) (\<lambda>_.
      observe (\<lambda>h. \<lparr>sv_db = ho_db h, sv_rt = ho_sup h, sv_active = rev_of row, sv_draft = dr\<rparr>)))))
      (\<lambda>s h'. started up sha row s h' \<and> ho_files h' = f) ?E h'" if "starting up row f h'" for dr h'
    by (rule wp_seq, unfold wp_modify, rule wp_boot_active) (use that in \<open>simp_all add: starting_def\<close>)
  have id: "rn_id (rev_of row) = rr_id row" by (simp add: rev_of_def)
  have steps: "wp (seq (reconcile_draft deq (rev_of row)) (\<lambda>dr.
        seq (ho_on_db prune_revisions) (\<lambda>_.
        seq (ho_on_sup (prune_revision_dirs (state_dir (rev_of row)) [rr_id row, rn_id dr])) (\<lambda>_.
        seq (ho_on_sup (prune_preflight_dirs (state_dir (rev_of row)))) (\<lambda>_. k dr))))) Q ?E h"
    if "\<And>dr h'. starting up row f h' \<Longrightarrow> wp (k dr) Q ?E h'" for k :: "revision \<Rightarrow> 'y daemon_act" and Q
    by (rule step [OF starting_reconcile assms], rule step [OF starting_files(1)], assumption,
      rule step [OF starting_files(2)], assumption, rule step [OF starting_files(3)], assumption, rule that)
  show ?thesis
    unfolding start_active_def id
    using assms by (auto simp: wp_fail intro!: steps boot)
qed


definition start_bundle :: app_bundle where
  "start_bundle = sample_bundle\<lparr>b_resolved := [\<lparr>rl_name = ''a'', rl_priority = 0, rl_exit = ''direct'', rl_dns_pool = [],
     rl_domain = [''x.org''], rl_domain_suffix = [], rl_domain_keyword = [], rl_domain_regex = [], rl_ip_cidr = [], rl_rule_set = []\<rparr>]\<rparr>"

definition start_row :: revision_row where
  "start_row = new_row 0 Active (bundle_apply_defaults start_bundle) empty_db"

definition start_host :: host where
  "start_host = \<lparr>ho_db = fst (snd (initialize (\<lambda>_. None) 0 start_bundle (empty_db, []))),
     ho_sup = new_supervisor ''/s'', ho_files = Map.empty\<rparr>"

lemma start_valid: "validate (\<lambda>_. None) (b_config (bundle_apply_defaults start_bundle)) = None"
  by code_simp

lemma start_host_ok: "starting (\<lambda>_. None) start_row Map.empty start_host"
proof -
  have "db_inv (\<lambda>_. None) (ho_db start_host)"
    using store_step_inv [of "\<lambda>_. None" "(empty_db, [])" "OpInitialize 0 start_bundle"]
    by (simp add: start_host_def store_step_def db_inv_empty)
  moreover have "find_revision (ho_db start_host) (rr_id start_row) = Some start_row"
    "db_app_state (ho_db start_host) = Some (rr_id start_row, 1)"
    unfolding start_host_def initialize_run [OF start_valid] start_row_def
    by (simp_all add: add_row_def empty_db_def find_revision_def new_row_def)
  ultimately show ?thesis
    by (auto simp: starting_def active_row_def start_host_def quiet_def new_supervisor_def)
qed

text \<open>When no call fails, an active revision that can be rendered is started.\<close>

lemma may_ho:
  "may m (ho_db h) (Inr x) d \<Longrightarrow> may (ho_on_db m) h (Inr x) (h\<lparr>ho_db := d\<rparr>)"
  "may n (ho_sup h) (Inr y) s \<Longrightarrow> may (ho_on_sup n) h (Inr y) (h\<lparr>ho_sup := s\<rparr>)"
  unfolding ho_on_db_def ho_on_sup_def
  using may_lift [of m ho_db h "Inr x" d "\<lambda>d h. h\<lparr>ho_db := d\<rparr>" DaemonStore]
    may_lift [of n ho_sup h "Inr y" s "\<lambda>s h. h\<lparr>ho_sup := s\<rparr>" DaemonRuntime] by simp_all

lemma may_reconcile:
  assumes "starting up row f h"
  shows "\<exists>dr h'. may (reconcile_draft deq act) h (Inr dr) h' \<and> starting up row f h'"
proof -
  obtain b where inv: "db_inv up (ho_db h)" and st: "db_app_state (ho_db h) = Some (rr_id row, b)"
    and row: "find_revision (ho_db h) (rr_id row) = Some row"
    using assms by (auto simp: starting_def active_row_def)
  then have "b \<in> rev_ids (ho_db h)" by (simp add: db_inv_def)
  then obtain r where r: "find_revision (ho_db h) b = Some r" using find_revision_ids by blast
  have read: "may (ho_on_db store_draft) h (Inr (rev_of r)) (h\<lparr>ho_db := ho_db h\<rparr>)"
    unfolding store_draft_def revision_for_def
    by (rule may_ho(1), rule may_query) (use st r in \<open>simp add: scan_revision_eq\<close>)
  let ?k = "\<lambda>dr. if rn_status dr = Failed \<or> same_input deq (rn_bundle act) (rn_bundle dr)
    then ho_on_db reset_draft_to_active else ret dr"
  have reset: "\<exists>dr h'. may (ho_on_db reset_draft_to_active) (h\<lparr>ho_db := ho_db h\<rparr>) (Inr dr) h'"
    using may_ho(1) [OF may_reset_draft [OF inv st row]] by (simp, blast)
  have keep: "\<exists>dr h'. may (ret (rev_of r) :: revision daemon_act) (h\<lparr>ho_db := ho_db h\<rparr>) (Inr dr) h'"
    by (intro exI, rule may_basic(1))
  have "\<exists>dr h'. may (?k (rev_of r)) (h\<lparr>ho_db := ho_db h\<rparr>) (Inr dr) h'"
    using reset keep by (cases "rn_status (rev_of r) = Failed \<or> same_input deq (rn_bundle act) (rn_bundle (rev_of r))")
      (simp_all only: if_True if_False)
  then have "\<exists>dr h'. may (reconcile_draft deq act) h (Inr dr) h'"
    unfolding reconcile_draft_def using may_seq [OF read, of ?k] by blast
  then obtain dr h' where "may (reconcile_draft deq act) h (Inr dr) h'" by blast
  with may_wp [OF this preservesD [OF starting_reconcile assms]] show ?thesis by blast
qed

lemma smooth_prune_preflight: "smooth (prune_preflight_dirs dir)"
proof -
  have "smooth (remove_paths ps)" for ps
    by (induction ps) (auto simp: remove_all_def intro!: smooth_rules)
  then show ?thesis unfolding prune_preflight_dirs_def by (auto intro!: smooth_rules)
qed

lemma may_sup_boot:
  assumes "su_current s = None"
  shows "\<exists>s'. may (sup_boot sha root b) s (Inr ()) s'"
proof -
  have nft: "may (load_nft root) s (Inr ()) (s\<lparr>su_nft := Some root\<rparr>)"
    unfolding load_nft_def by (rule may_call) simp
  have "smooth (seq (start_group sha root b) (\<lambda>i. set_current (Some i)))"
    by (intro smooth_seq smooth_start_group smooth_groups)
  then obtain s' where "may (seq (start_group sha root b) (\<lambda>i. set_current (Some i))) (s\<lparr>su_nft := Some root\<rparr>) (Inr ()) s'"
    by (auto simp: smooth_def)
  then have "may (sup_start sha root b) (s\<lparr>su_nft := Some root\<rparr>) (Inr ()) s'"
    unfolding sup_start_def using assms by (intro may_seq [OF may_basic(3)]) simp
  with nft show ?thesis unfolding sup_boot_def by (blast intro: may_seq)
qed

lemma may_start_active:
  assumes "starting up row f h" and "b_resolved (rn_bundle (rev_of row)) \<noteq> []"
    and gen: "generate_at sha (b_config (rn_bundle (rev_of row))) (bundle_normalized (rn_bundle (rev_of row)))
      (revision_root (state_dir (rev_of row)) (rr_id row)) = Ret (Inr fls)"
  shows "\<exists>s h'. may (start_active deq sha (rev_of row)) h (Inr s) h'"
proof -
  let ?b = "rn_bundle (rev_of row)" and ?dir = "state_dir (rev_of row)"
  obtain dr h1 where 1: "may (reconcile_draft deq (rev_of row)) h (Inr dr) h1"
    using may_reconcile [OF assms(1)] by blast
  obtain h2 where 2: "may (ho_on_db prune_revisions) h1 (Inr ()) h2" using may_ho(1) [OF may_prune] by blast
  obtain h3 where 3: "may (ho_on_sup (prune_revision_dirs ?dir [rr_id row, rn_id dr])) h2 (Inr ()) h3"
    using may_ho(2) smooth_prune_dirs by (force simp: smooth_def)
  obtain h4 where 4: "may (ho_on_sup (prune_preflight_dirs ?dir)) h3 (Inr ()) h4"
    using may_ho(2) smooth_prune_preflight by (force simp: smooth_def)
  define s5 where "s5 = fresh_supervisor ?dir (ho_sup h4)"
  obtain s6 where 6: "may (prepare_at sha (revision_root ?dir (rr_id row)) ?b) s5 (Inr ()) s6"
    using smooth_prepare_at [OF gen] by (auto simp: smooth_def)
  then have prep: "may (prepare sha (rr_id row) ?b) s5 (Inr (revision_root ?dir (rr_id row))) s6"
    unfolding prepare_def using may_basic by (fastforce simp: s5_def intro: may_seq)
  have "same_but_dirs s5 s6"
    using may_wp [OF 6 preservesD [OF preserves_prepare_at same_refl]] .
  then have "su_current s6 = None" by (auto simp: s5_def same_but_dirs_def fresh_supervisor_def new_supervisor_def)
  then obtain s7 where 7: "may (sup_boot sha (revision_root ?dir (rr_id row)) ?b) s6 (Inr ()) s7"
    using may_sup_boot by blast
  have id: "rn_id (rev_of row) = rr_id row" by (simp add: rev_of_def)
  let ?obs = "\<lambda>h. \<lparr>sv_db = ho_db h, sv_rt = ho_sup h, sv_active = rev_of row, sv_draft = dr\<rparr>"
  have "may (seq (ho_on_sup (prepare sha (rr_id row) ?b)) (\<lambda>root. seq (ho_on_sup (sup_boot sha root ?b)) (\<lambda>_. observe ?obs)))
      (h4\<lparr>ho_sup := s5\<rparr>) (Inr (?obs (h4\<lparr>ho_sup := s7\<rparr>))) (h4\<lparr>ho_sup := s7\<rparr>)"
  proof (rule may_seq)
    show "may (ho_on_sup (prepare sha (rr_id row) ?b)) (h4\<lparr>ho_sup := s5\<rparr>)
        (Inr (revision_root ?dir (rr_id row))) (h4\<lparr>ho_sup := s6\<rparr>)"
      using may_ho(2) [of "prepare sha (rr_id row) ?b" "h4\<lparr>ho_sup := s5\<rparr>"] prep by simp
    have "may (ho_on_sup (sup_boot sha (revision_root ?dir (rr_id row)) ?b)) (h4\<lparr>ho_sup := s6\<rparr>) (Inr ()) (h4\<lparr>ho_sup := s7\<rparr>)"
      using may_ho(2) [of "sup_boot sha (revision_root ?dir (rr_id row)) ?b" "h4\<lparr>ho_sup := s6\<rparr>"] 7 by simp
    from may_seq [OF this may_basic(3)]
    show "may (seq (ho_on_sup (sup_boot sha (revision_root ?dir (rr_id row)) ?b)) (\<lambda>_. observe ?obs))
        (h4\<lparr>ho_sup := s6\<rparr>) (Inr (?obs (h4\<lparr>ho_sup := s7\<rparr>))) (h4\<lparr>ho_sup := s7\<rparr>)" .
  qed
  then have "may (start_active deq sha (rev_of row)) h (Inr (?obs (h4\<lparr>ho_sup := s7\<rparr>))) (h4\<lparr>ho_sup := s7\<rparr>)"
    unfolding start_active_def id using assms(2)
    by (simp, intro may_seq [OF 1] may_seq [OF 2] may_seq [OF 3] may_seq [OF 4] may_seq [OF may_basic(4)])
      (simp add: s5_def)
  then show ?thesis by blast
qed

lemma start_row_simps:
  "rn_bundle (rev_of start_row) = bundle_apply_defaults start_bundle" "rr_id start_row = 1"
  by (simp_all add: start_row_def rn_bundle_rev_of new_row_simps payload_ok bundle_apply_defaults_idem empty_db_def)

lemma start_renders: "\<exists>fls. generate_at (\<lambda>_. []) (b_config (rn_bundle (rev_of start_row)))
   (bundle_normalized (rn_bundle (rev_of start_row))) (revision_root (state_dir (rev_of start_row)) (rr_id start_row)) = Ret (Inr fls)"
proof -
  define g where "g = generate_at (\<lambda>_. []) (b_config (bundle_apply_defaults start_bundle))
      (bundle_normalized (bundle_apply_defaults start_bundle)) (revision_root ''/var/lib/5gws'' 1)"
  have "case g of Ret (Inr _) \<Rightarrow> True | _ \<Rightarrow> False"
    unfolding g_def by code_simp
  then have "\<exists>fls. g = Ret (Inr fls)" by (cases g) (auto split: sum.splits)
  moreover have "state_dir (rev_of start_row) = ''/var/lib/5gws''"
    unfolding state_dir_def start_row_simps by code_simp
  ultimately show ?thesis unfolding g_def by (simp only: start_row_simps)
qed


end
