(* ===== verification/Daemon_Run.thy ===== *)
theory Daemon_Run
  imports Daemon_Start
begin

text \<open>
  The whole of \<^verbatim>\<open>daemon.Run\<close> in \<^verbatim>\<open>internal/daemon/daemon.go\<close>: the start, the two waits around the confirmation of
  an update, and the deferred calls on every way out, which stop the processes and, after an error,
  roll a pending update back. What ends a wait is an argument, and so is what the requests served
  during it do to the host. The listeners and the time-outs of the servers are not modelled.
\<close>

definition ho_on_files :: "(update_error \<Rightarrow> daemon_error) \<Rightarrow> 'a update_act \<Rightarrow> 'a daemon_act" where
  "ho_on_files h m = lift_act ho_files (\<lambda>f h. h\<lparr>ho_files := f\<rparr>) h m"

text \<open>The deferred roll-back; \<^verbatim>\<open>errors.Join\<close> adds its error to the first.\<close>

definition or_rollback :: "string \<Rightarrow> 'a daemon_act \<Rightarrow> 'a daemon_act" where
  "or_rollback dir m = seq (attempt m) (\<lambda>r. case r of
     Inr x \<Rightarrow> ret x
   | Inl e \<Rightarrow> seq (ho_on_files (WithRollback e) (rollback_pending dir)) (\<lambda>_. fail e))"

text \<open>\<^verbatim>\<open>defer supervisor.Stop()\<close>, which returns nothing.\<close>

definition with_stop :: "'a daemon_act \<Rightarrow> 'a daemon_act" where
  "with_stop m = deferred (ho_on_sup sup_stop) m"

text \<open>\<^verbatim>\<open>listenControl\<close>: the directory, the stale socket, the listener, its mode. A socket is no file the updater reads.\<close>

definition listen_control :: "unit daemon_act" where
  "listen_control = (let step = call ControlFailed (\<lambda>h. (Inr (), h)) in
     seq step (\<lambda>_. seq step (\<lambda>_. seq step (\<lambda>_. step))))"

text \<open>\<^verbatim>\<open>rootListener.Accept\<close>: connections with the user that \<^verbatim>\<open>peerUID\<close> finds, if it finds one; others are closed.\<close>

fun root_accept :: "(nat option \<times> 'c) list \<Rightarrow> ('c \<times> (nat option \<times> 'c) list) option" where
  "root_accept [] = None"
| "root_accept ((uid, c) # cs) = (if uid = Some 0 then Some (c, cs) else root_accept cs)"

text \<open>What ends a wait; a server ends with \<^verbatim>\<open>http.ErrServerClosed\<close> (\<open>None\<close>) or another error.\<close>

datatype stop_event = ContextDone | FatalError sup_error | ServerEnded "string option"

fun stop_error :: "stop_event \<Rightarrow> daemon_error option" where
  "stop_error ContextDone = None"
| "stop_error (FatalError e) = Some (DaemonRuntime e)"
| "stop_error (ServerEnded m) = map_option ServerFailed m"

definition ended_by :: "stop_event \<Rightarrow> unit daemon_act" where
  "ended_by ev = (case stop_error ev of None \<Rightarrow> ret () | Some e \<Rightarrow> fail e)"

text \<open>\<open>first = None\<close> is the startup timer, which confirms the update and waits again.\<close>

definition serve_until :: "string \<Rightarrow> (host \<Rightarrow> host) \<Rightarrow> stop_event option \<Rightarrow> (host \<Rightarrow> host) \<Rightarrow> stop_event \<Rightarrow> unit daemon_act" where
  "serve_until dir served first served' second = seq listen_control (\<lambda>_.
     seq (modify served) (\<lambda>_. case first of
       Some ev \<Rightarrow> ended_by ev
     | None \<Rightarrow> seq (ho_on_files ConfirmFailed (confirm dir)) (\<lambda>_.
         seq (modify served') (\<lambda>_. ended_by second))))"

definition daemon_run :: "(config \<times> rules_file \<Rightarrow> config \<times> rules_file \<Rightarrow> bool) \<Rightarrow> (string \<Rightarrow> string)
    \<Rightarrow> (host \<Rightarrow> host) \<Rightarrow> stop_event option \<Rightarrow> (host \<Rightarrow> host) \<Rightarrow> stop_event \<Rightarrow> unit daemon_act" where
  "daemon_run deq sha served first served' second = seq (ho_on_db store_active) (\<lambda>act.
     or_rollback (state_dir act) (seq (start_active deq sha act) (\<lambda>_.
       with_stop (serve_until (state_dir act) served first served' second))))"

lemma root_accept_root: "root_accept cs = Some (c, cs') \<Longrightarrow>
    \<exists>bad. cs = bad @ (Some 0, c) # cs' \<and> (\<forall>p \<in> set bad. fst p \<noteq> Some 0)"
proof (induction cs)
  case (Cons p cs)
  show ?case
  proof (cases "fst p = Some 0")
    case False
    with Cons obtain bad where "cs = bad @ (Some 0, c) # cs'" "\<forall>p \<in> set bad. fst p \<noteq> Some 0"
      by (cases p) auto
    with False show ?thesis by (intro exI [of _ "p # bad"]) simp
  qed (use Cons.prems in \<open>cases p; auto\<close>)
qed simp

section \<open>Every way out\<close>

text \<open>A consistent database and nothing running: how the daemon starts and ends.\<close>

definition at_rest :: "(string \<Rightarrow> url option) \<Rightarrow> host \<Rightarrow> bool" where
  "at_rest up h \<longleftrightarrow> db_inv up (ho_db h) \<and> quiet (ho_sup h) \<and> su_current (ho_sup h) = None"

text \<open>While serving: what every request keeps.\<close>

definition serving :: "(string \<Rightarrow> url option) \<Rightarrow> (string \<Rightarrow> string) \<Rightarrow> host \<Rightarrow> bool" where
  "serving up sha h \<longleftrightarrow> db_inv up (ho_db h) \<and> sup_inv sha (ho_sup h)"

definition requests_ok :: "(string \<Rightarrow> url option) \<Rightarrow> (string \<Rightarrow> string) \<Rightarrow> (host \<Rightarrow> host) \<Rightarrow> bool" where
  "requests_ok up sha served \<longleftrightarrow> (\<forall>h. serving up sha h \<longrightarrow> serving up sha (served h) \<and> ho_files (served h) = ho_files h)"

text \<open>The pending update, if any, is undone: the backup is back and the record is gone.\<close>

definition rolled_back :: "string \<Rightarrow> files \<Rightarrow> files \<Rightarrow> bool" where
  "rolled_back dir f f' \<longleftrightarrow> f' (pending_path dir) = None \<and> (case f (pending_path dir) of
     None \<Rightarrow> f' = f
   | Some (Raw _) \<Rightarrow> False
   | Some (PendingJson binary backup) \<Rightarrow> distinct [pending_path dir, binary, binary @ ''.tmp'', backup] \<longrightarrow>
       f backup \<noteq> None \<and> f' binary = f backup)"

definition rollback_failed :: "daemon_error \<Rightarrow> bool" where
  "rollback_failed e \<longleftrightarrow> (\<exists>e' ue. e = WithRollback e' ue)"

lemma wp_ho_files [wp_simps]:
  "wp (ho_on_files h m) Q E s \<longleftrightarrow> wp m (\<lambda>x f. Q x (s\<lparr>ho_files := f\<rparr>)) (\<lambda>e f. E (h e) (s\<lparr>ho_files := f\<rparr>)) (ho_files s)"
  by (simp add: ho_on_files_def wp_simps)

lemma wp_rollback: "wp (rollback_pending dir) (\<lambda>_ f'. rolled_back dir f f') (\<lambda>_ _. True) f"
proof (cases "f (pending_path dir)")
  case (Some c)
  show ?thesis
  proof (cases c)
    case (PendingJson binary backup)
    let ?names = "distinct [pending_path dir, binary, binary @ ''.tmp'', backup]"
    have copy: "wp (copy_file backup binary) (\<lambda>_ g. ?names \<longrightarrow> f backup \<noteq> None \<and> g binary = f backup) (\<lambda>_ _. True) f"
    proof (cases ?names)
      case True
      then show ?thesis by (intro wp_copy_file) auto
    qed (rule wp_mono [OF wp_True], auto)
    show ?thesis
      unfolding rollback_pending_def
      using Some PendingJson
      by (auto simp: wp_simps rolled_back_def intro!: wp_seq wp_attempt wp_mono [OF copy])
  qed (use Some in \<open>auto simp: rollback_pending_def wp_simps intro!: wp_seq wp_attempt\<close>)
qed (auto simp: rollback_pending_def wp_simps rolled_back_def intro!: wp_seq wp_attempt)

lemma wp_confirm: "wp (confirm dir) (\<lambda>_ f'. f' = f(pending_path dir := None)) (\<lambda>_ f'. f' = f) f"
  unfolding confirm_def by (auto simp: wp_simps intro!: wp_seq wp_attempt)

lemma wp_or_rollback:
  assumes "wp m Q (\<lambda>e h'. at_rest up h' \<and> P e (ho_files h')) h"
    and "\<And>e f f'. P e f \<Longrightarrow> rolled_back dir f f' \<Longrightarrow> R e f'"
  shows "wp (or_rollback dir m) Q (\<lambda>e h'. at_rest up h' \<and> (rollback_failed e \<or> R e (ho_files h'))) h"
  unfolding or_rollback_def
  by (rule wp_seq, rule wp_attempt, rule wp_mono [OF assms(1)])
    (auto simp: wp_simps at_rest_def rollback_failed_def intro!: wp_seq wp_mono [OF wp_rollback] assms(2))

lemma wp_sup_stop:
  assumes "sup_inv sha s"
  shows "wp sup_stop (\<lambda>_ s'. quiet s' \<and> su_current s' = None) (\<lambda>_ _. False) s"
proof (cases "su_current s")
  case None
  with assms show ?thesis
    unfolding sup_stop_def by (auto simp: wp_simps sup_inv_def quiet_def in_set_conv_nth intro!: wp_seq)
next
  case (Some p)
  have none: "quiet t \<Longrightarrow> quiet (t\<lparr>su_current := None\<rparr>)" for t by (simp add: quiet_def)
  have f: "\<not> running (g\<lparr>pg_stopped := True, pg_alive := a\<rparr>)" "\<not> running (g\<lparr>pg_stopped := True\<rparr>)" for g a
    by (simp_all add: running_def)
  note q = quiet_after_stop [OF assms Some]
  from Some show ?thesis
    unfolding sup_stop_def set_current_def report_fatal_def
    by (auto simp: wp_simps none q f split: option.split intro!: wp_seq wp_attempt wp_mono [OF wp_stop_group])
qed

lemma wp_with_stop:
  assumes "wp m (\<lambda>x h'. serving up sha h' \<and> Q x (ho_files h')) (\<lambda>e h'. serving up sha h' \<and> P e (ho_files h')) h"
  shows "wp (with_stop m) (\<lambda>x h'. at_rest up h' \<and> Q x (ho_files h')) (\<lambda>e h'. at_rest up h' \<and> P e (ho_files h')) h"
  unfolding with_stop_def
  by (rule wp_deferred, rule wp_mono [OF assms])
    (auto simp: wp_simps serving_def at_rest_def intro!: wp_mono [OF wp_sup_stop])

lemma wp_ended_by: "wp (ended_by ev) Q E h \<longleftrightarrow> (case stop_error ev of None \<Rightarrow> Q () h | Some e \<Rightarrow> E e h)"
  by (auto simp: ended_by_def wp_simps split: option.split)

text \<open>The files after serving, without and with an error.\<close>

definition files_after :: "string \<Rightarrow> stop_event option \<Rightarrow> files \<Rightarrow> files" where
  "files_after dir first f = (if first = None then f(pending_path dir := None) else f)"

definition confirmed_then :: "string \<Rightarrow> stop_event option \<Rightarrow> stop_event \<Rightarrow> files \<Rightarrow> daemon_error \<Rightarrow> files \<Rightarrow> bool" where
  "confirmed_then dir first second f e f' \<longleftrightarrow> first = None \<and> stop_error second = Some e \<and> f' = f(pending_path dir := None)"

lemma wp_serve_until:
  assumes "serving up sha h" and "requests_ok up sha served" and "requests_ok up sha served'"
  shows "wp (serve_until dir served first served' second)
    (\<lambda>_ h'. serving up sha h' \<and> ho_files h' = files_after dir first (ho_files h))
    (\<lambda>e h'. serving up sha h' \<and> (ho_files h' = ho_files h \<or> confirmed_then dir first second (ho_files h) e (ho_files h'))) h"
proof -
  have 1: "serving up sha (served h)" "ho_files (served h) = ho_files h"
    using assms(1,2) by (simp_all add: requests_ok_def)
  have 2: "serving up sha (served' h')" "ho_files (served' h') = ho_files h'" if "serving up sha h'" for h'
    using that assms(3) by (simp_all add: requests_ok_def)
  have frame: "serving up sha (h'\<lparr>ho_files := g\<rparr>) = serving up sha h'" for h' g
    by (simp add: serving_def)
  show ?thesis
    unfolding serve_until_def listen_control_def Let_def
    by (auto simp: wp_simps wp_call wp_ended_by assms(1) 1 2 frame files_after_def confirmed_then_def
        intro!: wp_seq wp_mono [OF wp_confirm] split: option.split)
qed

lemma wp_daemon_run:
  assumes row: "active_row up row (ho_db h)" and rest: "at_rest up h"
    and req: "requests_ok up sha served" "requests_ok up sha served'"
  shows "wp (or_rollback (state_dir (rev_of row)) (seq (start_active deq sha (rev_of row)) (\<lambda>_.
      with_stop (serve_until (state_dir (rev_of row)) served first served' second))))
    (\<lambda>_ h'. at_rest up h' \<and> ho_files h' = files_after (state_dir (rev_of row)) first (ho_files h))
    (\<lambda>e h'. at_rest up h' \<and> (rollback_failed e \<or> rolled_back (state_dir (rev_of row)) (ho_files h) (ho_files h') \<or>
       confirmed_then (state_dir (rev_of row)) first second (ho_files h) e (ho_files h'))) h"
proof (rule wp_or_rollback)
  let ?dir = "state_dir (rev_of row)" and ?f = "ho_files h"
  let ?P = "\<lambda>e f'. f' = ?f \<or> confirmed_then ?dir first second ?f e f'"
  have start: "starting up row ?f h" using row rest by (simp add: starting_def at_rest_def)
  have serve: "wp (with_stop (serve_until ?dir served first served' second))
      (\<lambda>_ h'. at_rest up h' \<and> ho_files h' = files_after ?dir first ?f) (\<lambda>e h'. at_rest up h' \<and> ?P e (ho_files h')) h'"
    if "started up sha row s h' \<and> ho_files h' = ?f" for s h'
  proof -
    have "serving up sha h'"
      using that by (auto simp: started_def serving_def service_linked_def service_at_def)
    from wp_with_stop [OF wp_serve_until [OF this req, of ?dir first second]] that show ?thesis by simp
  qed
  show "wp (seq (start_active deq sha (rev_of row)) (\<lambda>_. with_stop (serve_until ?dir served first served' second)))
      (\<lambda>_ h'. at_rest up h' \<and> ho_files h' = files_after ?dir first ?f) (\<lambda>e h'. at_rest up h' \<and> ?P e (ho_files h')) h"
    by (rule wp_seq, rule wp_mono [OF wp_start_active [OF start]])
      (use serve in \<open>auto simp: starting_def active_row_def at_rest_def\<close>)
  show "rolled_back ?dir ?f f' \<or> confirmed_then ?dir first second ?f e f'"
    if "?P e g" "rolled_back ?dir g f'" for e g f'
    using that by (auto simp: rolled_back_def confirmed_then_def)
qed




text \<open>The first read after the update fails, and the old binary is back.\<close>

definition updated_host :: host where
  "updated_host = start_host\<lparr>ho_files := [pending_path ''/var/lib/5gws'' \<mapsto> PendingJson ''/b'' ''/k'',
     ''/b'' \<mapsto> Raw ''new'', ''/k'' \<mapsto> Raw ''old'']\<rparr>"

abbreviation sample_run :: "(daemon_error + unit) \<times> host \<times> bool list" where
  "sample_run \<equiv> daemon_run (\<lambda>_ _. False) (\<lambda>_. []) id (Some ContextDone) id ContextDone (updated_host, [False, True])"

lemma pending_name: "pending_path ''/var/lib/5gws'' = ''/var/lib/5gws/update-pending.json''"
  by code_simp

lemma start_row_state: "state_dir (rev_of start_row) = ''/var/lib/5gws''"
  unfolding state_dir_def start_row_simps by code_simp

lemma sample_store_active: "store_active (ho_db updated_host, fs) = (if fs \<noteq> [] \<and> hd fs then Inl DriverFailed else Inr (rev_of start_row), ho_db updated_host, tl fs)"
proof -
  have db: "ho_db updated_host = ho_db start_host" by (simp add: updated_host_def)
  obtain dr where "db_app_state (ho_db start_host) = Some (rr_id start_row, dr)"
    "find_revision (ho_db start_host) (rr_id start_row) = Some start_row"
    using start_host_ok by (auto simp: starting_def active_row_def)
  then show ?thesis
    by (simp add: db store_active_def revision_for_def query_def call_cases scan_revision_eq)
qed

lemma start_row_resolved: "b_resolved (rn_bundle (rev_of start_row)) \<noteq> []"
  unfolding start_row_simps by code_simp

lemma sample_run_fails: "fst sample_run = Inl (DaemonStore DriverFailed)"
proof -
  have db: "ho_on_db store_active (updated_host, [False, True]) = (Inr (rev_of start_row), updated_host, [True])"
    by (simp add: ho_on_db_def lift_act_def sample_store_active)
  have start: "start_active deq sha (rev_of start_row) (updated_host, [True]) = (Inl (DaemonStore DriverFailed), updated_host, [])" for deq sha
    using start_row_resolved
    by (simp add: start_active_def reconcile_draft_def seq_def ho_on_db_def lift_act_def store_draft_def revision_for_def
        query_def call_cases)
  have files: "ho_files updated_host = [''/var/lib/5gws/update-pending.json'' \<mapsto> PendingJson ''/b'' ''/k'', ''/b'' \<mapsto> Raw ''new'', ''/k'' \<mapsto> Raw ''old'']"
    by (simp add: updated_host_def pending_name)
  have "fst (rollback_pending ''/var/lib/5gws'' (ho_files updated_host, [])) = Inr ()"
    unfolding files by code_simp
  moreover have "snd (snd (rollback_pending ''/var/lib/5gws'' (ho_files updated_host, []))) = []"
    unfolding files by code_simp
  ultimately obtain f where "rollback_pending ''/var/lib/5gws'' (ho_files updated_host, []) = (Inr (), f, [])"
    by (metis prod.collapse)
  then have "ho_on_files (WithRollback e) (rollback_pending ''/var/lib/5gws'') (updated_host, []) = (Inr (), updated_host\<lparr>ho_files := f\<rparr>, [])" for e
    by (simp add: ho_on_files_def lift_act_def)
  note undone = this
  show ?thesis
    by (simp add: daemon_run_def seq_def db or_rollback_def attempt_def start start_row_state undone fail_def)
qed


end
