(* ===== verification/Auth.thy ===== *)
theory Auth
  imports Store_Props
begin

text \<open>
  \<^verbatim>\<open>internal/auth/auth.go\<close>: the administrator, its sessions and its password, on the tables of the
  database. \<^verbatim>\<open>bcrypt\<close> is the record \<open>bcrypt\<close> (hashing can fail, a hash accepts certain passwords), SHA-256
  in hexadecimal the parameter \<open>sha\<close>, the 32 random bytes of a token an argument, and the clock counts
  nanoseconds while \<^verbatim>\<open>RFC3339\<close> keeps the seconds of the expiry.
\<close>

record bcrypt =
  bc_generate :: "string \<Rightarrow> string option"
  bc_compare :: "string \<Rightarrow> string \<Rightarrow> bool"

record auth_user =
  us_id :: int
  us_username :: string

datatype auth_error = PasswordTooShort | HashFailed | TokenFailed | Unauthorized | AuthDb store_error

type_synonym 'a auth_act = "(db, auth_error, 'a) act"

definition second :: int where
  "second = 1000000000"

definition session_ttl :: "int \<Rightarrow> int" where
  "session_ttl ttl = (if ttl \<le> 0 then 24 * 60 * 60 * second else ttl)"

section \<open>Tokens\<close>

definition b64url_char :: "nat \<Rightarrow> char" where
  "b64url_char n = (if n < 26 then char_of (n + 65) else if n < 52 then char_of (n + 71)
     else if n < 62 then char_of (n - 4) else if n = 62 then CHR ''-'' else CHR ''_'')"

text \<open>\<^verbatim>\<open>base64.RawURLEncoding\<close>: no padding.\<close>

fun b64url_encode :: "bytes \<Rightarrow> string" where
  "b64url_encode (a # b # c # r) =
     b64url_char (unat a div 4) # b64url_char (unat a mod 4 * 16 + unat b div 16) #
     b64url_char (unat b mod 16 * 4 + unat c div 64) # b64url_char (unat c mod 64) # b64url_encode r"
| "b64url_encode [a, b] = [b64url_char (unat a div 4), b64url_char (unat a mod 4 * 16 + unat b div 16),
     b64url_char (unat b mod 16 * 4)]"
| "b64url_encode [a] = [b64url_char (unat a div 4), b64url_char (unat a mod 4 * 16)]"
| "b64url_encode [] = []"

definition hash_token :: "(string \<Rightarrow> string) \<Rightarrow> string \<Rightarrow> string" where
  "hash_token sha token = sha token"

definition new_token :: "(string \<Rightarrow> string) \<Rightarrow> bytes \<Rightarrow> (string \<times> string) auth_act" where
  "new_token sha raw = call TokenFailed (\<lambda>d. (Inr (let t = b64url_encode raw in (t, hash_token sha t)), d))"

definition generate_password :: "bytes \<Rightarrow> string auth_act" where
  "generate_password raw = call TokenFailed (\<lambda>d. (Inr (b64url_encode raw), d))"

section \<open>Operations\<close>

definition auth_query :: "(db \<Rightarrow> 'a) \<Rightarrow> 'a auth_act" where
  "auth_query f = call (AuthDb DriverFailed) (\<lambda>d. (Inr (f d), d))"

definition find_user :: "(user_row \<Rightarrow> bool) \<Rightarrow> db \<Rightarrow> user_row option" where
  "find_user p d = find p (db_users d)"

definition needs_bootstrap :: "bool auth_act" where
  "needs_bootstrap = auth_query (\<lambda>d. length (db_users d) = 0)"

text \<open>\<^verbatim>\<open>username TEXT NOT NULL UNIQUE\<close>.\<close>

definition sql_insert_user :: "string \<Rightarrow> string \<Rightarrow> db \<Rightarrow> (auth_error + int) \<times> db" where
  "sql_insert_user name hash d =
     (if db_user_seq d = 2 ^ 63 - 1 \<or> find_user (\<lambda>u. ur_username u = name) d \<noteq> None
      then (Inl (AuthDb ConstraintFailed), d)
      else let i = db_user_seq d + 1 in (Inr i, d\<lparr>db_user_seq := i, db_users := db_users d @
        [\<lparr>ur_id = i, ur_username = name, ur_password_hash = hash, ur_last_login = None\<rparr>]\<rparr>))"

definition sql_update_users :: "(user_row \<Rightarrow> bool) \<Rightarrow> (user_row \<Rightarrow> user_row) \<Rightarrow> db \<Rightarrow> (auth_error + nat) \<times> db" where
  "sql_update_users p f d = (Inr (affected p (db_users d)), d\<lparr>db_users := update_rows p f (db_users d)\<rparr>)"

definition sql_update_sessions :: "(session_row \<Rightarrow> bool) \<Rightarrow> (session_row \<Rightarrow> session_row) \<Rightarrow> db \<Rightarrow> (auth_error + nat) \<times> db" where
  "sql_update_sessions p f d =
     (Inr (affected p (db_sessions d)), d\<lparr>db_sessions := update_rows p f (db_sessions d)\<rparr>)"

text \<open>\<^verbatim>\<open>token_hash TEXT PRIMARY KEY\<close>, \<^verbatim>\<open>user_id REFERENCES panel_users\<close>.\<close>

definition sql_insert_session :: "string \<Rightarrow> int \<Rightarrow> int \<Rightarrow> db \<Rightarrow> (auth_error + unit) \<times> db" where
  "sql_insert_session h uid expires d =
     (if h \<in> sr_token_hash ` set (db_sessions d) \<or> uid \<notin> ur_id ` set (db_users d)
      then (Inl (AuthDb ConstraintFailed), d)
      else (Inr (), d\<lparr>db_sessions := db_sessions d @
        [\<lparr>sr_token_hash = h, sr_user_id = uid, sr_expires_at = expires, sr_revoked_at = None\<rparr>]\<rparr>))"

definition set_hash :: "string \<Rightarrow> user_row \<Rightarrow> user_row" where
  "set_hash h u = u\<lparr>ur_password_hash := h\<rparr>"

definition revoke :: "int \<Rightarrow> session_row \<Rightarrow> session_row" where
  "revoke now s = s\<lparr>sr_revoked_at := Some (now div second)\<rparr>"

definition reset_admin :: "bcrypt \<Rightarrow> int \<Rightarrow> string \<Rightarrow> auth_user auth_act" where
  "reset_admin bc now password =
     (if length password < 12 then fail PasswordTooShort
      else case bc_generate bc password of None \<Rightarrow> fail HashFailed
      | Some hash \<Rightarrow> transaction (AuthDb DriverFailed)
          (seq (auth_query (find_user (\<lambda>u. ur_username u = ''admin''))) (\<lambda>row.
           seq (case row of
               None \<Rightarrow> call (AuthDb DriverFailed) (sql_insert_user ''admin'' hash)
             | Some u \<Rightarrow> seq (call (AuthDb DriverFailed) (sql_update_users (\<lambda>v. ur_id v = ur_id u) (set_hash hash)))
                 (\<lambda>_. ret (ur_id u))) (\<lambda>i.
           seq (call (AuthDb DriverFailed)
             (sql_update_sessions (\<lambda>s. sr_user_id s = i \<and> sr_revoked_at s = None) (revoke now))) (\<lambda>_.
           ret \<lparr>us_id = i, us_username = ''admin''\<rparr>)))))"

text \<open>Every error of the first query, a missing row included, is \<^verbatim>\<open>ErrUnauthorized\<close>.\<close>

definition login :: "bcrypt \<Rightarrow> (string \<Rightarrow> string) \<Rightarrow> int \<Rightarrow> int \<Rightarrow> bytes \<Rightarrow> string \<Rightarrow> string
    \<Rightarrow> (auth_user \<times> string \<times> int) auth_act" where
  "login bc sha ttl now raw username password =
     seq (attempt (auth_query (find_user (\<lambda>u. ur_username u = username)))) (\<lambda>r.
     case r of Inr (Some u) \<Rightarrow>
       if \<not> bc_compare bc (ur_password_hash u) password then fail Unauthorized
       else seq (new_token sha raw) (\<lambda>(token, h).
         let expires = now + session_ttl ttl in
         seq (call (AuthDb DriverFailed) (sql_insert_session h (ur_id u) (expires div second))) (\<lambda>_.
         seq (attempt (call (AuthDb DriverFailed)
           (sql_update_users (\<lambda>v. ur_id v = ur_id u) (\<lambda>v. v\<lparr>ur_last_login := Some (now div second)\<rparr>)))) (\<lambda>_.
         ret (\<lparr>us_id = ur_id u, us_username = ur_username u\<rparr>, token, expires))))
     | _ \<Rightarrow> fail Unauthorized)"

definition find_session :: "db \<Rightarrow> string \<Rightarrow> (session_row \<times> user_row) option" where
  "find_session d h = Option.bind (find (\<lambda>s. sr_token_hash s = h \<and> sr_revoked_at s = None) (db_sessions d))
     (\<lambda>s. map_option (\<lambda>u. (s, u)) (find_user (\<lambda>u. ur_id u = sr_user_id s) d))"

definition verify :: "(string \<Rightarrow> string) \<Rightarrow> int \<Rightarrow> string \<Rightarrow> auth_user auth_act" where
  "verify sha now token =
     (if token = [] then fail Unauthorized
      else seq (attempt (auth_query (\<lambda>d. find_session d (hash_token sha token)))) (\<lambda>r.
        case r of Inr (Some (s, u)) \<Rightarrow>
          if \<not> now < sr_expires_at s * second then fail Unauthorized
          else ret \<lparr>us_id = ur_id u, us_username = ur_username u\<rparr>
        | _ \<Rightarrow> fail Unauthorized))"

definition logout :: "(string \<Rightarrow> string) \<Rightarrow> int \<Rightarrow> string \<Rightarrow> unit auth_act" where
  "logout sha now token = seq (call (AuthDb DriverFailed) (sql_update_sessions
       (\<lambda>s. sr_token_hash s = hash_token sha token \<and> sr_revoked_at s = None) (revoke now))) (\<lambda>n.
     if n = 0 then fail Unauthorized else ret ())"

definition change_password :: "bcrypt \<Rightarrow> int \<Rightarrow> int \<Rightarrow> string \<Rightarrow> string \<Rightarrow> unit auth_act" where
  "change_password bc now uid cur new =
     (if length new < 12 then fail PasswordTooShort
      else seq (attempt (auth_query (find_user (\<lambda>u. ur_id u = uid)))) (\<lambda>r.
        case r of Inr (Some u) \<Rightarrow>
          if \<not> bc_compare bc (ur_password_hash u) cur then fail Unauthorized
          else (case bc_generate bc new of None \<Rightarrow> fail HashFailed
            | Some hash \<Rightarrow> transaction (AuthDb DriverFailed)
                (seq (call (AuthDb DriverFailed) (sql_update_users (\<lambda>v. ur_id v = uid) (set_hash hash))) (\<lambda>_.
                 seq (call (AuthDb DriverFailed) (sql_update_sessions (\<lambda>s. sr_user_id s = uid) (revoke now))) (\<lambda>_.
                 ret ()))))
        | _ \<Rightarrow> fail Unauthorized))"

section \<open>Histories\<close>

datatype auth_op = SignIn int bytes string string | SignOut int string | CheckToken int string
  | AdminReset int string | NewPassword int int string string | CheckBootstrap

definition auth_step :: "bcrypt \<Rightarrow> (string \<Rightarrow> string) \<Rightarrow> int \<Rightarrow> auth_op \<Rightarrow> db \<times> bool list \<Rightarrow> db \<times> bool list" where
  "auth_step bc sha ttl a w = (case a of
     SignIn now raw n p \<Rightarrow> snd (login bc sha ttl now raw n p w)
   | SignOut now t \<Rightarrow> snd (logout sha now t w)
   | CheckToken now t \<Rightarrow> snd (verify sha now t w)
   | AdminReset now p \<Rightarrow> snd (reset_admin bc now p w)
   | NewPassword now i c p \<Rightarrow> snd (change_password bc now i c p w)
   | CheckBootstrap \<Rightarrow> snd (needs_bootstrap w))"

definition auth_inv :: "db \<Rightarrow> bool" where
  "auth_inv d \<longleftrightarrow> distinct (map sr_token_hash (db_sessions d)) \<and> distinct (map ur_id (db_users d)) \<and>
     distinct (map ur_username (db_users d)) \<and> (\<forall>u \<in> set (db_users d). ur_id u \<le> db_user_seq d) \<and>
     sr_user_id ` set (db_sessions d) \<subseteq> ur_id ` set (db_users d)"

definition revoked_hashes :: "db \<Rightarrow> string set" where
  "revoked_hashes d = sr_token_hash ` {s \<in> set (db_sessions d). sr_revoked_at s \<noteq> None}"

text \<open>The invariant, with the sessions \<open>H\<close> revoked.\<close>

definition auth_dead :: "string set \<Rightarrow> db \<Rightarrow> bool" where
  "auth_dead H d \<longleftrightarrow> auth_inv d \<and> H \<subseteq> revoked_hashes d"

lemma map_update_rows: "(\<And>x. g (f x) = g x) \<Longrightarrow> map g (update_rows p f xs) = map g xs"
  by (simp add: update_rows_def)

lemma row_simps [simp]:
  "ur_id (set_hash h u) = ur_id u" "ur_username (set_hash h u) = ur_username u"
  "sr_token_hash (revoke now s) = sr_token_hash s" "sr_user_id (revoke now s) = sr_user_id s"
  "sr_revoked_at (revoke now s) = Some (now div second)" "sr_expires_at (revoke now s) = sr_expires_at s"
  by (simp_all add: set_hash_def revoke_def)

lemma auth_inv_users:
  assumes "auth_inv d" and "map ur_id us = map ur_id (db_users d)" and "map ur_username us = map ur_username (db_users d)"
  shows "auth_inv (d\<lparr>db_users := us\<rparr>)"
proof -
  have ids: "ur_id ` set us = ur_id ` set (db_users d)" using assms(2) by (metis list.set_map)
  then have "ur_id u \<le> db_user_seq d" if "u \<in> set us" for u
    using assms(1) that by (metis (no_types, lifting) auth_inv_def imageE imageI)
  with assms ids show ?thesis by (simp add: auth_inv_def)
qed

lemma auth_dead_update_users:
  assumes "auth_dead H d" and "\<And>u. ur_id (f u) = ur_id u" and "\<And>u. ur_username (f u) = ur_username u"
  shows "auth_dead H (snd (sql_update_users p f d))"
  using assms(1) auth_inv_users [of d "update_rows p f (db_users d)"]
  by (simp add: auth_dead_def sql_update_users_def revoked_hashes_def map_update_rows assms(2,3))

lemma revoke_rows: "revoked_hashes (snd (sql_update_sessions p (revoke now) d)) =
    revoked_hashes d \<union> sr_token_hash ` {s \<in> set (db_sessions d). p s}"
proof -
  have "{s \<in> set (update_rows p (revoke now) ss). sr_revoked_at s \<noteq> None} =
      {s \<in> set ss. sr_revoked_at s \<noteq> None \<and> \<not> p s} \<union> revoke now ` {s \<in> set ss. p s}" for ss
    by (auto simp: update_rows_def)
  moreover have "sr_token_hash ` revoke now ` S = sr_token_hash ` S" for S by (simp add: image_image)
  ultimately show ?thesis by (auto simp: revoked_hashes_def sql_update_sessions_def image_Un)
qed

lemma auth_inv_sessions:
  assumes "auth_inv d"
  shows "auth_inv (snd (sql_update_sessions p (revoke now) d))"
proof -
  have "map sr_user_id (update_rows p (revoke now) (db_sessions d)) = map sr_user_id (db_sessions d)"
    by (simp add: map_update_rows)
  then have "sr_user_id ` set (update_rows p (revoke now) (db_sessions d)) = sr_user_id ` set (db_sessions d)"
    by (metis list.set_map)
  with assms show ?thesis by (simp add: auth_inv_def sql_update_sessions_def map_update_rows)
qed

lemma auth_dead_revoke:
  assumes "auth_dead H d"
  shows "auth_dead (H \<union> sr_token_hash ` {s \<in> set (db_sessions d). p s}) (snd (sql_update_sessions p (revoke now) d))"
  using assms auth_inv_sessions [of d p now] by (auto simp: auth_dead_def revoke_rows)

lemma auth_dead_mono: "auth_dead H d \<Longrightarrow> H' \<subseteq> H \<Longrightarrow> auth_dead H' d"
  by (auto simp: auth_dead_def)

lemma auth_dead_insert_user:
  assumes "auth_dead H d"
  shows "auth_dead H (snd (sql_insert_user n h d))"
proof (cases "db_user_seq d = 2 ^ 63 - 1 \<or> find_user (\<lambda>u. ur_username u = n) d \<noteq> None")
  case False
  let ?i = "db_user_seq d + 1"
  have inv: "auth_inv d" using assms by (simp add: auth_dead_def)
  have "n \<notin> ur_username ` set (db_users d)" using False by (auto simp: find_user_def find_None_iff)
  moreover have "?i \<notin> ur_id ` set (db_users d)" using inv by (force simp: auth_inv_def)
  moreover have "\<forall>u \<in> set (db_users d). ur_id u \<le> ?i" using inv by (force simp: auth_inv_def)
  ultimately show ?thesis
    using assms inv False unfolding auth_dead_def auth_inv_def
    by (auto simp: sql_insert_user_def revoked_hashes_def Let_def)
qed (use assms in \<open>simp add: sql_insert_user_def\<close>)

lemma auth_dead_insert_session: "auth_dead H d \<Longrightarrow> auth_dead H (snd (sql_insert_session h i e d))"
  by (auto simp: auth_dead_def auth_inv_def sql_insert_session_def revoked_hashes_def)

lemma preserves_transaction [preserves_rules]: "preserves I m \<Longrightarrow> preserves I (transaction e m)"
  by (auto simp: preserves_def intro!: wp_transaction elim!: wp_mono)

lemma preserves_auth_query [preserves_rules]: "preserves I (auth_query f)"
  unfolding auth_query_def by (rule preserves_call) simp

lemma preserves_revoke [preserves_rules]: "preserves (auth_dead H) (call e (sql_update_sessions p (revoke now)))"
  by (rule preserves_call) (blast intro: auth_dead_revoke auth_dead_mono)

lemma preserves_users [preserves_rules]:
  "preserves (auth_dead H) (call e (sql_update_users p (set_hash h)))"
  "preserves (auth_dead H) (call e (sql_update_users p (\<lambda>v. v\<lparr>ur_last_login := t\<rparr>)))"
  "preserves (auth_dead H) (call e (sql_insert_user n h))"
  "preserves (auth_dead H) (call e (sql_insert_session h i x))"
  by (rule preserves_call; simp add: auth_dead_update_users auth_dead_insert_user auth_dead_insert_session)+

lemma preserves_new_token [preserves_rules]: "preserves I (new_token sha raw)"
  unfolding new_token_def by (rule preserves_call) simp

lemma preserves_auth:
  "preserves (auth_dead H) (reset_admin bc now p)" "preserves (auth_dead H) (login bc sha ttl now raw n p)"
  "preserves (auth_dead H) (verify sha now t)" "preserves (auth_dead H) (logout sha now t)"
  "preserves (auth_dead H) (change_password bc now i c p)" "preserves (auth_dead H) needs_bootstrap"
  unfolding reset_admin_def login_def verify_def logout_def change_password_def needs_bootstrap_def Let_def case_prod_unfold
  by (intro preserves_rules)+

lemma auth_step_dead: "auth_dead H (fst w) \<Longrightarrow> auth_dead H (fst (auth_step bc sha ttl a w))"
  unfolding auth_step_def by (cases a) (simp_all add: preserves_run preserves_auth)

lemma auth_run_dead: "auth_dead H (fst w) \<Longrightarrow> auth_dead H (fst (fold (auth_step bc sha ttl) as w))"
  by (induction as arbitrary: w) (simp_all add: auth_step_dead)

lemma auth_reachable: "auth_inv (fst (fold (auth_step bc sha ttl) as (empty_db, fs)))"
  using auth_run_dead [of "{}" "(empty_db, fs)" bc sha ttl as]
  by (simp add: auth_dead_def auth_inv_def empty_db_def)

section \<open>Revocation\<close>

definition user_hashes :: "int \<Rightarrow> db \<Rightarrow> string set" where
  "user_hashes i d = sr_token_hash ` {s \<in> set (db_sessions d). sr_user_id s = i}"

lemma verify_dead:
  assumes "auth_dead H (fst w)" and "sha t \<in> H"
  shows "fst (verify sha now t w) = Inl Unauthorized"
proof -
  obtain s where s: "s \<in> set (db_sessions (fst w))" "sr_token_hash s = sha t" "sr_revoked_at s \<noteq> None"
    using assms by (auto simp: auth_dead_def revoked_hashes_def)
  have "sr_revoked_at v \<noteq> None" if "v \<in> set (db_sessions (fst w))" "sr_token_hash v = sha t" for v
    using s that assms(1) by (metis auth_dead_def auth_inv_def inj_on_eq_iff distinct_map)
  then have "find_session (fst w) (sha t) = None"
    by (auto simp: find_session_def find_None_iff bind_eq_None_conv)
  then show ?thesis
    by (cases w) (simp add: verify_def auth_query_def hash_token_def act_defs split: sum.split option.split)
qed

lemma wp_logout: "auth_inv d \<Longrightarrow> wp (logout sha now t) (\<lambda>_. auth_dead {sha t}) (\<lambda>_ _. True) d"
  unfolding logout_def
  apply (rule wp_seq)
  apply (simp add: wp_call wp_simps sql_update_sessions_def hash_token_def)
  subgoal
    using auth_dead_revoke [of "{}" d "\<lambda>s. sr_token_hash s = sha t \<and> sr_revoked_at s = None" now]
    by (auto simp: auth_dead_def sql_update_sessions_def affected_def filter_empty_conv)
  done

lemma auth_dead_revoke_user:
  assumes "auth_dead H d" and "\<And>s. s \<in> set (db_sessions d) \<Longrightarrow> sr_user_id s = i \<Longrightarrow> p s \<or> sr_revoked_at s \<noteq> None"
  shows "auth_dead (user_hashes i d) (snd (sql_update_sessions p (revoke now) d))"
  using auth_dead_revoke [OF assms(1), of p now] assms(2) revoke_rows [of p now d]
  by (fastforce simp: auth_dead_def user_hashes_def revoked_hashes_def)

lemma auth_dead_revoke_live:
  assumes "auth_dead H d"
  shows "auth_dead (user_hashes i d)
    (snd (sql_update_sessions (\<lambda>s. sr_user_id s = i \<and> sr_revoked_at s = None) (revoke now) d))"
  by (rule auth_dead_revoke_user [OF assms]) auto

lemma user_hashes_frame [simp]:
  "user_hashes i (snd (sql_update_users p f d)) = user_hashes i d"
  "user_hashes i (snd (sql_insert_user n h d)) = user_hashes i d"
  by (simp_all add: user_hashes_def sql_update_users_def sql_insert_user_def Let_def)

lemma wp_sql [wp_simps]:
  "wp (auth_query k) Q E d \<longleftrightarrow> E (AuthDb DriverFailed) d \<and> Q (k d) d"
  "wp (call e (sql_update_users p f)) Q' E d \<longleftrightarrow> E e d \<and> Q' (affected p (db_users d)) (snd (sql_update_users p f d))"
  "wp (call e (sql_update_sessions q g)) Q' E d \<longleftrightarrow> E e d \<and> Q' (affected q (db_sessions d)) (snd (sql_update_sessions q g d))"
  by (simp_all add: wp_call auth_query_def sql_update_users_def sql_update_sessions_def)

lemma wp_new_token [wp_simps]: "wp (new_token sha raw) Q E d \<longleftrightarrow>
    E TokenFailed d \<and> Q (b64url_encode raw, hash_token sha (b64url_encode raw)) d"
  by (simp add: new_token_def wp_call Let_def)

lemma wp_seq_token:
  assumes "E TokenFailed d" and "wp (k (b64url_encode raw, hash_token sha (b64url_encode raw))) Q E d"
  shows "wp (seq (new_token sha raw) k) Q E d"
  by (rule wp_seq) (simp add: wp_new_token assms)

lemma wp_insert_user [wp_intros]:
  "(\<And>e. E e d) \<Longrightarrow> (\<And>i. Q i (snd (sql_insert_user n h d))) \<Longrightarrow> wp (call e (sql_insert_user n h)) Q E d"
  by (cases "sql_insert_user n h d") (auto simp: wp_call sql_insert_user_def Let_def split: if_splits)

lemma wp_option [wp_intros]:
  "(x = None \<Longrightarrow> wp m Q E s) \<Longrightarrow> (\<And>y. x = Some y \<Longrightarrow> wp (k y) Q E s) \<Longrightarrow>
   wp (case x of None \<Rightarrow> m | Some y \<Rightarrow> k y) Q E s"
  by (cases x) simp_all

lemma auth_dead_users: "auth_dead {} (snd (sql_update_users q (set_hash h) d))" if "auth_inv d"
  by (rule auth_dead_update_users) (use that in \<open>simp_all add: auth_dead_def\<close>)

lemma wp_change_password:
  assumes "auth_inv d"
  shows "wp (change_password bc now i c p) (\<lambda>_. auth_dead (user_hashes i d)) (\<lambda>_ _. True) d"
proof -
  have "auth_dead (user_hashes i d) (snd (sql_update_sessions (\<lambda>s. sr_user_id s = i) (revoke now)
      (snd (sql_update_users q (set_hash h) d))))" for q h
    using auth_dead_revoke_user [OF auth_dead_users [OF assms], of q h i "\<lambda>s. sr_user_id s = i" now] by simp
  then show ?thesis
    unfolding change_password_def by (auto simp: wp_simps intro!: wp_intros split: sum.split)
qed

lemma wp_reset_admin:
  assumes "auth_inv d"
  shows "wp (reset_admin bc now p) (\<lambda>u. auth_dead (user_hashes (us_id u) d)) (\<lambda>_ _. True) d"
proof -
  have 1: "auth_dead (user_hashes i d) (snd (sql_update_sessions (\<lambda>s. sr_user_id s = i \<and> sr_revoked_at s = None) (revoke now)
      (snd (sql_update_users q (set_hash h) d))))" for i q h
    using auth_dead_revoke_live [OF auth_dead_users [OF assms]] by (metis user_hashes_frame(1))
  have 2: "auth_dead (user_hashes i d) (snd (sql_update_sessions (\<lambda>s. sr_user_id s = i \<and> sr_revoked_at s = None) (revoke now)
      (snd (sql_insert_user n h d))))" for i n h
    using auth_dead_revoke_live [of "{}" "snd (sql_insert_user n h d)" i now]
      auth_dead_insert_user [of "{}" d n h] assms by (simp add: auth_dead_def)
  show ?thesis
    unfolding reset_admin_def by (auto simp: wp_simps 1 2 intro!: wp_intros)
qed

text \<open>
  Claim C24. From any state that a history of the authentication operations reaches from a new
  database, whatever fails: once a log-out, a password change or a reset of the administrator reports
  success, the token (every token of the user) is refused by every later verification, at any time
  and after any further history, log-ins included.
\<close>

theorem revoked_tokens_stay_refused:
  assumes d: "d = fst (fold (auth_step bc sha ttl) as (empty_db, fs0))"
  shows "(\<forall>now t fs w bs later. logout sha now t (d, fs) = (Inr (), w) \<longrightarrow>
      fst (verify sha later t (fold (auth_step bc sha ttl) bs w)) = Inl Unauthorized) \<and>
    (\<forall>now i cur new t fs w bs later. change_password bc now i cur new (d, fs) = (Inr (), w) \<and>
      hash_token sha t \<in> user_hashes i d \<longrightarrow>
      fst (verify sha later t (fold (auth_step bc sha ttl) bs w)) = Inl Unauthorized) \<and>
    (\<forall>now p u t fs w bs later. reset_admin bc now p (d, fs) = (Inr u, w) \<and>
      hash_token sha t \<in> user_hashes (us_id u) d \<longrightarrow>
      fst (verify sha later t (fold (auth_step bc sha ttl) bs w)) = Inl Unauthorized)"
proof -
  have inv: "auth_inv d" by (simp add: d auth_reachable)
  have final: "fst (verify sha later t (fold (auth_step bc sha ttl) bs w)) = Inl Unauthorized"
    if "auth_dead H (fst w)" "sha t \<in> H" for H w t bs later
    by (rule verify_dead [OF auth_run_dead]) (use that in auto)
  have 1: "auth_dead {sha t} (fst w)" if "logout sha now t (d, fs) = (Inr (), w)" for now t fs w
    using wp_run [OF wp_logout [OF inv], of sha now t fs _ "fst w" "snd w"] that by simp
  have 2: "auth_dead (user_hashes i d) (fst w)" if "change_password bc now i cur new (d, fs) = (Inr (), w)" for now i cur new fs w
    using wp_run [OF wp_change_password [OF inv], of bc now i cur new fs _ "fst w" "snd w"] that by simp
  have 3: "auth_dead (user_hashes (us_id u) d) (fst w)" if "reset_admin bc now p (d, fs) = (Inr u, w)" for now p u fs w
    using wp_run [OF wp_reset_admin [OF inv], of bc now p fs _ "fst w" "snd w"] that by simp
  show ?thesis
    using final [OF 1] final [OF 2] final [OF 3] by (auto simp: hash_token_def)
qed

section \<open>Sessions\<close>

text \<open>The session \<open>h\<close> is valid for the user \<open>u\<close> until \<open>e\<close>.\<close>

definition session_of :: "string \<Rightarrow> auth_user \<Rightarrow> int \<Rightarrow> db \<Rightarrow> bool" where
  "session_of h u e d \<longleftrightarrow> (\<exists>s v. find_session d h = Some (s, v) \<and> sr_expires_at s = e \<and>
     u = \<lparr>us_id = ur_id v, us_username = ur_username v\<rparr>)"

lemma verify_session:
  assumes "session_of (hash_token sha t) u e d" and "t \<noteq> []"
  shows "fst (verify sha now t (d, [])) = (if now < e * second then Inr u else Inl Unauthorized)"
  using assms by (auto simp: session_of_def verify_def auth_query_def act_defs)

lemma find_distinct_key: "distinct (map k xs) \<Longrightarrow> x \<in> set xs \<Longrightarrow> find (\<lambda>y. k y = k x) xs = Some x"
  by (induction xs) (auto simp: image_iff)

lemma session_of_insert:
  assumes "auth_inv d" and "sql_insert_session h (ur_id v) e d = (Inr (), d')" and "v \<in> set (db_users d)"
  shows "session_of h \<lparr>us_id = ur_id v, us_username = ur_username v\<rparr> e d'"
proof -
  have "find (\<lambda>u. ur_id u = ur_id v) (db_users d) = Some v"
    using assms(1,3) by (simp add: find_distinct_key auth_inv_def)
  moreover have "find (\<lambda>s. sr_token_hash s = h \<and> sr_revoked_at s = None) (db_sessions d) = None"
    using assms(2) by (auto simp: sql_insert_session_def find_None_iff split: if_splits)
  ultimately show ?thesis
    using assms(2) by (auto simp: session_of_def find_session_def find_user_def sql_insert_session_def
        find_append split: if_splits)
qed

lemma find_update_users:
  assumes "\<And>u. ur_id (f u) = ur_id u"
  shows "find_user (\<lambda>u. ur_id u = i) (snd (sql_update_users p f d)) =
    map_option (\<lambda>u. if p u then f u else u) (find_user (\<lambda>u. ur_id u = i) d)"
proof -
  have "find (\<lambda>u. ur_id u = i) (map (\<lambda>u. if p u then f u else u) us) =
      map_option (\<lambda>u. if p u then f u else u) (find (\<lambda>u. ur_id u = i) us)" for us
    by (induction us) (auto simp: assms)
  then show ?thesis by (simp add: find_user_def sql_update_users_def update_rows_def)
qed

lemma session_of_update:
  assumes "session_of h u e d" and "\<And>v. ur_id (f v) = ur_id v" and "\<And>v. ur_username (f v) = ur_username v"
  shows "session_of h u e (snd (sql_update_users p f d))"
proof -
  obtain r v where r: "find_session d h = Some (r, v)" "sr_expires_at r = e" "u = \<lparr>us_id = ur_id v, us_username = ur_username v\<rparr>"
    using assms(1) by (auto simp: session_of_def)
  have "db_sessions (snd (sql_update_users p f d)) = db_sessions d" by (simp add: sql_update_users_def)
  then have "find_session (snd (sql_update_users p f d)) h = Some (r, if p v then f v else v)"
    using r(1) by (auto simp: find_session_def find_update_users assms(2) bind_eq_Some_conv)
  then show ?thesis using r(2,3) assms(2,3) by (auto simp: session_of_def)
qed

lemma wp_login:
  assumes inv: "auth_inv d"
  shows "wp (login bc sha ttl now raw name pw) (\<lambda>(u, t, e) d'. t = b64url_encode raw \<and> e = now + session_ttl ttl \<and>
      us_username u = name \<and> session_of (hash_token sha t) u (e div second) d' \<and>
      (\<exists>v \<in> set (db_users d). ur_id v = us_id u \<and> ur_username v = name \<and> bc_compare bc (ur_password_hash v) pw))
    (\<lambda>_ _. True) d"
  (is "wp _ ?Q _ _")
proof -
  have ins: "wp (call (AuthDb DriverFailed) (sql_insert_session h (ur_id v) e)) (\<lambda>_. session_of h
      \<lparr>us_id = ur_id v, us_username = ur_username v\<rparr> e) (\<lambda>_ _. True) d" if "v \<in> set (db_users d)" for h v e
    using session_of_insert [OF inv _ that] by (auto simp: wp_call split: prod.split sum.split)
  have body: "wp (seq (call (AuthDb DriverFailed) (sql_insert_session (hash_token sha (b64url_encode raw)) (ur_id v)
        ((now + session_ttl ttl) div second))) (\<lambda>_.
      seq (attempt (call (AuthDb DriverFailed) (sql_update_users (\<lambda>u. ur_id u = ur_id v)
        (\<lambda>u. u\<lparr>ur_last_login := Some (now div second)\<rparr>)))) (\<lambda>_.
      ret (\<lparr>us_id = ur_id v, us_username = ur_username v\<rparr>, b64url_encode raw, now + session_ttl ttl)))) ?Q (\<lambda>_ _. True) d"
    if "find_user (\<lambda>u. ur_username u = name) d = Some v" "bc_compare bc (ur_password_hash v) pw" for v
  proof -
    have v: "v \<in> set (db_users d)" and name: "ur_username v = name" using that(1) find_SomeD by (fastforce simp: find_user_def)+
    show ?thesis
      by (rule wp_seq, rule wp_mono [OF ins [OF v]]) (use v name that(2) in \<open>auto simp: wp_simps intro!: wp_seq wp_attempt session_of_update\<close>)
  qed
  show ?thesis
    unfolding login_def
    by (rule wp_seq, rule wp_attempt)
      (auto simp: wp_simps Let_def intro!: wp_seq_token body split: option.split)
qed

text \<open>
  Claim C25. From any state that a history of the authentication operations reaches: a log-in that
  succeeds had the name and the password of a stored user, and its token, 32 fresh random bytes in
  base64, verifies as that user at every time before the expiry that was stored (the one returned,
  cut to seconds) and is refused from then on.
\<close>

theorem login_token_roundtrip:
  assumes "d = fst (fold (auth_step bc sha ttl) as (empty_db, fs0))" and "length raw = 32"
    and "login bc sha ttl now raw name pw (d, fs) = (Inr (u, token, e), d', fs')"
  shows "token = b64url_encode raw \<and> us_username u = name \<and> e = now + session_ttl ttl \<and>
    (\<exists>v \<in> set (db_users d). ur_id v = us_id u \<and> ur_username v = name \<and> bc_compare bc (ur_password_hash v) pw) \<and>
    (\<forall>later. fst (verify sha later token (d', [])) =
      (if later < e div second * second then Inr u else Inl Unauthorized))"
proof -
  have "auth_inv d" by (simp add: assms(1) auth_reachable)
  note wp = wp_run [OF wp_login [OF this] assms(3)]
  moreover have "b64url_encode raw \<noteq> []"
    using assms(2) by (cases raw rule: b64url_encode.cases) auto
  ultimately show ?thesis by (auto simp: verify_session)
qed

definition sample_bcrypt :: bcrypt where
  "sample_bcrypt = \<lparr>bc_generate = (\<lambda>p. if length p \<le> 72 then Some (''$'' @ p) else None), bc_compare = (\<lambda>h p. h = ''$'' @ p)\<rparr>"

definition sample_login :: "(auth_error + auth_user \<times> string \<times> int) \<times> db \<times> bool list" where
  "sample_login = login sample_bcrypt rev 0 5 (replicate 32 7) ''admin'' ''longpassword''
     (fst (fold (auth_step sample_bcrypt rev 0) [AdminReset 1 ''longpassword''] (empty_db, [])), [])"

lemma sample_login_ok: "fst sample_login = Inr (\<lparr>us_id = 1, us_username = ''admin''\<rparr>,
    b64url_encode (replicate 32 7), 5 + session_ttl 0)"
  by code_simp

theorem login_token_roundtrip_witness:
  "let t = b64url_encode (replicate 32 7); d' = fst (snd sample_login) in
     fst (verify rev 6 t (d', [])) = Inr \<lparr>us_id = 1, us_username = ''admin''\<rparr> \<and>
     fst (verify rev (90000 * second) t (d', [])) = Inl Unauthorized"
proof -
  have r: "sample_login = (Inr (\<lparr>us_id = 1, us_username = ''admin''\<rparr>,
      b64url_encode (replicate 32 7), 5 + session_ttl 0), fst (snd sample_login), snd (snd sample_login))"
    using sample_login_ok by (metis prod.collapse)
  have "\<forall>later. fst (verify rev later (b64url_encode (replicate 32 7)) (fst (snd sample_login), [])) =
      (if later < (5 + session_ttl 0) div second * second then Inr \<lparr>us_id = 1, us_username = ''admin''\<rparr> else Inl Unauthorized)"
    using login_token_roundtrip [OF refl _ r [unfolded sample_login_def]] unfolding sample_login_def by simp
  then show ?thesis by (simp add: session_ttl_def second_def)
qed

definition sample_sessions :: db where
  "sample_sessions = fst (fold (auth_step sample_bcrypt rev 0)
     [AdminReset 1 ''longpassword'', SignIn 2 (replicate 32 7) ''admin'' ''longpassword''] (empty_db, []))"

theorem revoked_tokens_stay_refused_witness:
  "let t = b64url_encode (replicate 32 7); w = snd (reset_admin sample_bcrypt 3 ''otherpassword'' (sample_sessions, [])) in
     fst (verify rev 2 t (sample_sessions, [])) = Inr \<lparr>us_id = 1, us_username = ''admin''\<rparr> \<and>
     fst (verify rev 5 t (fold (auth_step sample_bcrypt rev 0)
       [SignIn 4 (replicate 32 8) ''admin'' ''otherpassword''] w)) = Inl Unauthorized"
proof -
  let ?t = "b64url_encode (replicate 32 7)"
  let ?r = "reset_admin sample_bcrypt 3 ''otherpassword'' (sample_sessions, [])"
  have "fst (verify rev 2 ?t (sample_sessions, [])) = Inr \<lparr>us_id = 1, us_username = ''admin''\<rparr>" by code_simp
  moreover have "fst ?r = Inr \<lparr>us_id = 1, us_username = ''admin''\<rparr>" by code_simp
  then have "?r = (Inr \<lparr>us_id = 1, us_username = ''admin''\<rparr>, snd ?r)" by (metis prod.collapse)
  moreover have "hash_token rev ?t \<in> user_hashes 1 sample_sessions" by code_simp
  moreover note revoked_tokens_stay_refused [OF sample_sessions_def, THEN conjunct2, THEN conjunct2, rule_format,
    of 3 "''otherpassword''" "[]" "\<lparr>us_id = 1, us_username = ''admin''\<rparr>" "snd ?r" ?t 5
      "[SignIn 4 (replicate 32 8) ''admin'' ''otherpassword'']"]
  ultimately show ?thesis by (simp add: Let_def)
qed

end
