(* ===== verification/Apply_Coordinator.thy ===== *)
theory Apply_Coordinator
  imports Service
begin

text \<open>
  \<^verbatim>\<open>internal/api/apply_operations.go\<close>: the coordinator that runs one configuration apply at a time in a
  goroutine of its own and reports its outcome under the client's operation id. The interface
  \<^verbatim>\<open>configApplier\<close> is a function over the state behind it, \<^verbatim>\<open>uuid.Parse\<close> the parameter \<open>uuid_ok\<close>.

  The goroutine's three moments (the lock that marks the start, the call of \<^verbatim>\<open>ApplyBundle\<close>, the lock that
  records the result) are separate steps, so that requests interleave with them as they do in the
  program. The goroutine writes through \<^verbatim>\<open>c.latest\<close>, whichever operation that is.
\<close>

record apply_operation =
  ao_id :: string
  ao_status :: string
  ao_changed :: bool
  ao_revision_id :: int
  ao_rule_count :: nat
  ao_warnings :: "warning list"
  ao_error :: string
  ao_queued_at :: int
  ao_started_at :: "int option"
  ao_finished_at :: "int option"

datatype run_phase = Spawned | Applying | Applied "string + apply_result"

type_synonym apply_run = "string \<times> app_bundle \<times> run_phase"

record 'w coordinator =
  co_latest :: "apply_operation option"
  co_runs :: "apply_run list"
  co_applier :: 'w

datatype begin_error = BadOperationId | ApplyInProgress | ApplyOperationUnknown

definition new_apply_coordinator :: "'w \<Rightarrow> 'w coordinator" where
  "new_apply_coordinator w = \<lparr>co_latest = None, co_runs = [], co_applier = w\<rparr>"

definition terminal_apply_status :: "string \<Rightarrow> bool" where
  "terminal_apply_status s \<longleftrightarrow> s = ''succeeded'' \<or> s = ''failed''"

definition queued_operation :: "int \<Rightarrow> string \<Rightarrow> apply_operation" where
  "queued_operation now i = \<lparr>ao_id = i, ao_status = ''queued'', ao_changed = False, ao_revision_id = 0,
     ao_rule_count = 0, ao_warnings = [], ao_error = [], ao_queued_at = now, ao_started_at = None,
     ao_finished_at = None\<rparr>"

definition begin_apply :: "(string \<Rightarrow> bool) \<Rightarrow> int \<Rightarrow> string \<Rightarrow> app_bundle \<Rightarrow> 'w coordinator
    \<Rightarrow> (begin_error + apply_operation \<times> bool) \<times> 'w coordinator" where
  "begin_apply uuid_ok now i b c =
     (if \<not> uuid_ok i then (Inl BadOperationId, c)
      else case co_latest c of
        Some l \<Rightarrow> if ao_id l = i then (Inr (l, False), c)
          else if \<not> terminal_apply_status (ao_status l) then (Inl ApplyInProgress, c)
          else (Inr (queued_operation now i, True),
            c\<lparr>co_latest := Some (queued_operation now i), co_runs := co_runs c @ [(i, b, Spawned)]\<rparr>)
      | None \<Rightarrow> (Inr (queued_operation now i, True),
            c\<lparr>co_latest := Some (queued_operation now i), co_runs := co_runs c @ [(i, b, Spawned)]\<rparr>))"

definition apply_status :: "(string \<Rightarrow> bool) \<Rightarrow> string \<Rightarrow> 'w coordinator \<Rightarrow> begin_error + apply_operation" where
  "apply_status uuid_ok i c =
     (if \<not> uuid_ok i then Inl BadOperationId
      else case co_latest c of None \<Rightarrow> Inl ApplyOperationUnknown
      | Some l \<Rightarrow> if ao_id l = i then Inr l else Inl ApplyOperationUnknown)"

text \<open>The two locked parts of \<^verbatim>\<open>run\<close>; a nil \<^verbatim>\<open>c.latest\<close> would panic.\<close>

definition run_started :: "int \<Rightarrow> 'w coordinator \<Rightarrow> 'w coordinator go" where
  "run_started now c = (case co_latest c of None \<Rightarrow> Panic
     | Some l \<Rightarrow> Ret (c\<lparr>co_latest := Some (l\<lparr>ao_status := ''running'', ao_started_at := Some now\<rparr>)\<rparr>))"

definition recorded :: "int \<Rightarrow> string + apply_result \<Rightarrow> apply_operation \<Rightarrow> apply_operation" where
  "recorded now r l = (case r of
     Inl e \<Rightarrow> l\<lparr>ao_status := ''failed'', ao_error := e, ao_finished_at := Some now\<rparr>
   | Inr a \<Rightarrow> l\<lparr>ao_status := ''succeeded'', ao_changed := ar_changed a, ao_revision_id := ar_revision_id a,
       ao_rule_count := ar_rule_count a, ao_warnings := ar_warnings a, ao_finished_at := Some now\<rparr>)"

definition run_finished :: "int \<Rightarrow> string + apply_result \<Rightarrow> 'w coordinator \<Rightarrow> 'w coordinator go" where
  "run_finished now r c = (case co_latest c of None \<Rightarrow> Panic
     | Some l \<Rightarrow> Ret (c\<lparr>co_latest := Some (recorded now r l)\<rparr>))"

section \<open>Interleavings\<close>

type_synonym 'w applier = "app_bundle \<Rightarrow> 'w \<Rightarrow> (string + apply_result) \<times> 'w"

text \<open>
  \<open>co_reach ok ap w c accepted done\<close>: from a new coordinator over \<open>w\<close>, some interleaving of requests and
  goroutine steps leads to \<open>c\<close>; \<open>accepted\<close> are the operations that \<^verbatim>\<open>begin\<close> created, in order, \<open>done\<close> the calls
  of \<^verbatim>\<open>ApplyBundle\<close> that returned, with their results.
\<close>

inductive co_reach :: "(string \<Rightarrow> bool) \<Rightarrow> 'w applier \<Rightarrow> 'w \<Rightarrow> 'w coordinator \<Rightarrow> (string \<times> app_bundle) list
    \<Rightarrow> (string \<times> app_bundle \<times> (string + apply_result)) list \<Rightarrow> bool" for ok ap w where
  co_new: "co_reach ok ap w (new_apply_coordinator w) [] []"
| co_request: "co_reach ok ap w c acc ex \<Longrightarrow> begin_apply ok now i b c = (Inr (l, created), c') \<Longrightarrow>
    co_reach ok ap w c' (if created then acc @ [(i, b)] else acc) ex"
| co_start: "co_reach ok ap w c acc ex \<Longrightarrow> co_runs c = xs @ (i, b, Spawned) # ys \<Longrightarrow>
    run_started now c = Ret c' \<Longrightarrow> co_reach ok ap w (c'\<lparr>co_runs := xs @ (i, b, Applying) # ys\<rparr>) acc ex"
| co_work: "co_reach ok ap w c acc ex \<Longrightarrow> co_runs c = xs @ (i, b, Applying) # ys \<Longrightarrow>
    ap b (co_applier c) = (r, v) \<Longrightarrow>
    co_reach ok ap w (c\<lparr>co_applier := v, co_runs := xs @ (i, b, Applied r) # ys\<rparr>) acc (ex @ [(i, b, r)])"
| co_finish: "co_reach ok ap w c acc ex \<Longrightarrow> co_runs c = xs @ (i, b, Applied r) # ys \<Longrightarrow>
    run_finished now r c = Ret c' \<Longrightarrow> co_reach ok ap w (c'\<lparr>co_runs := xs @ ys\<rparr>) acc ex"

text \<open>The applies one after the other.\<close>

fun serial :: "'w applier \<Rightarrow> (string \<times> app_bundle) list \<Rightarrow> 'w
    \<Rightarrow> (string \<times> app_bundle \<times> (string + apply_result)) list \<times> 'w" where
  "serial ap [] w = ([], w)"
| "serial ap ((i, b) # r) w = (case ap b w of (x, v) \<Rightarrow> case serial ap r v of (xs, u) \<Rightarrow> ((i, b, x) # xs, u))"

lemma serial_snoc: "serial ap (r @ [(i, b)]) w =
    (case serial ap r w of (xs, v) \<Rightarrow> case ap b v of (x, u) \<Rightarrow> (xs @ [(i, b, x)], u))"
  by (induction r arbitrary: w) (auto split: prod.splits)

definition asked :: "string \<times> app_bundle \<times> (string + apply_result) \<Rightarrow> string \<times> app_bundle" where
  "asked x = (fst x, fst (snd x))"

definition phase_status :: "run_phase \<Rightarrow> string" where
  "phase_status p = (case p of Spawned \<Rightarrow> ''queued'' | _ \<Rightarrow> ''running'')"

text \<open>What the operation tells a client once it is terminal.\<close>

definition outcome_of :: "apply_operation \<Rightarrow> string + apply_result" where
  "outcome_of l = (if ao_status l = ''failed'' then Inl (ao_error l)
     else Inr \<lparr>ar_changed = ao_changed l, ar_revision_id = ao_revision_id l, ar_rule_count = ao_rule_count l,
       ar_warnings = ao_warnings l\<rparr>)"

definition co_inv :: "'w applier \<Rightarrow> 'w \<Rightarrow> 'w coordinator \<Rightarrow> (string \<times> app_bundle) list
    \<Rightarrow> (string \<times> app_bundle \<times> (string + apply_result)) list \<Rightarrow> bool" where
  "co_inv ap w c acc ex \<longleftrightarrow>
     serial ap (map asked ex) w = (ex, co_applier c) \<and>
     (case co_runs c of
        [] \<Rightarrow> acc = map asked ex \<and> (case co_latest c of None \<Rightarrow> ex = []
          | Some l \<Rightarrow> ex \<noteq> [] \<and> terminal_apply_status (ao_status l) \<and>
              ao_id l = fst (last ex) \<and> outcome_of l = snd (snd (last ex)))
      | [t] \<Rightarrow> (case co_latest c of None \<Rightarrow> False
          | Some l \<Rightarrow> ao_id l = fst t \<and> ao_status l = phase_status (snd (snd t))) \<and>
          (case snd (snd t) of
             Applied r \<Rightarrow> acc = map asked ex \<and> ex \<noteq> [] \<and> last ex = (fst t, fst (snd t), r)
           | _ \<Rightarrow> acc = map asked ex @ [(fst t, fst (snd t))])
      | _ \<Rightarrow> False)"

lemma asked_simp [simp]: "asked (i, b, r) = (i, b)"
  by (simp add: asked_def)

lemma terminal_simps [simp]: "terminal_apply_status ''succeeded''" "terminal_apply_status ''failed''"
  "\<not> terminal_apply_status ''queued''" "\<not> terminal_apply_status ''running''" "\<not> terminal_apply_status (phase_status p)"
  by (auto simp: terminal_apply_status_def phase_status_def split: run_phase.splits)

lemma outcome_recorded: "outcome_of (recorded now r l) = r" "ao_id (recorded now r l) = ao_id l"
  "terminal_apply_status (ao_status (recorded now r l))"
  by (auto simp: outcome_of_def recorded_def split: sum.split)

lemma phase_status_simps [simp]: "phase_status Spawned = ''queued''" "phase_status Applying = ''running''"
  "phase_status (Applied r) = ''running''"
  by (simp_all add: phase_status_def)

lemma co_runs_one: "co_inv ap w c acc ex \<Longrightarrow> co_runs c = xs @ t # ys \<Longrightarrow> xs = [] \<and> ys = []"
  by (cases xs; cases ys; simp add: co_inv_def split: list.splits)

lemma co_inv_new: "co_inv ap w (new_apply_coordinator w) [] []"
  by (simp add: co_inv_def new_apply_coordinator_def)

lemma co_inv_request:
  assumes inv: "co_inv ap w c acc ex" and step: "begin_apply ok now i b c = (Inr (l, created), c')"
  shows "co_inv ap w c' (if created then acc @ [(i, b)] else acc) ex"
proof (cases created)
  case False
  with step have "c' = c" by (auto simp: begin_apply_def split: if_splits option.splits)
  with inv False show ?thesis by simp
next
  case True
  then have c': "c' = c\<lparr>co_latest := Some (queued_operation now i), co_runs := co_runs c @ [(i, b, Spawned)]\<rparr>"
    and idle: "case co_latest c of None \<Rightarrow> True | Some l \<Rightarrow> terminal_apply_status (ao_status l)"
    using step by (auto simp: begin_apply_def split: if_splits option.splits)
  have "co_runs c = []"
    using inv idle by (auto simp: co_inv_def split: list.splits option.splits)
  with inv True show ?thesis by (simp add: co_inv_def c' queued_operation_def)
qed

lemma co_inv_start:
  assumes "co_inv ap w c acc ex" and "co_runs c = [(i, b, Spawned)]" and "run_started now c = Ret c'"
  shows "co_inv ap w (c'\<lparr>co_runs := [(i, b, Applying)]\<rparr>) acc ex"
  using assms by (auto simp: co_inv_def run_started_def split: option.splits)

lemma co_inv_work:
  assumes "co_inv ap w c acc ex" and "co_runs c = [(i, b, Applying)]" and "ap b (co_applier c) = (r, v)"
  shows "co_inv ap w (c\<lparr>co_applier := v, co_runs := [(i, b, Applied r)]\<rparr>) acc (ex @ [(i, b, r)])"
  using assms by (auto simp: co_inv_def serial_snoc split: option.splits)

lemma co_inv_finish:
  assumes "co_inv ap w c acc ex" and "co_runs c = [(i, b, Applied r)]" and "run_finished now r c = Ret c'"
  shows "co_inv ap w (c'\<lparr>co_runs := []\<rparr>) acc ex"
  using assms by (auto simp: co_inv_def run_finished_def outcome_recorded split: option.splits)

lemma co_reach_inv: "co_reach ok ap w c acc ex \<Longrightarrow> co_inv ap w c acc ex"
proof (induction rule: co_reach.induct)
  case (co_start c acc ex xs i b ys now c')
  with co_runs_one [OF co_start.IH co_start.hyps(2)] show ?case by (simp add: co_inv_start)
next
  case (co_work c acc ex xs i b ys r v)
  with co_runs_one [OF co_work.IH co_work.hyps(2)] show ?case by (simp add: co_inv_work)
next
  case (co_finish c acc ex xs i b r ys now c')
  with co_runs_one [OF co_finish.IH co_finish.hyps(2)] show ?case by (simp add: co_inv_finish)
qed (simp_all add: co_inv_new co_inv_request)

definition waiting :: "apply_run \<Rightarrow> bool" where
  "waiting t \<longleftrightarrow> (case snd (snd t) of Applied _ \<Rightarrow> False | _ \<Rightarrow> True)"

text \<open>
  Claim C26. However requests and the goroutines interleave: at most one apply is under way; every
  operation that was accepted is applied once, in the order of acceptance and each on the state the
  one before left, so the applier ends in the state of the serial execution; the latest operation is
  terminal exactly when no apply is under way, and then it carries the id of the last call of
  \<^verbatim>\<open>ApplyBundle\<close> and reports what that call returned; no goroutine hits a nil operation.
\<close>

theorem apply_operations_serial:
  assumes "co_reach ok ap w c acc ex"
  shows "length (co_runs c) \<le> 1 \<and>
    acc = map asked ex @ map (\<lambda>t. (fst t, fst (snd t))) (filter waiting (co_runs c)) \<and>
    serial ap (map asked ex) w = (ex, co_applier c) \<and>
    (\<forall>l. co_latest c = Some l \<longrightarrow> (terminal_apply_status (ao_status l) \<longleftrightarrow> co_runs c = []) \<and>
      (co_runs c = [] \<longrightarrow> ex \<noteq> [] \<and> ao_id l = fst (last ex) \<and> outcome_of l = snd (snd (last ex)))) \<and>
    (co_runs c \<noteq> [] \<longrightarrow> (\<forall>now r. run_started now c \<noteq> Panic \<and> run_finished now r c \<noteq> Panic))"
proof -
  have inv: "co_inv ap w c acc ex" by (rule co_reach_inv [OF assms])
  show ?thesis
  proof (cases "co_runs c")
    case Nil
    with inv show ?thesis by (auto simp: co_inv_def split: option.splits)
  next
    case (Cons t ts)
    then have one: "co_runs c = [t]" using co_runs_one [OF inv, of "[]"] by simp
    obtain i b p where t: "t = (i, b, p)" by (cases t)
    from inv one t obtain l where "co_latest c = Some l" "ao_status l = phase_status p"
      by (auto simp: co_inv_def split: option.splits)
    with inv one t show ?thesis
      by (cases p) (auto simp: co_inv_def waiting_def run_started_def run_finished_def)
  qed
qed

text \<open>An applier that counts its calls and fails on the first one.\<close>

definition sample_applier :: "nat applier" where
  "sample_applier b n = (if n = 0 then Inl ''preflight failed'' else Inr \<lparr>ar_changed = True,
     ar_revision_id = int n, ar_rule_count = 3, ar_warnings = []\<rparr>, n + 1)"

theorem apply_operations_serial_witness:
  "\<exists>c :: nat coordinator. co_runs c = [(''b'', sample_bundle, Spawned)] \<and>
     serial sample_applier (map asked [(''a'', sample_bundle, Inl ''preflight failed'')]) 0 =
       ([(''a'', sample_bundle, Inl ''preflight failed'')], co_applier c) \<and>
     [(''a'', sample_bundle), (''b'', sample_bundle)] = map asked [(''a'', sample_bundle, Inl ''preflight failed'')] @
       map (\<lambda>t. (fst t, fst (snd t))) (filter waiting (co_runs c))"
proof -
  note defs = new_apply_coordinator_def begin_apply_def run_started_def run_finished_def recorded_def sample_applier_def
  let ?R = "co_reach (\<lambda>_. True) sample_applier 0"
  let ?q = "queued_operation 1 ''a''"
  let ?s = "?q\<lparr>ao_status := ''running'', ao_started_at := Some 2\<rparr>"
  let ?f = "recorded 3 (Inl ''preflight failed'') ?s"
  let ?acc = "[(''a'', sample_bundle)]" and ?ex = "[(''a'', sample_bundle, Inl ''preflight failed'')]"
  have 1: "?R \<lparr>co_latest = Some ?q, co_runs = [(''a'', sample_bundle, Spawned)], co_applier = 0\<rparr> ?acc []"
    using co_request [OF co_new, of "\<lambda>_. True" 1 "''a''" sample_bundle 0 ?q True _ sample_applier]
    by (simp add: defs)
  have 2: "?R \<lparr>co_latest = Some ?s, co_runs = [(''a'', sample_bundle, Applying)], co_applier = 0\<rparr> ?acc []"
    using co_start [OF 1, of "[]" "''a''" sample_bundle "[]" 2] by (simp add: defs)
  have 3: "?R \<lparr>co_latest = Some ?s, co_runs = [(''a'', sample_bundle, Applied (Inl ''preflight failed''))],
      co_applier = 1\<rparr> ?acc ?ex"
    using co_work [OF 2, of "[]" "''a''" sample_bundle "[]"] by (simp add: defs)
  have 4: "?R \<lparr>co_latest = Some ?f, co_runs = [], co_applier = 1\<rparr> ?acc ?ex"
    using co_finish [OF 3, of "[]" "''a''" sample_bundle "Inl ''preflight failed''" "[]" 3] by (simp add: defs)
  have 5: "?R \<lparr>co_latest = Some (queued_operation 4 ''b''), co_runs = [(''b'', sample_bundle, Spawned)], co_applier = 1\<rparr>
      [(''a'', sample_bundle), (''b'', sample_bundle)] ?ex"
    using co_request [OF 4, of 4 "''b''" sample_bundle "queued_operation 4 ''b''" True]
    by (simp add: defs queued_operation_def)
  from apply_operations_serial [OF 5] show ?thesis
    by (intro exI [of _ "\<lparr>co_latest = Some (queued_operation 4 ''b''), co_runs = [(''b'', sample_bundle, Spawned)], co_applier = 1\<rparr>"])
      simp
qed

end
