(* ===== verification/Active_Rules.thy ===== *)
theory Active_Rules
  imports Bundle
begin

text \<open>
  \<^verbatim>\<open>internal/api/active_rules.go\<close>: the summary of the active rules, grouped by target in the order in
  which the targets first occur. The Go map \<^verbatim>\<open>indices\<close> from keys to positions is a map.
\<close>

record matcher_summary =
  ms_label :: string
  ms_count :: nat
  ms_samples :: "string list"

record active_rule_summary =
  as_name :: string
  as_target :: string
  as_matchers :: "matcher_summary list"

record active_rule_group =
  ag_key :: string
  ag_title :: string
  ag_rule_count :: nat
  ag_matcher_count :: nat
  ag_rules :: "active_rule_summary list"

record active_rules_response =
  rs_rule_count :: nat
  rs_matcher_count :: nat
  rs_groups :: "active_rule_group list"

text \<open>The three titles and the middle dot, in UTF-8.\<close>

definition title_exit :: string where
  "title_exit = string_of_bytes [0xE5, 0x87, 0xBA, 0xE5, 0x8F, 0xA3, 0xE8, 0xA7, 0x84, 0xE5, 0x88, 0x99]"

definition title_pool :: string where
  "title_pool = ''DNS '' @ string_of_bytes [0xE8, 0xA7, 0xA3, 0xE6, 0x9E, 0x90, 0xE6, 0xB1, 0xA0]"

definition title_none :: string where
  "title_none = string_of_bytes [0xE6, 0x9C, 0xAA, 0xE5, 0x88, 0x86, 0xE7, 0xB1, 0xBB]"

definition middle_dot :: string where
  "middle_dot = '' '' @ string_of_bytes [0xC2, 0xB7] @ '' ''"

definition active_rule_target :: "rule \<Rightarrow> string \<times> string" where
  "active_rule_target r =
     (if rl_exit r \<noteq> [] then (title_exit, ''exit:'' @ rl_exit r)
      else if rl_dns_pool r \<noteq> [] then (title_pool, ''pool:'' @ rl_dns_pool r)
      else (title_none, ''-''))"

definition summarize_matchers :: "rule \<Rightarrow> matcher_summary list" where
  "summarize_matchers r = map (\<lambda>(l, xs). \<lparr>ms_label = l, ms_count = length xs, ms_samples = take (min 6 (length xs)) xs\<rparr>)
     (filter (\<lambda>(l, xs). length xs \<noteq> 0)
       [(''domain'', rl_domain r), (''domain_suffix'', rl_domain_suffix r), (''domain_keyword'', rl_domain_keyword r),
        (''domain_regex'', rl_domain_regex r), (''ip_cidr'', rl_ip_cidr r), (''rule_set'', rl_rule_set r)])"

text \<open>The rules that the import \<open>imp\<close> produced: \<^verbatim>\<open>name-1\<close>, \<^verbatim>\<open>name-2\<close>, \<open>\<dots>\<close>\<close>

definition numbered_rule :: "string \<Rightarrow> rule \<Rightarrow> bool" where
  "numbered_rule prefix r \<longleftrightarrow> has_prefix (rl_name r) prefix \<and>
     (case atoi (trim_prefix (rl_name r) prefix) of None \<Rightarrow> False | Some i \<Rightarrow> \<not> i < 1)"

definition legacy_single_import_names :: "app_bundle \<Rightarrow> string \<Rightarrow> string option" where
  "legacy_single_import_names b = fold (\<lambda>imp aliases.
     case filter (numbered_rule (im_name imp @ ''-'')) (b_resolved b) of
       [r] \<Rightarrow> aliases(rl_name r \<mapsto> im_name imp)
     | _ \<Rightarrow> aliases) (rf_imports (b_rules b)) Map.empty"

definition rule_group_key :: "rule \<Rightarrow> string" where
  "rule_group_key r = (case active_rule_target r of (title, target) \<Rightarrow> title @ '':'' @ target)"

definition matcher_total :: "rule \<Rightarrow> nat" where
  "matcher_total r = sum_list (map ms_count (summarize_matchers r))"

definition rule_summary :: "(string \<Rightarrow> string option) \<Rightarrow> rule \<Rightarrow> active_rule_summary" where
  "rule_summary names r = \<lparr>as_name = (case names (rl_name r) of None \<Rightarrow> rl_name r | Some n \<Rightarrow> n),
     as_target = snd (active_rule_target r), as_matchers = summarize_matchers r\<rparr>"

definition add_to_group :: "(string \<Rightarrow> string option) \<Rightarrow> rule \<Rightarrow> active_rule_group \<Rightarrow> active_rule_group" where
  "add_to_group names r g = g\<lparr>ag_rules := ag_rules g @ [rule_summary names r],
     ag_rule_count := ag_rule_count g + 1, ag_matcher_count := ag_matcher_count g + matcher_total r\<rparr>"

definition new_rule_group :: "rule \<Rightarrow> active_rule_group" where
  "new_rule_group r = (case active_rule_target r of (title, target) \<Rightarrow>
     \<lparr>ag_key = rule_group_key r, ag_title = title @ middle_dot @ target, ag_rule_count = 0,
      ag_matcher_count = 0, ag_rules = []\<rparr>)"

definition summarize_rule :: "(string \<Rightarrow> string option) \<Rightarrow> rule \<Rightarrow> active_rules_response \<times> (string \<Rightarrow> nat option)
    \<Rightarrow> active_rules_response \<times> (string \<Rightarrow> nat option)" where
  "summarize_rule names r = (\<lambda>(resp, indices).
     let key = rule_group_key r;
         (groups, ind) = (case indices key of
            Some i \<Rightarrow> (rs_groups resp, indices)
          | None \<Rightarrow> (rs_groups resp @ [new_rule_group r], indices(key \<mapsto> length (rs_groups resp))));
         i = the (ind key)
     in (resp\<lparr>rs_groups := groups[i := add_to_group names r (groups ! i)],
          rs_matcher_count := rs_matcher_count resp + matcher_total r\<rparr>, ind))"

definition summarize_active_rules :: "app_bundle \<Rightarrow> active_rules_response" where
  "summarize_active_rules b = fst (fold (summarize_rule (legacy_single_import_names b)) (b_resolved b)
     (\<lparr>rs_rule_count = length (b_resolved b), rs_matcher_count = 0, rs_groups = []\<rparr>, Map.empty))"

section \<open>The groups partition the rules\<close>

definition group_of :: "(string \<Rightarrow> string option) \<Rightarrow> rule list \<Rightarrow> active_rule_group \<Rightarrow> bool" where
  "group_of names items g \<longleftrightarrow>
     (let mine = filter (\<lambda>r. rule_group_key r = ag_key g) items in
       ag_rules g = map (rule_summary names) mine \<and> ag_rule_count g = length mine \<and>
       ag_matcher_count g = sum_list (map matcher_total mine))"

definition summary_inv :: "(string \<Rightarrow> string option) \<Rightarrow> rule list
    \<Rightarrow> active_rules_response \<times> (string \<Rightarrow> nat option) \<Rightarrow> bool" where
  "summary_inv names items = (\<lambda>(resp, ind).
     map ag_key (rs_groups resp) = rev (remdups (rev (map rule_group_key items))) \<and>
     (\<forall>k i. ind k = Some i \<longleftrightarrow> i < length (rs_groups resp) \<and> ag_key (rs_groups resp ! i) = k) \<and>
     (\<forall>g \<in> set (rs_groups resp). group_of names items g) \<and>
     rs_matcher_count resp = sum_list (map matcher_total items))"

lemma add_to_group_key [simp]: "ag_key (add_to_group names r g) = ag_key g"
  by (simp add: add_to_group_def)

lemma new_rule_group_key [simp]: "ag_key (new_rule_group r) = rule_group_key r"
  by (simp add: new_rule_group_def split: prod.split)

lemma group_of_other:
  "group_of names items g \<Longrightarrow> ag_key g \<noteq> rule_group_key r \<Longrightarrow> group_of names (items @ [r]) g"
  by (simp add: group_of_def Let_def)

lemma group_of_add:
  "group_of names items g \<Longrightarrow> ag_key g = rule_group_key r \<Longrightarrow> group_of names (items @ [r]) (add_to_group names r g)"
  by (simp add: group_of_def add_to_group_def Let_def)

lemma group_of_new:
  "rule_group_key r \<notin> rule_group_key ` set items \<Longrightarrow> group_of names (items @ [r]) (add_to_group names r (new_rule_group r))"
  by (auto simp: group_of_def add_to_group_def new_rule_group_def Let_def filter_empty_conv image_iff split: prod.splits)

lemma summary_inv_step:
  assumes "summary_inv names items (resp, ind)"
  shows "summary_inv names (items @ [r]) (summarize_rule names r (resp, ind))"
proof -
  let ?k = "rule_group_key r" and ?gs = "rs_groups resp"
  have keys: "map ag_key ?gs = rev (remdups (rev (map rule_group_key items)))"
    and ind: "\<And>k i. ind k = Some i \<longleftrightarrow> i < length ?gs \<and> ag_key (?gs ! i) = k"
    and gs: "\<And>g. g \<in> set ?gs \<Longrightarrow> group_of names items g"
    and total: "rs_matcher_count resp = sum_list (map matcher_total items)"
    using assms by (auto simp: summary_inv_def)
  have key_set: "ag_key ` set ?gs = rule_group_key ` set items"
    using arg_cong [OF keys, of set] by simp
  show ?thesis
  proof (cases "ind ?k")
    case None
    then have new: "?k \<notin> rule_group_key ` set items"
      using ind [of ?k] key_set by (metis imageE in_set_conv_nth option.distinct(1))
    let ?new = "?gs @ [add_to_group names r (new_rule_group r)]"
    have "group_of names (items @ [r]) g" if "g \<in> set ?new" for g
    proof (cases "g \<in> set ?gs")
      case True
      then have "ag_key g \<noteq> ?k" using new key_set by (metis imageI)
      then show ?thesis using True gs by (simp add: group_of_other)
    qed (use that new in \<open>simp add: group_of_new\<close>)
    moreover have "ag_key (?new ! i) = (if i < length ?gs then ag_key (?gs ! i) else ?k)" if "i < length ?new" for i
      using that by (simp add: nth_append)
    moreover have "map ag_key ?new = rev (remdups (rev (map rule_group_key (items @ [r]))))"
      using new keys by auto
    moreover have "ag_key (?gs ! i) \<noteq> ?k" if "i < length ?gs" for i
      using ind [of ?k i] None that by simp
    ultimately show ?thesis
      using None total ind by (auto simp: summary_inv_def summarize_rule_def Let_def list_update_append nth_append less_Suc_eq)
  next
    case (Some i)
    with ind have i: "i < length ?gs" "ag_key (?gs ! i) = ?k" by auto
    let ?new = "?gs[i := add_to_group names r (?gs ! i)]"
    have key: "ag_key (?new ! j) = ag_key (?gs ! j)" if "j < length ?gs" for j
      using that i by (simp add: nth_list_update)
    have "group_of names (items @ [r]) (?new ! j)" if "j < length ?gs" for j
    proof (cases "j = i")
      case True
      then show ?thesis using i gs by (simp add: group_of_add)
    next
      case False
      then have "ag_key (?gs ! j) \<noteq> ?k" using ind [of ?k j] Some that by auto
      then show ?thesis using False that gs by (simp add: group_of_other)
    qed
    then have "\<forall>g \<in> set ?new. group_of names (items @ [r]) g" by (simp add: all_set_conv_all_nth)
    moreover have "map ag_key ?new = map ag_key ?gs"
      using key by (auto intro: nth_equalityI)
    moreover have "?k \<in> rule_group_key ` set items" using i key_set by (metis imageI nth_mem)
    then have "rev (remdups (rev (map rule_group_key (items @ [r])))) = map ag_key ?gs"
      using keys by auto
    moreover have "summarize_rule names r (resp, ind) =
        (resp\<lparr>rs_groups := ?new, rs_matcher_count := rs_matcher_count resp + matcher_total r\<rparr>, ind)"
      using Some by (simp add: summarize_rule_def Let_def)
    ultimately show ?thesis
      using total ind key by (auto simp: summary_inv_def)
  qed
qed

lemma summary_inv_fold:
  "summary_inv names seen w \<Longrightarrow> summary_inv names (seen @ items) (fold (summarize_rule names) items w)"
proof (induction items arbitrary: seen w)
  case (Cons r items)
  then have "summary_inv names (seen @ [r]) (summarize_rule names r w)" by (cases w) (simp add: summary_inv_step)
  from Cons.IH [OF this] show ?case by simp
qed simp

lemma sum_groups:
  fixes f :: "'a \<Rightarrow> nat"
  assumes "finite K" and "key ` set items \<subseteq> K"
  shows "(\<Sum>k \<in> K. sum_list (map f (filter (\<lambda>r. key r = k) items))) = sum_list (map f items)"
  using assms(2)
proof (induction items)
  case (Cons r items)
  have "(\<Sum>k \<in> K. sum_list (map f (filter (\<lambda>q. key q = k) (r # items)))) =
      (\<Sum>k \<in> K. (if k = key r then f r else 0) + sum_list (map f (filter (\<lambda>q. key q = k) items)))"
    by (rule sum.cong) auto
  also have "\<dots> = f r + sum_list (map f items)"
    using Cons assms(1) by (simp add: sum.distrib)
  finally show ?case by simp
qed simp

lemma sum_list_groups:
  fixes f :: "'a \<Rightarrow> nat"
  assumes "map key' gs = rev (remdups (rev (map key items)))"
  shows "sum_list (map (\<lambda>g. sum_list (map f (filter (\<lambda>r. key r = key' g) items))) gs) = sum_list (map f items)"
proof -
  have "sum_list (map (\<lambda>g. sum_list (map f (filter (\<lambda>r. key r = key' g) items))) gs) =
      sum_list (map (\<lambda>k. sum_list (map f (filter (\<lambda>r. key r = k) items))) (map key' gs))"
    by (simp add: comp_def)
  also have "\<dots> = (\<Sum>k \<in> key ` set items. sum_list (map f (filter (\<lambda>r. key r = k) items)))"
    unfolding assms by (subst sum_list_distinct_conv_sum_set) (simp_all add: image_image)
  finally show ?thesis by (simp add: sum_groups)
qed

lemma summary_inv_all:
  "\<exists>ind. summary_inv (legacy_single_import_names b) (b_resolved b) (summarize_active_rules b, ind)"
proof -
  have "summary_inv names [] (\<lparr>rs_rule_count = n, rs_matcher_count = 0, rs_groups = []\<rparr>, Map.empty)" for names n
    by (simp add: summary_inv_def)
  from summary_inv_fold [OF this] show ?thesis
    unfolding summarize_active_rules_def by (metis append_Nil prod.collapse)
qed

lemma summarize_rule_count: "rs_rule_count (fst (fold (summarize_rule names) items w)) = rs_rule_count (fst w)"
  by (induction items arbitrary: w) (auto simp: summarize_rule_def Let_def split: prod.splits option.splits)

text \<open>
  The groups of the summary partition the active rules: one group for each target in the
  order of first occurrence, holding exactly the rules with that target in their order, and the
  counts of rules and matchers are those of the rules, per group and in total.
\<close>

theorem active_rules_partition:
  "map ag_key (rs_groups (summarize_active_rules b)) = rev (remdups (rev (map rule_group_key (b_resolved b)))) \<and>
   (\<forall>g \<in> set (rs_groups (summarize_active_rules b)). group_of (legacy_single_import_names b) (b_resolved b) g) \<and>
   rs_rule_count (summarize_active_rules b) = sum_list (map ag_rule_count (rs_groups (summarize_active_rules b))) \<and>
   rs_matcher_count (summarize_active_rules b) = sum_list (map ag_matcher_count (rs_groups (summarize_active_rules b)))"
proof -
  let ?s = "summarize_active_rules b" and ?items = "b_resolved b"
  have inv: "map ag_key (rs_groups ?s) = rev (remdups (rev (map rule_group_key ?items)))"
    "\<forall>g \<in> set (rs_groups ?s). group_of (legacy_single_import_names b) ?items g"
    "rs_matcher_count ?s = sum_list (map matcher_total ?items)"
    using summary_inv_all [of b] by (auto simp: summary_inv_def)
  have "map ag_matcher_count (rs_groups ?s) =
      map (\<lambda>g. sum_list (map matcher_total (filter (\<lambda>r. rule_group_key r = ag_key g) ?items))) (rs_groups ?s)"
    "map ag_rule_count (rs_groups ?s) =
      map (\<lambda>g. sum_list (map (\<lambda>_. 1) (filter (\<lambda>r. rule_group_key r = ag_key g) ?items))) (rs_groups ?s)"
    using inv(2) by (auto simp: group_of_def Let_def sum_list_triv)
  then have "sum_list (map ag_matcher_count (rs_groups ?s)) = sum_list (map matcher_total ?items)"
    "sum_list (map ag_rule_count (rs_groups ?s)) = length ?items"
    using sum_list_groups [OF inv(1), of matcher_total] sum_list_groups [OF inv(1), of "\<lambda>_. 1"]
    by (simp_all only: sum_list_triv mult_1_right length_map of_nat_id)
  moreover have "rs_rule_count ?s = length ?items"
    by (simp add: summarize_active_rules_def summarize_rule_count)
  ultimately show ?thesis using inv by simp
qed

definition sample_rule :: "string \<Rightarrow> string \<Rightarrow> string list \<Rightarrow> rule" where
  "sample_rule name exit ds = \<lparr>rl_name = name, rl_priority = 0, rl_exit = exit, rl_dns_pool = [], rl_domain = ds,
     rl_domain_suffix = [], rl_domain_keyword = [], rl_domain_regex = [], rl_ip_cidr = [], rl_rule_set = []\<rparr>"

definition sample_active_bundle :: app_bundle where
  "sample_active_bundle = sample_bundle\<lparr>b_resolved := [sample_rule ''a'' ''hk'' [''x.org'', ''y.org''],
     sample_rule ''b'' ''us'' [''z.org''], sample_rule ''c'' ''hk'' [''w.org'']]\<rparr>"

theorem active_rules_partition_witness:
  "let s = summarize_active_rules sample_active_bundle in
     map ag_rule_count (rs_groups s) = [2, 1] \<and> map ag_matcher_count (rs_groups s) = [3, 1] \<and>
     rs_rule_count s = 3 \<and> rs_matcher_count s = 4 \<and>
     (\<forall>g \<in> set (rs_groups s). group_of (legacy_single_import_names sample_active_bundle) (b_resolved sample_active_bundle) g)"
proof -
  have "map ag_rule_count (rs_groups (summarize_active_rules sample_active_bundle)) = [2, 1]"
    "map ag_matcher_count (rs_groups (summarize_active_rules sample_active_bundle)) = [3, 1]"
    by code_simp+
  with active_rules_partition [of sample_active_bundle] show ?thesis by (simp add: Let_def)
qed

end
