(* ===== verification/Ios.thy ===== *)
theory Ios
  imports Config
begin

text \<open>
  \<^verbatim>\<open>internal/ios/ios.go\<close>: the links and the text of the DNS-over-TLS profile for iOS. The QR encoder is
  third-party and an argument.
\<close>

record ios_links =
  li_enabled :: bool
  li_profile_url :: string
  li_profile_qr :: string

fun trim_slash_rev :: "string \<Rightarrow> string" where
  "trim_slash_rev (c # s) = (if c = CHR ''/'' then trim_slash_rev s else c # s)"
| "trim_slash_rev [] = []"

definition trim_slash :: "string \<Rightarrow> string" where
  "trim_slash s = rev (trim_slash_rev (rev s))"

definition build_links :: "config \<Rightarrow> ios_links" where
  "build_links c =
     (if \<not> io_enabled (cf_ios c) then \<lparr>li_enabled = False, li_profile_url = [], li_profile_qr = []\<rparr>
      else let base = trim_slash (io_base_url (cf_ios c)) in
        \<lparr>li_enabled = io_enabled (cf_ios c), li_profile_url = base @ ''/ios/5gws-dot.mobileconfig'',
          li_profile_qr = base @ ''/ios/5gws-dot.png''\<rparr>)"

definition nl :: string where
  "nl = [CHR 0x0A]"

definition quoted :: "string \<Rightarrow> string" where
  "quoted s = CHR 0x22 # s @ [CHR 0x22]"

definition mobile_config :: "config \<Rightarrow> string" where
  "mobile_config c = concat (map (\<lambda>l. l @ nl)
    [''<?xml version='' @ quoted ''1.0'' @ '' encoding='' @ quoted ''UTF-8'' @ ''?>'',
     ''<!DOCTYPE plist PUBLIC '' @ quoted ''-//Apple//DTD PLIST 1.0//EN'' @ '' '' @
       quoted ''http://www.apple.com/DTDs/PropertyList-1.0.dtd'' @ ''>'',
     ''<plist version='' @ quoted ''1.0'' @ ''><dict>'',
     ''<key>PayloadType</key><string>Configuration</string>'',
     ''<key>PayloadVersion</key><integer>1</integer>'',
     ''<key>PayloadIdentifier</key><string>'' @ io_profile_identifier (cf_ios c) @ ''.profile</string>'',
     ''<key>PayloadUUID</key><string>00000000-0000-5000-8000-000000000001</string>'',
     ''<key>PayloadDisplayName</key><string>5gws DNS over TLS</string>'',
     ''<key>PayloadContent</key><array><dict>'',
     ''<key>PayloadType</key><string>com.apple.dnsSettings.managed</string>'',
     ''<key>PayloadVersion</key><integer>1</integer>'',
     ''<key>PayloadIdentifier</key><string>'' @ io_profile_identifier (cf_ios c) @ ''.dns</string>'',
     ''<key>PayloadUUID</key><string>00000000-0000-5000-8000-000000000002</string>'',
     ''<key>PayloadDisplayName</key><string>5gws DoT</string>'',
     ''<key>DNSSettings</key><dict>'',
     ''<key>DNSProtocol</key><string>TLS</string>'',
     ''<key>ServerName</key><string>'' @ dn_dot_domain (cf_dns c) @ ''</string>'',
     ''<key>ServerAddresses</key><array><string>'' @ nw_gateway_ip (cf_network c) @ ''</string></array>'',
     ''</dict></dict></array>'',
     ''</dict></plist>''])"

definition ios_profile_bytes :: "config \<Rightarrow> bytes" where
  "ios_profile_bytes c = bytes_of_string (mobile_config c)"

definition qr_code :: "(string \<Rightarrow> bytes option) \<Rightarrow> config \<Rightarrow> bytes option" where
  "qr_code enc c = enc (li_profile_url (build_links c))"

end
