(* ===== verification/Api.thy ===== *)
theory Api
  imports Auth Login_Limiter Apply_Coordinator Active_Rules Log_Buffer Ios
begin

text \<open>
  \<^verbatim>\<open>internal/api/server.go\<close>, \<^verbatim>\<open>middleware.go\<close>, \<^verbatim>\<open>http_helpers.go\<close> and the handlers of \<^verbatim>\<open>auth_handlers.go\<close>,
  \<^verbatim>\<open>config_handlers.go\<close>, \<^verbatim>\<open>ops_handlers.go\<close>, \<^verbatim>\<open>active_rules.go\<close>: what a request does to the server and what
  it answers.

  A handler is an action on the server; an early answer (\<^verbatim>\<open>writeError(..); return\<close>) is its error. The body
  of a request is kept as the value the decoder makes of it (or the failure), the body of a response as
  the value that is encoded.
\<close>

section \<open>Requests, responses, the server\<close>

datatype request_body = NoBody | Credentials string string | PasswordChange string string
  | BundleJson app_bundle | TomlText string | BadJson

record request =
  rq_method :: string
  rq_path :: string
  rq_id :: string
  rq_query :: string
  rq_host :: string
  rq_remote :: string
  rq_origin :: string
  rq_cookie :: "string option"
  rq_operation :: string
  rq_body :: request_body

datatype session_cookie = SessionCookie string int | ExpiredCookie

datatype api_error = ServiceFailed service_error | AuthFailed auth_error | ApplyFailed begin_error
  | ConfigRejected config_error | Said string

datatype (plugins only: code size) payload = PNothing | PError api_error | PHealth string int | PNeedsSetup bool | PUser auth_user
  | PDashboard string int nat "string list" | PMetrics "string list" | PBundle app_bundle | PRules rules_file
  | PValidated nat "warning list" | PValidation validation | POperation apply_operation | PRevision revision
  | PActiveRules active_rules_response int int | PLogs bytes | PLogEvent bytes "64 word"
  | PProcesses "string list" bytes | PText string | PLinks ios_links | PFile bytes

record response =
  rp_status :: int
  rp_body :: payload
  rp_cookie :: "session_cookie option"

datatype (plugins only: code size) handler = Health | BootstrapStatus | Login | IosProfileFile | IosProfileQR | Logout | Me
  | ChangePassword | Dashboard | Metrics | CurrentConfig | DefaultRules | ValidateConfig | ApplyConfig
  | ApplyConfigStatus | ImportConfig | ActiveRules | ActiveRevision | DraftRevision | SaveDraft | ValidateDraft
  | ApplyDraft | Logs | LogsStream | Diagnostics | RunDiagnostics | ExportBackup | ImportBackup | IosProfile
  | UpdateCheck | UpdateApply | Spa

record route =
  rt_method :: string
  rt_pattern :: string
  rt_protected :: bool
  rt_handler :: handler

record 'rt server =
  se_service :: "'rt service"
  se_logins :: logins
  se_applies :: "unit coordinator"
  se_logs :: log_buffer

text \<open>
  What the handlers get from outside: the parameters of the parts they call, the router of \<^verbatim>\<open>chi\<close>, the
  TOML codec, the QR encoder, and the outcomes of the probes and of the updater as texts.
\<close>

record 'rt api_env =
  ae_service :: "'rt service_env"
  ae_bcrypt :: bcrypt
  ae_sha :: "string \<Rightarrow> string"
  ae_ttl :: int
  ae_now :: int
  ae_random :: bytes
  ae_uuid_ok :: "string \<Rightarrow> bool"
  ae_version :: string
  ae_status :: "'rt \<Rightarrow> string list"
  ae_metric_ok :: "string \<Rightarrow> bool"
  ae_toml_decode :: "string \<Rightarrow> app_bundle option"
  ae_toml_encode :: "app_bundle \<Rightarrow> string option"
  ae_qr :: "string \<Rightarrow> bytes option"
  ae_diagnose :: "config \<Rightarrow> string \<Rightarrow> string"
  ae_update_check :: "string \<Rightarrow> string option"
  ae_update_apply :: "string \<Rightarrow> string \<Rightarrow> string option"
  ae_web :: "string \<Rightarrow> string option"
  ae_chi :: "route list \<Rightarrow> string \<Rightarrow> string \<Rightarrow> route option"

type_synonym ('rt, 'a) api_act = "('rt server, response, 'a) act"

definition write_json :: "int \<Rightarrow> payload \<Rightarrow> response" where
  "write_json st p = \<lparr>rp_status = st, rp_body = p, rp_cookie = None\<rparr>"

definition write_status_error :: "int \<Rightarrow> api_error \<Rightarrow> response" where
  "write_status_error st e = write_json st (PError e)"

text \<open>\<^verbatim>\<open>errors.Is(err, store.ErrNotInitialized)\<close>, through the wrapped and the joined errors.\<close>

fun is_not_initialized :: "service_error \<Rightarrow> bool" where
  "is_not_initialized (StoreError e) = (e = NotInitialized)"
| "is_not_initialized (PruneError e) = (e = NotInitialized)"
| "is_not_initialized (CandidateFailed e f r) = (is_not_initialized e \<or>
     (case f of None \<Rightarrow> False | Some x \<Rightarrow> is_not_initialized x) \<or> (case r of None \<Rightarrow> False | Some x \<Rightarrow> is_not_initialized x))"
| "is_not_initialized (ActivationFailed e f r) = (is_not_initialized e \<or>
     (case f of None \<Rightarrow> False | Some x \<Rightarrow> is_not_initialized x) \<or> (case r of None \<Rightarrow> False | Some x \<Rightarrow> is_not_initialized x))"
| "is_not_initialized _ = False"

definition write_error :: "api_error \<Rightarrow> response" where
  "write_error e = write_status_error (case e of ServiceFailed s \<Rightarrow> if is_not_initialized s then 503 else 500 | _ \<Rightarrow> 500) e"

definition on_service :: "('rt, 'a) service_act \<Rightarrow> ('rt, 'a) api_act" where
  "on_service m = lift_act se_service (\<lambda>s v. v\<lparr>se_service := s\<rparr>) (\<lambda>e. write_error (ServiceFailed e)) m"

definition on_auth :: "(auth_error \<Rightarrow> response) \<Rightarrow> 'a auth_act \<Rightarrow> ('rt, 'a) api_act" where
  "on_auth h m = lift_act (\<lambda>v. sv_db (se_service v)) (\<lambda>d v. v\<lparr>se_service := (se_service v)\<lparr>sv_db := d\<rparr>\<rparr>) h m"

definition service_active :: "('rt, revision) api_act" where
  "service_active = observe (\<lambda>v. sv_active (se_service v))"

section \<open>Routes\<close>

abbreviation get :: "string \<Rightarrow> bool \<Rightarrow> handler \<Rightarrow> route" where
  "get p g h \<equiv> \<lparr>rt_method = ''GET'', rt_pattern = p, rt_protected = g, rt_handler = h\<rparr>"

abbreviation post :: "string \<Rightarrow> bool \<Rightarrow> handler \<Rightarrow> route" where
  "post p g h \<equiv> \<lparr>rt_method = ''POST'', rt_pattern = p, rt_protected = g, rt_handler = h\<rparr>"

definition router :: "bool \<Rightarrow> bool \<Rightarrow> route list" where
  "router web local =
    [get ''/api/v1/health'' False Health,
     get ''/api/v1/bootstrap'' False BootstrapStatus,
     post ''/api/v1/session'' False Login,
     get ''/ios/5gws-dot.mobileconfig'' False IosProfileFile,
     get ''/ios/5gws-dot.png'' False IosProfileQR,
     \<lparr>rt_method = ''DELETE'', rt_pattern = ''/api/v1/session'', rt_protected = True, rt_handler = Logout\<rparr>,
     get ''/api/v1/me'' True Me,
     post ''/api/v1/password'' True ChangePassword,
     get ''/api/v1/dashboard'' True Dashboard,
     get ''/api/v1/metrics'' True Metrics,
     get ''/api/v1/config'' True CurrentConfig,
     get ''/api/v1/rules/defaults'' True DefaultRules,
     post ''/api/v1/config/validate'' True ValidateConfig,
     post ''/api/v1/config/apply'' True ApplyConfig,
     get ''/api/v1/config/apply/{id}'' True ApplyConfigStatus,
     post ''/api/v1/config/import'' True ImportConfig,
     get ''/api/v1/active/rules'' True ActiveRules] @
    (if local then
      [get ''/api/v1/active'' True ActiveRevision,
       get ''/api/v1/draft'' True DraftRevision,
       \<lparr>rt_method = ''PUT'', rt_pattern = ''/api/v1/draft'', rt_protected = True, rt_handler = SaveDraft\<rparr>,
       post ''/api/v1/draft/validate'' True ValidateDraft,
       post ''/api/v1/apply'' True ApplyDraft] else []) @
    [get ''/api/v1/logs'' True Logs,
     get ''/api/v1/logs/stream'' True LogsStream,
     get ''/api/v1/diagnostics'' True Diagnostics,
     post ''/api/v1/diagnostics/run'' True RunDiagnostics,
     get ''/api/v1/backup'' True ExportBackup] @
    (if local then [post ''/api/v1/backup'' True ImportBackup] else []) @
    [get ''/api/v1/ios/profile'' True IosProfile,
     get ''/api/v1/update'' True UpdateCheck,
     post ''/api/v1/update'' True UpdateApply] @
    (if web \<and> \<not> local then [\<lparr>rt_method = [], rt_pattern = ''/*'', rt_protected = False, rt_handler = Spa\<rparr>] else [])"

section \<open>Middleware\<close>

text \<open>An address that does not parse, an empty one included, is in no network.\<close>

definition cidr_allowed :: "request \<Rightarrow> 'rt server \<Rightarrow> bool" where
  "cidr_allowed rq v =
     (let host = (case split_host_port (rq_remote rq) of Some (h, _) \<Rightarrow> h | None \<Rightarrow> []);
          ip = parse_ip host
      in list_ex (\<lambda>c. case parse_cidr c of None \<Rightarrow> False | Some (_, n) \<Rightarrow> net_contains n ip)
           (pa_allowed_cidrs (cf_panel (b_config (rn_bundle (sv_active (se_service v)))))))"

definition allow_cidr :: "request \<Rightarrow> ('rt, unit) api_act" where
  "allow_cidr rq = seq (observe (cidr_allowed rq)) (\<lambda>ok.
     if ok then ret () else fail (write_status_error 403 (Said ''source IP is not allowed'')))"

definition require_session :: "'rt api_env \<Rightarrow> request \<Rightarrow> ('rt, auth_user) api_act" where
  "require_session en rq = (case rq_cookie rq of
     None \<Rightarrow> fail (write_status_error 401 (Said ''missing session''))
   | Some token \<Rightarrow> on_auth (\<lambda>e. write_status_error 401 (AuthFailed e)) (verify (ae_sha en) (ae_now en) token))"

definition same_origin :: "request \<Rightarrow> bool" where
  "same_origin rq \<longleftrightarrow> rq_method rq \<in> {''GET'', ''HEAD'', ''OPTIONS''} \<or> rq_origin rq = [] \<or>
     equal_fold (trim_prefix (rq_origin rq) ''https://'') (rq_host rq)"

definition require_same_origin :: "request \<Rightarrow> ('rt, unit) api_act" where
  "require_same_origin rq =
     (if same_origin rq then ret () else fail (write_status_error 403 (Said ''origin mismatch'')))"

definition local_user :: auth_user where
  "local_user = \<lparr>us_id = 0, us_username = ''root''\<rparr>"

definition remote_ip :: "request \<Rightarrow> string" where
  "remote_ip rq = (case split_host_port (rq_remote rq) of Some (h, _) \<Rightarrow> h | None \<Rightarrow> rq_remote rq)"

end
