(* ===== verification/Api_Handlers.thy ===== *)
theory Api_Handlers
  imports Api
begin

text \<open>
  The request handlers of \<^verbatim>\<open>internal/api\<close> and the chain of middleware, router and handler that a request
  goes through, with the guard that the chain amounts to on the public listener.
\<close>

section \<open>Sessions\<close>

definition bootstrap_status_h :: "('rt, response) api_act" where
  "bootstrap_status_h = seq (on_auth (\<lambda>e. write_error (AuthFailed e)) needs_bootstrap) (\<lambda>needed.
     ret (write_json 200 (PNeedsSetup needed)))"

definition decode_credentials :: "request \<Rightarrow> ('rt, string \<times> string) api_act" where
  "decode_credentials rq = (case rq_body rq of Credentials u p \<Rightarrow> ret (u, p)
     | _ \<Rightarrow> fail (write_status_error 400 (Said ''bad request'')))"

definition with_cookie :: "session_cookie \<Rightarrow> response \<Rightarrow> response" where
  "with_cookie c r = r\<lparr>rp_cookie := Some c\<rparr>"

definition login_h :: "'rt api_env \<Rightarrow> request \<Rightarrow> ('rt, response) api_act" where
  "login_h en rq = seq (decode_credentials rq) (\<lambda>(username, password). let ip = remote_ip rq in
     seq (observe (\<lambda>v. allow_login (ae_now en) ip (se_logins v))) (\<lambda>ok.
     if \<not> ok then fail (write_status_error 429 (Said ''login temporarily locked''))
     else seq (attempt (on_auth (\<lambda>e. write_status_error 401 (AuthFailed e))
            (login (ae_bcrypt en) (ae_sha en) (ae_ttl en) (ae_now en) (ae_random en) username password))) (\<lambda>r.
       case r of
         Inl e \<Rightarrow> seq (modify (\<lambda>v. v\<lparr>se_logins := record_login_failure (ae_now en) ip (se_logins v)\<rparr>)) (\<lambda>_. fail e)
       | Inr (user, token, expires) \<Rightarrow> seq (modify (\<lambda>v. v\<lparr>se_logins := reset_login ip (se_logins v)\<rparr>)) (\<lambda>_.
           ret (with_cookie (SessionCookie token expires) (write_json 200 (PUser user)))))))"

definition logout_h :: "'rt api_env \<Rightarrow> request \<Rightarrow> ('rt, response) api_act" where
  "logout_h en rq = seq (case rq_cookie rq of None \<Rightarrow> ret ()
       | Some t \<Rightarrow> on_auth (\<lambda>e. write_error (AuthFailed e)) (logout (ae_sha en) (ae_now en) t)) (\<lambda>_.
     ret (with_cookie ExpiredCookie (write_json 204 PNothing)))"

definition change_password_h :: "'rt api_env \<Rightarrow> auth_user \<Rightarrow> request \<Rightarrow> ('rt, response) api_act" where
  "change_password_h en u rq = (case rq_body rq of
     PasswordChange cur new \<Rightarrow> seq (on_auth (\<lambda>e. write_error (AuthFailed e))
         (change_password (ae_bcrypt en) (ae_now en) (us_id u) cur new)) (\<lambda>_.
       ret (with_cookie ExpiredCookie (write_json 204 PNothing)))
   | _ \<Rightarrow> fail (write_status_error 400 (Said ''bad request'')))"

section \<open>Configuration\<close>

definition health_h :: "'rt api_env \<Rightarrow> ('rt, response) api_act" where
  "health_h en = seq service_active (\<lambda>a. ret (write_json 200 (PHealth (ae_version en) (rn_id a))))"

definition dashboard_h :: "'rt api_env \<Rightarrow> ('rt, response) api_act" where
  "dashboard_h en = seq service_active (\<lambda>a. seq (observe (\<lambda>v. ae_status en (sv_rt (se_service v)))) (\<lambda>ps.
     ret (write_json 200 (PDashboard (ae_version en) (rn_id a) (length (b_resolved (rn_bundle a))) ps))))"

definition metrics_h :: "'rt api_env \<Rightarrow> ('rt, response) api_act" where
  "metrics_h en = seq (on_service (on_db StoreError (store_metrics 360))) (\<lambda>items.
     if list_all (ae_metric_ok en) (rev items) then ret (write_json 200 (PMetrics (rev items)))
     else fail (write_error (Said ''bad metric'')))"

text \<open>What leaves the server: without the resolved rules, with the managed entries.\<close>

definition exported :: "app_bundle \<Rightarrow> app_bundle" where
  "exported b = b\<lparr>b_resolved := [], b_rules := ensure_managed (b_rules b)\<rparr>"

definition current_config_h :: "('rt, response) api_act" where
  "current_config_h = seq (observe (\<lambda>v. sv_draft (se_service v))) (\<lambda>d.
     ret (write_json 200 (PBundle (exported (rn_bundle d)))))"

definition default_rules_h :: "('rt, response) api_act" where
  "default_rules_h = ret (write_json 200 (PRules managed_file))"

definition decode_bundle :: "request \<Rightarrow> ('rt, app_bundle) api_act" where
  "decode_bundle rq = (case rq_body rq of BundleJson b \<Rightarrow> ret b
     | _ \<Rightarrow> fail (write_status_error 400 (Said ''bad request'')))"

definition validate_config_h :: "'rt api_env \<Rightarrow> request \<Rightarrow> ('rt, response) api_act" where
  "validate_config_h en rq = seq (decode_bundle rq) (\<lambda>b.
     seq (on_service (validate_bundle (ae_service en) b)) (\<lambda>r.
     ret (write_json 200 (PValidated (va_rule_count r) (va_warnings r)))))"

text \<open>\<^verbatim>\<open>begin\<close> under the coordinator's lock; the goroutine it spawns is \<open>Apply_Coordinator\<close>'s.\<close>

definition apply_config_h :: "'rt api_env \<Rightarrow> request \<Rightarrow> ('rt, response) api_act" where
  "apply_config_h en rq = seq (decode_bundle rq) (\<lambda>b.
     seq (attempt (compute (\<lambda>v. case begin_apply (ae_uuid_ok en) (ae_now en) (rq_operation rq) b (se_applies v) of
         (r, c) \<Rightarrow> (map_sum (\<lambda>e. write_status_error (if e = ApplyInProgress then 409 else 400) (ApplyFailed e)) id r,
           v\<lparr>se_applies := c\<rparr>)))) (\<lambda>r.
     case r of Inl e \<Rightarrow> fail e
     | Inr (operation, created) \<Rightarrow> ret (write_json
         (if created \<or> \<not> terminal_apply_status (ao_status operation) then 202 else 200) (POperation operation))))"

definition apply_config_status_h :: "'rt api_env \<Rightarrow> request \<Rightarrow> ('rt, response) api_act" where
  "apply_config_status_h en rq = seq (observe (\<lambda>v. apply_status (ae_uuid_ok en) (rq_id rq) (se_applies v))) (\<lambda>r.
     case r of Inl e \<Rightarrow> fail (write_status_error (if e = ApplyOperationUnknown then 404 else 400) (ApplyFailed e))
     | Inr operation \<Rightarrow> ret (write_json 200 (POperation operation)))"

definition decode_toml :: "'rt api_env \<Rightarrow> request \<Rightarrow> ('rt, app_bundle) api_act" where
  "decode_toml en rq = (case rq_body rq of
     TomlText t \<Rightarrow> (case ae_toml_decode en t of Some b \<Rightarrow> ret b
       | None \<Rightarrow> fail (write_status_error 400 (Said ''bad toml'')))
   | _ \<Rightarrow> fail (write_error (Said ''read failed'')))"

definition import_config_h :: "'rt api_env \<Rightarrow> request \<Rightarrow> ('rt, response) api_act" where
  "import_config_h en rq = seq (decode_toml en rq) (\<lambda>b0. let b = bundle_apply_defaults b0 in
     case validate (en_up (ae_service en)) (b_config b) of
       Some e \<Rightarrow> fail (write_status_error 400 (ConfigRejected e))
     | None \<Rightarrow> ret (write_json 200 (PBundle (exported b))))"

definition active_h :: "('rt, response) api_act" where
  "active_h = seq service_active (\<lambda>r. ret (write_json 200 (PRevision r)))"

definition draft_h :: "('rt, response) api_act" where
  "draft_h = seq (observe (\<lambda>v. sv_draft (se_service v))) (\<lambda>r.
     ret (write_json 200 (PRevision (r\<lparr>rn_bundle := (rn_bundle r)\<lparr>b_resolved := []\<rparr>\<rparr>))))"

definition save_draft_h :: "'rt api_env \<Rightarrow> request \<Rightarrow> ('rt, response) api_act" where
  "save_draft_h en rq = seq (decode_bundle rq) (\<lambda>b. seq (on_service (service_save_draft (ae_service en) b)) (\<lambda>r.
     ret (write_json 200 (PRevision r))))"

definition validate_draft_h :: "'rt api_env \<Rightarrow> ('rt, response) api_act" where
  "validate_draft_h en = seq (on_service (validate_draft (ae_service en))) (\<lambda>r. ret (write_json 200 (PValidation r)))"

definition apply_h :: "'rt api_env \<Rightarrow> ('rt, response) api_act" where
  "apply_h en = seq (on_service (service_apply (ae_service en))) (\<lambda>r. ret (write_json 200 (PRevision r)))"

definition export_backup_h :: "'rt api_env \<Rightarrow> ('rt, response) api_act" where
  "export_backup_h en = seq service_active (\<lambda>r. case ae_toml_encode en (exported (rn_bundle r)) of
     None \<Rightarrow> fail (write_error (Said ''encode failed''))
   | Some t \<Rightarrow> ret (write_json 200 (PText t)))"

definition import_backup_h :: "'rt api_env \<Rightarrow> request \<Rightarrow> ('rt, response) api_act" where
  "import_backup_h en rq = seq (decode_toml en rq) (\<lambda>b. seq (on_service (service_save_draft (ae_service en) b)) (\<lambda>r.
     ret (write_json 200 (PRevision r))))"

definition active_rules_h :: "('rt, response) api_act" where
  "active_rules_h = seq service_active (\<lambda>r. ret (write_json 200 (PActiveRules (summarize_active_rules (rn_bundle r)) (rn_id r)
     (case rn_active_at r of None \<Rightarrow> rn_created_at r | Some t \<Rightarrow> t))))"

section \<open>iOS\<close>

definition active_ios :: "('rt, revision) api_act" where
  "active_ios = seq service_active (\<lambda>r. if \<not> io_enabled (cf_ios (b_config (rn_bundle r)))
     then fail (write_status_error 404 (Said ''404 page not found'')) else ret r)"

definition ios_profile_h :: "('rt, response) api_act" where
  "ios_profile_h = seq service_active (\<lambda>r. ret (write_json 200 (PLinks (build_links (b_config (rn_bundle r))))))"

definition ios_profile_file_h :: "('rt, response) api_act" where
  "ios_profile_file_h = seq active_ios (\<lambda>r. ret (write_json 200 (PFile (ios_profile_bytes (b_config (rn_bundle r))))))"

definition ios_profile_qr_h :: "'rt api_env \<Rightarrow> ('rt, response) api_act" where
  "ios_profile_qr_h en = seq active_ios (\<lambda>r. case qr_code (ae_qr en) (b_config (rn_bundle r)) of
     None \<Rightarrow> fail (write_error (Said ''qr failed'')) | Some d \<Rightarrow> ret (write_json 200 (PFile d)))"

section \<open>Operations\<close>

text \<open>\<^verbatim>\<open>lines, _ := strconv.Atoi(..)\<close>: zero for what is no number, the nearest bound for one out of range.\<close>

definition atoi_value :: "string \<Rightarrow> int" where
  "atoi_value s = (case atoi s of Some n \<Rightarrow> n
     | None \<Rightarrow> let d = (if s \<noteq> [] \<and> (hd s = CHR ''-'' \<or> hd s = CHR ''+'') then tl s else s) in
         if d = [] \<or> \<not> list_all is_digit d then 0
         else if hd s = CHR ''-'' then - (2 ^ 63) else 2 ^ 63 - 1)"

definition logs_h :: "request \<Rightarrow> ('rt, response) api_act" where
  "logs_h rq = (let lines = atoi_value (rq_query rq) in
     seq (observe (\<lambda>v. fst (log_snapshot (se_logs v) (if lines = 0 then 300 else lines)))) (\<lambda>t.
     ret (write_json 200 (PLogs t))))"

text \<open>The stream subscribes, sends a first snapshot, and unsubscribes when the client is gone.\<close>

definition logs_stream_h :: "('rt, response) api_act" where
  "logs_stream_h = seq (observe (\<lambda>v. snd (log_subscribe (se_logs v)))) (\<lambda>i.
     seq (modify (\<lambda>v. v\<lparr>se_logs := fst (log_subscribe (se_logs v))\<rparr>)) (\<lambda>_.
     seq (observe (\<lambda>v. log_snapshot (se_logs v) 500)) (\<lambda>(t, n).
     seq (modify (\<lambda>v. v\<lparr>se_logs := log_unsubscribe i (se_logs v)\<rparr>)) (\<lambda>_.
     ret (write_json 200 (PLogEvent t n))))))"

definition diagnostics_h :: "'rt api_env \<Rightarrow> ('rt, response) api_act" where
  "diagnostics_h en = observe (\<lambda>v. write_json 200 (PProcesses (ae_status en (sv_rt (se_service v)))
     (fst (log_snapshot (se_logs v) 40))))"

definition valid_scope :: "string \<Rightarrow> bool" where
  "valid_scope s \<longleftrightarrow> s \<in> {''all'', ''dns'', ''exits'', ''dot''}"

definition run_diagnostics_h :: "'rt api_env \<Rightarrow> request \<Rightarrow> ('rt, response) api_act" where
  "run_diagnostics_h en rq = (let scope = (if rq_query rq = [] then ''all'' else rq_query rq) in
     if \<not> valid_scope scope then fail (write_status_error 400 (Said ''invalid diagnostics scope''))
     else seq service_active (\<lambda>r. ret (write_json 200 (PText (ae_diagnose en (b_config (rn_bundle r)) scope)))))"

definition update_check_h :: "'rt api_env \<Rightarrow> ('rt, response) api_act" where
  "update_check_h en = (case ae_update_check en (ae_version en) of
     None \<Rightarrow> fail (write_error (Said ''update check failed'')) | Some t \<Rightarrow> ret (write_json 200 (PText t)))"

definition update_apply_h :: "'rt api_env \<Rightarrow> ('rt, response) api_act" where
  "update_apply_h en = seq service_active (\<lambda>r. case ae_update_apply en (ae_version en) (state_dir r) of
     None \<Rightarrow> fail (write_error (Said ''update failed'')) | Some t \<Rightarrow> ret (write_json 202 (PText t)))"

text \<open>The single-page application: files of the embedded tree, the index for every other path.\<close>

definition spa_h :: "'rt api_env \<Rightarrow> request \<Rightarrow> ('rt, response) api_act" where
  "spa_h en rq =
     (if has_prefix (rq_path rq) ''/api/'' then fail (write_status_error 404 (Said ''404 page not found''))
      else let path = trim_prefix (rq_path rq) ''/'' in
        case (if path \<noteq> [] then ae_web en path else None) of Some f \<Rightarrow> ret (write_json 200 (PText f))
        | None \<Rightarrow> (case ae_web en ''index.html'' of None \<Rightarrow> fail (write_error (Said ''no index''))
            | Some f \<Rightarrow> ret (write_json 200 (PText f))))"

section \<open>The chain\<close>

fun handle :: "'rt api_env \<Rightarrow> auth_user \<Rightarrow> request \<Rightarrow> handler \<Rightarrow> ('rt, response) api_act" where
  "handle en u rq Health = health_h en"
| "handle en u rq BootstrapStatus = bootstrap_status_h"
| "handle en u rq Login = login_h en rq"
| "handle en u rq IosProfileFile = ios_profile_file_h"
| "handle en u rq IosProfileQR = ios_profile_qr_h en"
| "handle en u rq Logout = logout_h en rq"
| "handle en u rq Me = ret (write_json 200 (PUser u))"
| "handle en u rq ChangePassword = change_password_h en u rq"
| "handle en u rq Dashboard = dashboard_h en"
| "handle en u rq Metrics = metrics_h en"
| "handle en u rq CurrentConfig = current_config_h"
| "handle en u rq DefaultRules = default_rules_h"
| "handle en u rq ValidateConfig = validate_config_h en rq"
| "handle en u rq ApplyConfig = apply_config_h en rq"
| "handle en u rq ApplyConfigStatus = apply_config_status_h en rq"
| "handle en u rq ImportConfig = import_config_h en rq"
| "handle en u rq ActiveRules = active_rules_h"
| "handle en u rq ActiveRevision = active_h"
| "handle en u rq DraftRevision = draft_h"
| "handle en u rq SaveDraft = save_draft_h en rq"
| "handle en u rq ValidateDraft = validate_draft_h en"
| "handle en u rq ApplyDraft = apply_h en"
| "handle en u rq Logs = logs_h rq"
| "handle en u rq LogsStream = logs_stream_h"
| "handle en u rq Diagnostics = diagnostics_h en"
| "handle en u rq RunDiagnostics = run_diagnostics_h en rq"
| "handle en u rq ExportBackup = export_backup_h en"
| "handle en u rq ImportBackup = import_backup_h en rq"
| "handle en u rq IosProfile = ios_profile_h"
| "handle en u rq UpdateCheck = update_check_h en"
| "handle en u rq UpdateApply = update_apply_h en"
| "handle en u rq Spa = spa_h en rq"

definition authenticated :: "'rt api_env \<Rightarrow> bool \<Rightarrow> request \<Rightarrow> ('rt, auth_user) api_act" where
  "authenticated en local rq = (if local then ret local_user
     else seq (require_session en rq) (\<lambda>u. seq (require_same_origin rq) (\<lambda>_. ret u)))"

definition serve :: "'rt api_env \<Rightarrow> bool \<Rightarrow> request \<Rightarrow> ('rt, response) api_act" where
  "serve en local rq =
     seq (if local then ret () else allow_cidr rq) (\<lambda>_.
     case ae_chi en (router True local) (rq_method rq) (rq_path rq) of
       None \<Rightarrow> fail (write_status_error 404 (Said ''404 page not found''))
     | Some r \<Rightarrow>
         if rt_protected r then seq (authenticated en local rq) (\<lambda>u. handle en u rq (rt_handler r))
         else handle en \<lparr>us_id = 0, us_username = []\<rparr> rq (rt_handler r))"

end
