(* ===== verification/Api_Props.thy ===== *)
theory Api_Props
  imports Api_Handlers
begin

text \<open>
  What guards the public listener: which requests can change the server, and which are answered
  without a session.
\<close>

text \<open>The revisions, the runtime and the database; the limiter; the apply operations.\<close>

definition core :: "'rt server \<Rightarrow> 'rt service \<times> logins \<times> unit coordinator" where
  "core v = (se_service v, se_logins v, se_applies v)"

definition safe_methods :: "string set" where
  "safe_methods = {''GET'', ''HEAD'', ''OPTIONS''}"

definition safe_handlers :: "handler set" where
  "safe_handlers = {Health, BootstrapStatus, IosProfileFile, IosProfileQR, Me, Dashboard, Metrics, CurrentConfig,
     DefaultRules, ApplyConfigStatus, ActiveRules, ActiveRevision, DraftRevision, Logs, LogsStream, Diagnostics,
     ExportBackup, IosProfile, UpdateCheck, Spa}"

definition local_handlers :: "handler set" where
  "local_handlers = {ActiveRevision, DraftRevision, SaveDraft, ValidateDraft, ApplyDraft, ImportBackup}"

definition has_session :: "'rt api_env \<Rightarrow> request \<Rightarrow> 'rt server \<Rightarrow> bool" where
  "has_session en rq v \<longleftrightarrow> (\<exists>t u e. rq_cookie rq = Some t \<and>
     session_of (hash_token (ae_sha en) t) u e (sv_db (se_service v)) \<and> ae_now en < e * second)"

definition routed :: "'rt api_env \<Rightarrow> bool \<Rightarrow> request \<Rightarrow> route option" where
  "routed en local rq = ae_chi en (router True local) (rq_method rq) (rq_path rq)"

section \<open>Handlers that change nothing\<close>

lemma preserves_on_service [preserves_rules]:
  "(\<And>J. preserves J m) \<Longrightarrow> preserves I (on_service m)"
  unfolding on_service_def by (rule preserves_lift) simp_all

lemma preserves_on_auth [preserves_rules]:
  "(\<And>J. preserves J m) \<Longrightarrow> preserves I (on_auth h m)"
  unfolding on_auth_def by (rule preserves_lift) simp_all

lemma preserves_needs_bootstrap: "preserves J needs_bootstrap"
  unfolding needs_bootstrap_def by (rule preserves_auth_query)

lemma preserves_on_db_metrics: "preserves J (on_db h (store_metrics l))"
  unfolding on_db_def by (rule preserves_lift) (simp_all add: preserves_reads)

lemma preserves_active [preserves_rules]: "preserves I service_active" "preserves I active_ios"
  unfolding service_active_def active_ios_def by (intro preserves_rules)+

lemma preserves_logs: "preserves (\<lambda>v. core v = c) (modify (\<lambda>v. v\<lparr>se_logs := f v\<rparr>))"
  by (rule preserves_modify) (simp add: core_def)

lemma preserves_let [preserves_rules]: "preserves I (f x) \<Longrightarrow> preserves I (let y = x in f y)"
  by simp

lemma preserves_pair [preserves_rules]: "(\<And>a b. preserves I (f a b)) \<Longrightarrow> preserves I (case p of (a, b) \<Rightarrow> f a b)"
  by (cases p) simp

lemma safe_handler_preserves:
  assumes "h \<in> safe_handlers"
  shows "preserves (\<lambda>v. core v = c) (handle en u rq h)"
  using assms unfolding safe_handlers_def
  by (elim insertE emptyE; hypsubst; unfold handle.simps health_h_def bootstrap_status_h_def ios_profile_file_h_def
      ios_profile_qr_h_def dashboard_h_def metrics_h_def current_config_h_def default_rules_h_def
      apply_config_status_h_def active_rules_h_def active_h_def draft_h_def logs_h_def logs_stream_h_def
      diagnostics_h_def export_backup_h_def ios_profile_h_def update_check_h_def spa_h_def)
    (intro preserves_rules preserves_logs preserves_needs_bootstrap preserves_on_db_metrics)+

section \<open>The chain\<close>

lemma wp_verify:
  "wp (verify sha now t) (\<lambda>u d'. d' = d \<and> (\<exists>e. session_of (hash_token sha t) u e d \<and> now < e * second)) (\<lambda>_ d'. d' = d) d"
proof -
  have "session_of (hash_token sha t) \<lparr>us_id = ur_id v, us_username = ur_username v\<rparr> (sr_expires_at x) d"
    if "find_session d (hash_token sha t) = Some (x, v)" for x v
    using that by (auto simp: session_of_def)
  then show ?thesis
    unfolding verify_def by (auto simp: wp_simps intro!: wp_seq wp_attempt split: option.split sum.split) blast
qed

lemma wp_authenticated:
  "wp (authenticated en False rq) (\<lambda>_ v. v = s \<and> has_session en rq s \<and> same_origin rq)
     (\<lambda>r v. v = s \<and> rp_status r \<in> {401, 403}) s"
proof -
  have "wp (require_session en rq) (\<lambda>_ v. v = s \<and> has_session en rq s) (\<lambda>r v. v = s \<and> rp_status r \<in> {401, 403}) s"
    unfolding require_session_def on_auth_def
    by (auto simp: wp_simps has_session_def write_status_error_def write_json_def
        intro!: wp_intros wp_mono [OF wp_verify]) blast
  then show ?thesis
    unfolding authenticated_def require_same_origin_def
    by (auto simp: wp_simps write_status_error_def write_json_def intro!: wp_seq elim!: wp_mono)
qed

lemma routes_of_safe_methods:
  "r \<in> set (router web local) \<Longrightarrow> rt_method r \<in> insert [] safe_methods \<Longrightarrow> rt_handler r \<in> safe_handlers"
  by (auto simp: router_def safe_handlers_def safe_methods_def split: if_splits)

lemma open_routes:
  "r \<in> set (router web local) \<Longrightarrow> \<not> rt_protected r \<Longrightarrow>
   rt_handler r \<in> safe_handlers \<or> rt_handler r = Login \<and> rt_method r = ''POST''"
  by (auto simp: router_def safe_handlers_def split: if_splits)

lemma public_routes: "r \<in> set (router web False) \<Longrightarrow> rt_handler r \<notin> local_handlers"
  by (auto simp: router_def local_handlers_def split: if_splits)

text \<open>What an answer \<open>r\<close> with the new state \<open>v\<close> must satisfy.\<close>

definition guarded :: "'rt api_env \<Rightarrow> request \<Rightarrow> 'rt server \<Rightarrow> response \<Rightarrow> 'rt server \<Rightarrow> bool" where
  "guarded en rq s r v \<longleftrightarrow>
     (core v \<noteq> core s \<longrightarrow> cidr_allowed rq s \<and> rq_method rq \<notin> safe_methods \<and>
        (map_option rt_handler (routed en False rq) = Some Login \<or> has_session en rq s \<and> same_origin rq)) \<and>
     (\<not> cidr_allowed rq s \<longrightarrow> rp_status r = 403) \<and>
     (\<forall>rt. cidr_allowed rq s \<and> routed en False rq = Some rt \<and> rt_protected rt \<and>
        \<not> (has_session en rq s \<and> same_origin rq) \<longrightarrow> rp_status r \<in> {401, 403})"

definition chi_ok :: "'rt api_env \<Rightarrow> bool" where
  "chi_ok en \<longleftrightarrow> (\<forall>rs m p r. ae_chi en rs m p = Some r \<longrightarrow> r \<in> set rs \<and> (rt_method r = [] \<or> rt_method r = m))"

lemma wp_serve:
  assumes chi: "chi_ok en"
  shows "wp (serve en False rq) (guarded en rq s) (guarded en rq s) s"
proof -
  let ?G = "guarded en rq s"
  have refuse: "?G r s" if "rp_status r = 403" "\<not> cidr_allowed rq s" for r
    using that by (simp add: guarded_def)
  have rest: "wp (case routed en False rq of None \<Rightarrow> fail (write_status_error 404 (Said ''404 page not found''))
     | Some r \<Rightarrow> if rt_protected r then seq (authenticated en False rq) (\<lambda>u. handle en u rq (rt_handler r))
         else handle en \<lparr>us_id = 0, us_username = []\<rparr> rq (rt_handler r)) ?G ?G s"
    if ok: "cidr_allowed rq s"
  proof (cases "routed en False rq")
    case None
    then show ?thesis using ok by (simp add: wp_simps guarded_def)
  next
    case (Some r)
    then have r: "r \<in> set (router True False)" "rt_method r = [] \<or> rt_method r = rq_method rq"
      using chi by (auto simp: routed_def chi_ok_def)
    have same: "wp (handle en u rq (rt_handler r)) (\<lambda>_ v. core v = core s) (\<lambda>_ v. core v = core s) s"
      if "rt_handler r \<in> safe_handlers" for u
      using preservesD [OF safe_handler_preserves [OF that]] by blast
    show ?thesis
    proof (cases "rt_protected r")
      case False
      have "wp (handle en u rq (rt_handler r)) ?G ?G s" for u
      proof (cases "rt_handler r \<in> safe_handlers")
        case True
        show ?thesis
          by (rule wp_mono [OF same [OF True]]) (use ok Some False in \<open>simp_all add: guarded_def\<close>)
      next
        case h: False
        then have "rt_handler r = Login" "rq_method rq = ''POST''"
          using open_routes [OF r(1) False] r(2) by auto
        then show ?thesis
          by (intro wp_mono [OF wp_True]) (use ok Some False in \<open>simp_all add: guarded_def safe_methods_def\<close>)
      qed
      with Some False show ?thesis by simp
    next
      case True
      have "wp (handle en u rq (rt_handler r)) ?G ?G s" if "has_session en rq s" "same_origin rq" for u
      proof (cases "rq_method rq \<in> safe_methods")
        case True
        with r have h: "rt_handler r \<in> safe_handlers" by (intro routes_of_safe_methods [OF r(1)]) auto
        show ?thesis by (rule wp_mono [OF same [OF h]]) (use that ok in \<open>simp_all add: guarded_def\<close>)
      next
        case False
        show ?thesis by (rule wp_mono [OF wp_True]) (use that ok False in \<open>simp_all add: guarded_def\<close>)
      qed
      note go = this
      have "wp (seq (authenticated en False rq) (\<lambda>u. handle en u rq (rt_handler r))) ?G ?G s"
        by (rule wp_seq, rule wp_mono [OF wp_authenticated]) (use ok go in \<open>auto simp: guarded_def\<close>)
      with Some True show ?thesis by simp
    qed
  qed
  show ?thesis
    unfolding serve_def allow_cidr_def routed_def [symmetric]
    by (auto simp: wp_simps write_status_error_def write_json_def intro!: wp_seq refuse rest)
qed

definition answer :: "response + response \<Rightarrow> response" where
  "answer x = (case x of Inl r \<Rightarrow> r | Inr r \<Rightarrow> r)"


text \<open>A router that compares the paths.\<close>

definition sample_chi :: "route list \<Rightarrow> string \<Rightarrow> string \<Rightarrow> route option" where
  "sample_chi rs m p = find (\<lambda>r. rt_method r = m \<and> rt_pattern r = p) rs"

definition sample_runtime_ops :: "unit runtime_ops" where
  "sample_runtime_ops = \<lparr>ro_preflight = (\<lambda>_. ret ()), ro_prepare = (\<lambda>_ _. ret []), ro_apply = (\<lambda>_ _. ret ()),
     ro_prune_dirs = (\<lambda>_ _. ret ())\<rparr>"

definition sample_unit_env :: "unit service_env" where
  "sample_unit_env = \<lparr>en_up = (\<lambda>_. None), en_deq = (\<lambda>_ _. True), en_re = \<lparr>re_compiles = (\<lambda>_. True), re_matches = (\<lambda>_ _. False)\<rparr>,
     en_now = 0, en_text = (\<lambda>_. []), en_norm = (\<lambda>d f. (Inr \<lparr>n_rules = rf_rules f, n_warnings = []\<rparr>, d)),
     en_rt = sample_runtime_ops\<rparr>"

definition sample_api :: "unit api_env" where
  "sample_api = \<lparr>ae_service = sample_unit_env, ae_bcrypt = sample_bcrypt, ae_sha = rev, ae_ttl = 0, ae_now = 5,
     ae_random = replicate 32 7, ae_uuid_ok = (\<lambda>_. True), ae_version = ''1'', ae_status = (\<lambda>_. []),
     ae_metric_ok = (\<lambda>_. True), ae_toml_decode = (\<lambda>_. None), ae_toml_encode = (\<lambda>_. None), ae_qr = (\<lambda>_. None),
     ae_diagnose = (\<lambda>_ _. []), ae_update_check = (\<lambda>_. None), ae_update_apply = (\<lambda>_ _. None), ae_web = (\<lambda>_. None),
     ae_chi = sample_chi\<rparr>"

definition sample_request :: "string \<Rightarrow> string \<Rightarrow> string \<Rightarrow> request_body \<Rightarrow> request" where
  "sample_request m p remote b = \<lparr>rq_method = m, rq_path = p, rq_id = [], rq_query = [], rq_host = ''panel.example.com'',
     rq_remote = remote, rq_origin = [], rq_cookie = None, rq_operation = [], rq_body = b\<rparr>"

definition sample_revision :: revision where
  "sample_revision = \<lparr>rn_id = 1, rn_status = Active, rn_bundle = sample_bundle\<lparr>b_config := (b_config sample_bundle)\<lparr>
     cf_panel := \<lparr>pa_listen = [], pa_allowed_cidrs = [''10.0.0.0/24'']\<rparr>\<rparr>\<rparr>, rn_error = [], rn_created_at = 0,
     rn_active_at = Some 0\<rparr>"

definition sample_server :: "unit server" where
  "sample_server = \<lparr>se_service = \<lparr>sv_db = empty_db, sv_rt = (), sv_active = sample_revision, sv_draft = sample_revision\<rparr>,
     se_logins = Map.empty, se_applies = new_apply_coordinator (), se_logs = new_log_buffer 16\<rparr>"

lemma sample_chi_ok: "chi_ok sample_api"
  by (auto simp: chi_ok_def sample_api_def sample_chi_def dest: find_SomeD)


end
