(* ===== verification/Checksum.thy ===== *)
theory Checksum
  imports Go_Net
begin

text \<open>
  \<^verbatim>\<open>internal/checksum/checksum.go\<close>: reading a checksum file, and giving a file that holds only a digest the
  name that \<^verbatim>\<open>sha256sum -c\<close> needs. Reading and writing the file is left to the caller.
\<close>

datatype checksum_error = EmptyChecksum | BadChecksumLine | BadDigest | OtherFile

fun first_non_empty :: "string list \<Rightarrow> string" where
  "first_non_empty [] = []"
| "first_non_empty (l # ls) = (if trim_space l \<noteq> [] then trim_space l else first_non_empty ls)"

abbreviation line_feed :: char where
  "line_feed \<equiv> CHR 0x0A"

definition first_non_empty_line :: "string \<Rightarrow> string" where
  "first_non_empty_line text = first_non_empty (split_char line_feed text)"

definition is_hex :: "string \<Rightarrow> bool" where
  "is_hex value = list_all is_hex_char value"

definition parse_sha256_text :: "string \<Rightarrow> string \<Rightarrow> checksum_error + string" where
  "parse_sha256_text text asset =
     (let line = first_non_empty_line text; fs = Go_Prelude.fields line; hash = hd fs in
      if line = [] then Inl EmptyChecksum
      else if length fs \<noteq> 1 \<and> length fs \<noteq> 2 then Inl BadChecksumLine
      else if length hash \<noteq> 64 \<or> \<not> is_hex hash then Inl BadDigest
      else if length fs = 2 \<and> trim_prefix (fs ! 1) ''*'' \<noteq> asset then Inl OtherFile
      else Inr (to_lower hash))"

text \<open>What \<^verbatim>\<open>NormalizeBareSHA256File\<close> writes back, if anything.\<close>

definition normalize_bare :: "string \<Rightarrow> string \<Rightarrow> checksum_error + string option" where
  "normalize_bare data asset =
     (let line = first_non_empty_line data; fs = Go_Prelude.fields line; hash = hd fs in
      if line = [] then Inl EmptyChecksum
      else if length fs \<noteq> 1 then Inr None
      else if length hash \<noteq> 64 \<or> \<not> is_hex hash then Inr None
      else Inr (Some (hash @ ''  '' @ asset @ [line_feed])))"

section \<open>A normalised file says the same of the asset\<close>

definition word :: "string \<Rightarrow> bool" where
  "word s \<longleftrightarrow> s \<noteq> [] \<and> (\<forall>c \<in> set s. \<not> is_space c)"

lemma space_chars [simp]: "is_space CHR '' ''" "is_space line_feed"
  by (simp_all add: is_space_def)

lemma word_no_feed: "word s \<Longrightarrow> line_feed \<notin> set s"
  unfolding word_def using space_chars(2) by blast

lemma hex_not_space: "is_hex_char c \<Longrightarrow> \<not> is_space c"
  by (auto simp: is_hex_char_def hex_val_def is_space_def Let_def split: if_splits)

lemma hex_word: "is_hex h \<Longrightarrow> h \<noteq> [] \<Longrightarrow> word h"
  by (auto simp: is_hex_def word_def list_all_iff hex_not_space)

lemma trim_space_words:
  assumes "word a" and "word b"
  shows "trim_space (a @ m @ b) = a @ m @ b"
proof -
  have "\<not> is_space (hd (a @ m @ b))" "\<not> is_space (last (a @ m @ b))"
    using assms by (auto simp: word_def hd_append last_append)
  then show ?thesis by (simp add: trim_space_def trim_left_id trim_right_id)
qed

lemma fields_two_words:
  assumes "word a" and "word b"
  shows "Go_Prelude.fields (a @ CHR '' '' # CHR '' '' # b) = [a, b]"
proof -
  have "Go_Prelude.fields (a @ CHR '' '' # CHR '' '' # b) = fields_acc (rev a) (CHR '' '' # CHR '' '' # b)"
    using assms(1) by (simp add: Go_Prelude.fields_def fields_acc_word [of a "[]", simplified] word_def)
  also have "\<dots> = a # fields_acc [] b" using assms(1) by (simp add: word_def)
  also have "fields_acc [] b = [b]" using assms(2) fields_word [of b] by (simp add: Go_Prelude.fields_def word_def)
  finally show ?thesis .
qed

lemma first_line_normalized:
  assumes "word h" and "word asset"
  shows "first_non_empty_line (h @ CHR '' '' # CHR '' '' # asset @ [line_feed]) = h @ CHR '' '' # CHR '' '' # asset"
proof -
  have "line_feed \<notin> set (h @ CHR '' '' # CHR '' '' # asset)" using assms word_no_feed by auto
  from split_char_append [OF this, of "[]"]
  have "split_char line_feed (h @ CHR '' '' # CHR '' '' # asset @ [line_feed]) = [h @ CHR '' '' # CHR '' '' # asset, []]" by simp
  moreover have "trim_space (h @ CHR '' '' # CHR '' '' # asset) = h @ CHR '' '' # CHR '' '' # asset"
    using trim_space_words [OF assms, of "''  ''"] by simp
  ultimately show ?thesis by (simp add: first_non_empty_line_def)
qed

text \<open>
  Normalising changes nothing of what the file says: whenever a bare digest is given the asset's name,
  the file is then accepted for this asset, with the same digest as before.
\<close>

lemma normalize_bare_parses:
  assumes "normalize_bare data asset = Inr (Some t)" and "word asset" and "\<not> has_prefix asset ''*''"
  shows "parse_sha256_text t asset = parse_sha256_text data asset \<and>
     (\<exists>hash. parse_sha256_text data asset = Inr (to_lower hash) \<and> length hash = 64 \<and> is_hex hash \<and>
        t = hash @ ''  '' @ asset @ [line_feed])"
proof -
  let ?fs = "Go_Prelude.fields (first_non_empty_line data)"
  define h where "h = hd ?fs"
  have data: "first_non_empty_line data \<noteq> []" "length ?fs = 1" "length h = 64" "is_hex h"
    and t: "t = h @ ''  '' @ asset @ [line_feed]"
    using assms(1) by (auto simp: normalize_bare_def Let_def h_def split: if_splits)
  have word: "word h" using data(3,4) by (intro hex_word) auto
  have star: "trim_prefix asset ''*'' = asset" using assms(3) by (simp add: trim_prefix_def)
  have "parse_sha256_text data asset = Inr (to_lower h)"
    using data by (simp add: parse_sha256_text_def h_def)
  moreover have "parse_sha256_text t asset = Inr (to_lower h)"
    using data(3,4) word
    by (simp add: t parse_sha256_text_def Let_def first_line_normalized [OF word assms(2)] fields_two_words [OF word assms(2)] star)
  ultimately show ?thesis using data t by simp
qed

end
