(* ===== verification/Installer.thy ===== *)
theory Installer
  imports Checksum Fallible Go_Path "HOL-Library.Char_ord" "HOL-Library.List_Lexorder"
begin

text \<open>
  \<^verbatim>\<open>internal/installer/installer.go\<close>: the third-party runtimes. An archive is downloaded into a temporary
  directory, checked, unpacked, and its binaries replace the installed ones. The programs it runs
  (\<^verbatim>\<open>curl\<close>, \<^verbatim>\<open>sha256sum\<close>, \<^verbatim>\<open>tar\<close>, \<^verbatim>\<open>apt-get\<close>), the search path and the regular expression of the version are
  parameters; what they print is not modelled. The machine is its files and the temporary directory,
  whose entries are relative paths.
\<close>

type_synonym disk = "string \<Rightarrow> string option"

record machine =
  mc_disk :: disk
  mc_tmp :: "(string \<times> string) list"

record install_env =
  ie_look_path :: "disk \<Rightarrow> string \<Rightarrow> string option"
  ie_root :: bool
  ie_arch :: string
  ie_curl :: "string \<Rightarrow> string option"
  ie_sum_check :: "(string \<times> string) list \<Rightarrow> string \<Rightarrow> bool"
  ie_untar :: "string list \<Rightarrow> string \<Rightarrow> (string \<times> string) list option"
  ie_apt :: "string list \<Rightarrow> disk \<Rightarrow> disk option"
  ie_version_output :: "disk \<Rightarrow> string \<Rightarrow> string option"
  ie_version_match :: "string \<Rightarrow> string list"
  ie_temp_name :: "string \<Rightarrow> string"

datatype install_error = MkdirFailed | CommandFailed string | NeedsRoot | NeedsYes | NoAptGet "string list"
  | UnsupportedArch | ArchiveLacks string | InstallIo | BadSumFile checksum_error | UnknownVersion

type_synonym 'a install_act = "(machine, install_error, 'a) act"

record install_options =
  io_dry_run :: bool
  io_yes :: bool
  io_version :: string

record install_spec =
  sp_binary :: string
  sp_repo :: string
  sp_version :: string
  sp_asset :: string
  sp_checksum :: string
  sp_tar_args :: "string list"
  sp_installed :: "string list"
  sp_replace :: bool
  sp_dest :: string

section \<open>Versions and assets\<close>

definition install_dir :: string where
  "install_dir = ''/usr/local/bin''"

definition version_or :: "string \<Rightarrow> string \<Rightarrow> string" where
  "version_or value fallback = (if value = [] then fallback else if has_prefix value ''v'' then value else ''v'' @ value)"

definition release_arch :: "install_env \<Rightarrow> install_error + string" where
  "release_arch en = (if ie_arch en = ''amd64'' then Inr ''x86_64'' else if ie_arch en = ''arm64'' then Inr ''aarch64''
     else Inl UnsupportedArch)"

definition smart_dns_asset :: "install_env \<Rightarrow> string \<Rightarrow> install_error + string" where
  "smart_dns_asset en version = map_sum id (\<lambda>arch. ''smartdns-'' @ arch @ ''-unknown-linux-gnu-'' @ version @ ''.tar.gz'') (release_arch en)"

definition ss_rust_asset :: "install_env \<Rightarrow> string \<Rightarrow> install_error + string" where
  "ss_rust_asset en version = map_sum id (\<lambda>arch. ''shadowsocks-'' @ version @ ''.'' @ arch @ ''-unknown-linux-gnu.tar.xz'') (release_arch en)"

section \<open>The temporary directory\<close>

definition put_tmp :: "string \<Rightarrow> string \<Rightarrow> machine \<Rightarrow> machine" where
  "put_tmp p c m = m\<lparr>mc_tmp := (p, c) # filter (\<lambda>e. fst e \<noteq> p) (mc_tmp m)\<rparr>"

definition curl :: "install_env \<Rightarrow> string \<Rightarrow> string \<Rightarrow> unit install_act" where
  "curl en file url = call (CommandFailed ''curl'') (\<lambda>m. case ie_curl en url of
     None \<Rightarrow> (Inl (CommandFailed ''curl''), m) | Some c \<Rightarrow> (Inr (), put_tmp file c m))"

definition read_tmp :: "string \<Rightarrow> string install_act" where
  "read_tmp file = call InstallIo (\<lambda>m. (case map_of (mc_tmp m) file of None \<Rightarrow> Inl InstallIo | Some c \<Rightarrow> Inr c, m))"

text \<open>\<^verbatim>\<open>prepareChecksumFile\<close>; \<^verbatim>\<open>os.WriteFile\<close> truncates before it writes.\<close>

definition prepare_checksum_file :: "string \<Rightarrow> string \<Rightarrow> unit install_act" where
  "prepare_checksum_file file asset = seq (read_tmp file) (\<lambda>data. case normalize_bare data asset of
     Inl e \<Rightarrow> fail (BadSumFile e)
   | Inr None \<Rightarrow> ret ()
   | Inr (Some text) \<Rightarrow> seq (call InstallIo (\<lambda>m. (Inr (), put_tmp file [] m))) (\<lambda>_.
       call InstallIo (\<lambda>m. (Inr (), put_tmp file text m))))"

definition sum_check :: "install_env \<Rightarrow> string \<Rightarrow> unit install_act" where
  "sum_check en file = call (CommandFailed ''sha256sum'') (\<lambda>m.
     (if ie_sum_check en (mc_tmp m) file then Inr () else Inl (CommandFailed ''sha256sum''), m))"

definition untar :: "install_env \<Rightarrow> string list \<Rightarrow> string \<Rightarrow> unit install_act" where
  "untar en args asset = seq (read_tmp asset) (\<lambda>c. call (CommandFailed ''tar'') (\<lambda>m. case ie_untar en args c of
     None \<Rightarrow> (Inl (CommandFailed ''tar''), m)
   | Some files \<Rightarrow> (Inr (), fold (\<lambda>(p, c). put_tmp p c) files m)))"

text \<open>\<^verbatim>\<open>filepath.WalkDir\<close> visits files in the lexical order of their path components and stops at the first hit.\<close>

definition base_name :: "string \<Rightarrow> string" where
  "base_name p = last (split_char CHR ''/'' p)"

definition find_file :: "(string \<times> string) list \<Rightarrow> string \<Rightarrow> string option" where
  "find_file entries name = List.find (\<lambda>p. base_name p = name) (sort_key (split_char CHR ''/'') (map fst entries))"

section \<open>Installing\<close>

definition put_disk :: "string \<Rightarrow> string \<Rightarrow> unit install_act" where
  "put_disk p c = call InstallIo (\<lambda>m. (Inr (), m\<lparr>mc_disk := (mc_disk m)(p \<mapsto> c)\<rparr>))"

definition install_step :: "unit install_act" where
  "install_step = call InstallIo (\<lambda>m. (Inr (), m))"

definition rename_disk :: "string \<Rightarrow> string \<Rightarrow> unit install_act" where
  "rename_disk p q = call InstallIo (\<lambda>m. case mc_disk m p of None \<Rightarrow> (Inl InstallIo, m)
     | Some c \<Rightarrow> (Inr (), m\<lparr>mc_disk := (mc_disk m)(q \<mapsto> c, p := None)\<rparr>))"

definition remove_disk :: "string \<Rightarrow> unit install_act" where
  "remove_disk p = call InstallIo (\<lambda>m. (Inr (), m\<lparr>mc_disk := (mc_disk m)(p := None)\<rparr>))"

text \<open>\<^verbatim>\<open>installFileAtomic\<close>: create, mode, copy, sync, close, rename; the temporary file is removed in any case.\<close>

definition install_file_atomic :: "install_env \<Rightarrow> string \<Rightarrow> string \<Rightarrow> unit install_act" where
  "install_file_atomic en src destination = (let temporary = ie_temp_name en destination in
     seq (read_tmp src) (\<lambda>c.
     seq (put_disk temporary []) (\<lambda>_.
     deferred (remove_disk temporary) (
       seq install_step (\<lambda>_.
       seq (put_disk temporary c) (\<lambda>_.
       seq install_step (\<lambda>_.
       seq install_step (\<lambda>_.
       rename_disk temporary destination))))))))"

fun install_files :: "install_env \<Rightarrow> string \<Rightarrow> string list \<Rightarrow> unit install_act" where
  "install_files en dir [] = ret ()"
| "install_files en dir (name # names) = seq (observe mc_tmp) (\<lambda>entries. case find_file entries name of
     None \<Rightarrow> fail (ArchiveLacks name)
   | Some src \<Rightarrow> seq (install_file_atomic en src (path_join [dir, name])) (\<lambda>_. install_files en dir names))"

definition release_url :: "install_spec \<Rightarrow> string \<Rightarrow> string" where
  "release_url sp file = ''https://github.com/'' @ sp_repo sp @ ''/releases/download/'' @ sp_version sp @ ''/'' @ file"

definition destination_dir :: "install_spec \<Rightarrow> string" where
  "destination_dir sp = (if sp_dest sp = [] then install_dir else sp_dest sp)"

definition fetch_archive :: "install_env \<Rightarrow> install_spec \<Rightarrow> unit install_act" where
  "fetch_archive en sp =
     seq (curl en (sp_asset sp) (release_url sp (sp_asset sp))) (\<lambda>_.
     seq (curl en (sp_checksum sp) (release_url sp (sp_checksum sp))) (\<lambda>_.
     seq (prepare_checksum_file (sp_checksum sp) (sp_asset sp)) (\<lambda>_.
     seq (sum_check en (sp_checksum sp)) (\<lambda>_.
     untar en (sp_tar_args sp) (sp_asset sp)))))"

text \<open>\<^verbatim>\<open>os.MkdirTemp\<close> and its deferred removal.\<close>

definition make_tmp :: "unit install_act" where
  "make_tmp = call MkdirFailed (\<lambda>m. (Inr (), m\<lparr>mc_tmp := []\<rparr>))"

definition remove_tmp_dir :: "unit install_act" where
  "remove_tmp_dir = call InstallIo (\<lambda>m. (Inr (), m\<lparr>mc_tmp := []\<rparr>))"

definition install_archive :: "install_env \<Rightarrow> install_spec \<Rightarrow> install_options \<Rightarrow> unit install_act" where
  "install_archive en sp opts = seq (observe (\<lambda>m. ie_look_path en (mc_disk m) (sp_binary sp))) (\<lambda>found.
     if found \<noteq> None \<and> \<not> sp_replace sp then ret ()
     else if \<not> io_yes opts \<and> \<not> io_dry_run opts then fail NeedsYes
     else if io_dry_run opts then ret ()
     else if \<not> ie_root en then fail NeedsRoot
     else seq make_tmp (\<lambda>_. deferred remove_tmp_dir (
       seq (fetch_archive en sp) (\<lambda>_. install_files en (destination_dir sp) (sp_installed sp)))))"

section \<open>The two runtimes\<close>

definition default_smart_dns_version :: string where
  "default_smart_dns_version = ''v0.13.1''"

definition default_ss_rust_version :: string where
  "default_ss_rust_version = ''v1.24.0''"

definition installed_smart_dns_version :: "install_env \<Rightarrow> string \<Rightarrow> string install_act" where
  "installed_smart_dns_version en path = call (CommandFailed ''smartdns'') (\<lambda>m.
     (case ie_version_output en (mc_disk m) path of None \<Rightarrow> Inl (CommandFailed ''smartdns'')
      | Some out \<Rightarrow> (let match = ie_version_match en out in
          if length match \<noteq> 2 then Inl UnknownVersion else Inr (''v'' @ match ! 1)), m))"

definition dir_name :: "string \<Rightarrow> string" where
  "dir_name p = (case last_index_char p CHR ''/'' of None \<Rightarrow> ''.'' | Some i \<Rightarrow> path_clean (take (i + 1) p))"

definition smart_dns_spec :: "string \<Rightarrow> string \<Rightarrow> bool \<Rightarrow> string \<Rightarrow> install_spec" where
  "smart_dns_spec version asset rep dir = \<lparr>sp_binary = ''smartdns'', sp_repo = ''mokeyish/smartdns-rs'',
     sp_version = version, sp_asset = asset, sp_checksum = asset @ ''-sha256sum.txt'', sp_tar_args = [''-xzf''],
     sp_installed = [''smartdns''], sp_replace = rep, sp_dest = dir\<rparr>"

definition install_smart_dns :: "install_env \<Rightarrow> install_options \<Rightarrow> unit install_act" where
  "install_smart_dns en opts = (let version = version_or (io_version opts) default_smart_dns_version;
       install = (\<lambda>rep dir. case smart_dns_asset en version of Inl e \<Rightarrow> fail e
         | Inr asset \<Rightarrow> install_archive en (smart_dns_spec version asset rep dir) opts) in
     seq (observe (\<lambda>m. ie_look_path en (mc_disk m) ''smartdns'')) (\<lambda>found. case found of
       None \<Rightarrow> install False install_dir
     | Some path \<Rightarrow> seq (installed_smart_dns_version en path) (\<lambda>installed.
         if installed = version then ret () else install True (dir_name path))))"

definition ss_rust_spec :: "string \<Rightarrow> string \<Rightarrow> install_spec" where
  "ss_rust_spec version asset = \<lparr>sp_binary = ''sslocal'', sp_repo = ''shadowsocks/shadowsocks-rust'',
     sp_version = version, sp_asset = asset, sp_checksum = asset @ ''.sha256'', sp_tar_args = [''-xJf''],
     sp_installed = [''sslocal'', ''ssserver'', ''ssmanager'', ''ssservice'', ''ssurl''], sp_replace = False, sp_dest = []\<rparr>"

definition install_ss_rust :: "install_env \<Rightarrow> install_options \<Rightarrow> unit install_act" where
  "install_ss_rust en opts = (let version = version_or (io_version opts) default_ss_rust_version in
     case ss_rust_asset en version of Inl e \<Rightarrow> fail e | Inr asset \<Rightarrow> install_archive en (ss_rust_spec version asset) opts)"

definition apt_get :: "install_env \<Rightarrow> string list \<Rightarrow> unit install_act" where
  "apt_get en args = call (CommandFailed ''apt-get'') (\<lambda>m. case ie_apt en args (mc_disk m) of
     None \<Rightarrow> (Inl (CommandFailed ''apt-get''), m) | Some d \<Rightarrow> (Inr (), m\<lparr>mc_disk := d\<rparr>))"

definition ensure_system_packages :: "install_env \<Rightarrow> bool \<Rightarrow> unit install_act" where
  "ensure_system_packages en dry_run =
     seq (observe (\<lambda>m. filter (\<lambda>name. ie_look_path en (mc_disk m) name = None) [''haproxy'', ''nft''])) (\<lambda>missing.
     if missing = [] then ret () else if dry_run then ret () else if \<not> ie_root en then fail NeedsRoot
     else seq (observe (\<lambda>m. ie_look_path en (mc_disk m) ''apt-get'')) (\<lambda>apt.
       if apt = None then fail (NoAptGet missing)
       else seq (apt_get en [''update'']) (\<lambda>_. apt_get en [''install'', ''-y'', ''haproxy'', ''nftables''])))"

definition ensure_smart_dns :: "install_env \<Rightarrow> string \<Rightarrow> bool \<Rightarrow> unit install_act" where
  "ensure_smart_dns en binary dry_run = seq (observe (\<lambda>m. ie_look_path en (mc_disk m) binary)) (\<lambda>found.
     if found \<noteq> None then ret () else install_smart_dns en \<lparr>io_dry_run = dry_run, io_yes = True, io_version = []\<rparr>)"

definition ensure_ss_rust :: "install_env \<Rightarrow> bool \<Rightarrow> unit install_act" where
  "ensure_ss_rust en dry_run = seq (observe (\<lambda>m. ie_look_path en (mc_disk m) ''sslocal'')) (\<lambda>found.
     if found \<noteq> None then ret () else install_ss_rust en \<lparr>io_dry_run = dry_run, io_yes = True, io_version = []\<rparr>)"

definition ensure_runtime :: "install_env \<Rightarrow> string \<Rightarrow> bool \<Rightarrow> unit install_act" where
  "ensure_runtime en binary dry_run = seq (ensure_system_packages en dry_run) (\<lambda>_.
     seq (ensure_smart_dns en binary dry_run) (\<lambda>_. ensure_ss_rust en dry_run))"


section \<open>What reaches the disk was checked\<close>

definition checked_archive :: "install_env \<Rightarrow> install_spec \<Rightarrow> string \<Rightarrow> bool" where
  "checked_archive en sp archive \<longleftrightarrow> (\<exists>sums text. ie_curl en (release_url sp (sp_asset sp)) = Some archive \<and>
     ie_curl en (release_url sp (sp_checksum sp)) = Some sums \<and>
     (text = sums \<or> normalize_bare sums (sp_asset sp) = Inr (Some text)) \<and>
     ie_sum_check en [(sp_checksum sp, text), (sp_asset sp, archive)] (sp_checksum sp))"

text \<open>The contents an archive can put under a name.\<close>

definition unpacked :: "install_env \<Rightarrow> install_spec \<Rightarrow> string \<Rightarrow> string \<Rightarrow> bool" where
  "unpacked en sp name c \<longleftrightarrow> (\<exists>archive files p. checked_archive en sp archive \<and>
     ie_untar en (sp_tar_args sp) archive = Some files \<and> (p, c) \<in> set files \<and> base_name p = name)"

lemma put_tmp_simps [simp]: "mc_disk (put_tmp p c m) = mc_disk m"
  "mc_tmp (put_tmp p c m) = (p, c) # filter (\<lambda>e. fst e \<noteq> p) (mc_tmp m)"
  by (simp_all add: put_tmp_def)

lemma wp_curl: "wp (curl en file url) Q E m \<longleftrightarrow> E (CommandFailed ''curl'') m \<and>
    (case ie_curl en url of None \<Rightarrow> E (CommandFailed ''curl'') m | Some c \<Rightarrow> Q () (put_tmp file c m))"
  by (simp add: curl_def wp_call split: option.split)

lemma wp_read_tmp [wp_simps]: "wp (read_tmp f) Q E m \<longleftrightarrow> E InstallIo m \<and>
    (case map_of (mc_tmp m) f of None \<Rightarrow> E InstallIo m | Some c \<Rightarrow> Q c m)"
  by (simp add: read_tmp_def wp_call split: option.split)

lemma fold_put_tmp:
  "mc_disk (fold (\<lambda>(p, c). put_tmp p c) files m) = mc_disk m"
  "set (mc_tmp (fold (\<lambda>(p, c). put_tmp p c) files m)) \<subseteq> set (mc_tmp m) \<union> set files"
proof (induction files arbitrary: m)
  case (Cons f files)
  { case 1 from Cons show ?case by (simp split: prod.split) }
  { case 2 from Cons(2) [of "put_tmp (fst f) (snd f) m"] show ?case by (auto split: prod.splits) }
qed simp_all

definition from_archive :: "install_env \<Rightarrow> install_spec \<Rightarrow> (string \<times> string) list \<Rightarrow> bool" where
  "from_archive en sp entries \<longleftrightarrow> (\<forall>(p, c) \<in> set entries.
     p = sp_asset sp \<or> p = sp_checksum sp \<or> unpacked en sp (base_name p) c)"

lemma wp_prepare_checksum:
  assumes "mc_tmp m = [(file, sums), (asset, archive)]" and "file \<noteq> asset"
  shows "wp (prepare_checksum_file file asset)
    (\<lambda>_ m'. mc_disk m' = mc_disk m \<and> (\<exists>text. mc_tmp m' = [(file, text), (asset, archive)] \<and>
       (text = sums \<or> normalize_bare sums asset = Inr (Some text))))
    (\<lambda>_ m'. mc_disk m' = mc_disk m) m"
  using assms unfolding prepare_checksum_file_def
  by (auto simp: wp_simps wp_call intro!: wp_seq split: sum.split option.split)

lemma wp_untar:
  assumes tmp: "mc_tmp m = [(sp_checksum sp, text), (sp_asset sp, archive)]" and "sp_asset sp \<noteq> sp_checksum sp"
    and checked: "checked_archive en sp archive"
  shows "wp (untar en (sp_tar_args sp) (sp_asset sp))
    (\<lambda>_ m'. mc_disk m' = mc_disk m \<and> from_archive en sp (mc_tmp m')) (\<lambda>_ m'. mc_disk m' = mc_disk m) m"
proof -
  have "from_archive en sp (mc_tmp (fold (\<lambda>(p, c). put_tmp p c) files m))"
    if "ie_untar en (sp_tar_args sp) archive = Some files" for files
    using fold_put_tmp(2) [of files m] that tmp checked unfolding from_archive_def unpacked_def by fastforce
  with assms show ?thesis
    unfolding untar_def by (auto simp: wp_simps wp_call fold_put_tmp intro!: wp_seq split: option.split)
qed

lemma wp_fetch_archive:
  assumes "mc_tmp m = []" and apart: "sp_asset sp \<noteq> sp_checksum sp"
  shows "wp (fetch_archive en sp) (\<lambda>_ m'. mc_disk m' = mc_disk m \<and> from_archive en sp (mc_tmp m'))
    (\<lambda>_ m'. mc_disk m' = mc_disk m) m"
proof -
  define m1 where "m1 archive = put_tmp (sp_asset sp) archive m" for archive
  define m2 where "m2 archive sums = put_tmp (sp_checksum sp) sums (m1 archive)" for archive sums
  have m2: "mc_tmp (m2 archive sums) = [(sp_checksum sp, sums), (sp_asset sp, archive)]"
    "mc_disk (m2 archive sums) = mc_disk m" for archive sums
    using assms by (auto simp: m2_def m1_def)
  have rest: "wp (seq (prepare_checksum_file (sp_checksum sp) (sp_asset sp)) (\<lambda>_.
      seq (sum_check en (sp_checksum sp)) (\<lambda>_. untar en (sp_tar_args sp) (sp_asset sp))))
      (\<lambda>_ m'. mc_disk m' = mc_disk m \<and> from_archive en sp (mc_tmp m')) (\<lambda>_ m'. mc_disk m' = mc_disk m) (m2 archive sums)"
    if got: "ie_curl en (release_url sp (sp_asset sp)) = Some archive" "ie_curl en (release_url sp (sp_checksum sp)) = Some sums"
    for archive sums
  proof (rule wp_seq, rule wp_mono [OF wp_prepare_checksum [OF m2(1) apart [symmetric]]], goal_cases)
    case (1 x m')
    then obtain st where tmp: "mc_tmp m' = [(sp_checksum sp, st), (sp_asset sp, archive)]" "mc_disk m' = mc_disk m"
      and st: "st = sums \<or> normalize_bare sums (sp_asset sp) = Inr (Some st)"
      by (auto simp: m2(2))
    have "checked_archive en sp archive" if "ie_sum_check en (mc_tmp m') (sp_checksum sp)"
      using that tmp(1) st got
      unfolding checked_archive_def by auto
    from wp_untar [OF tmp(1) apart this] tmp(2) show ?case
      unfolding sum_check_def by (auto simp: wp_call intro!: wp_seq)
  qed (simp add: m2(2))
  have "wp (seq (curl en (sp_checksum sp) (release_url sp (sp_checksum sp))) (\<lambda>_.
      seq (prepare_checksum_file (sp_checksum sp) (sp_asset sp)) (\<lambda>_.
      seq (sum_check en (sp_checksum sp)) (\<lambda>_. untar en (sp_tar_args sp) (sp_asset sp)))))
      (\<lambda>_ m'. mc_disk m' = mc_disk m \<and> from_archive en sp (mc_tmp m')) (\<lambda>_ m'. mc_disk m' = mc_disk m) (m1 archive)"
    if "ie_curl en (release_url sp (sp_asset sp)) = Some archive" for archive
    by (rule wp_seq) (use rest [OF that] in \<open>auto simp: wp_curl m2_def m1_def split: option.split\<close>)
  then show ?thesis
    unfolding fetch_archive_def by (intro wp_seq [of "curl _ _ _"]) (auto simp: wp_curl m1_def split: option.split)
qed

section \<open>The binaries\<close>

text \<open>Only destinations and temporary names change; a destination is old or holds a checked binary.\<close>

abbreviation dest_path :: "install_spec \<Rightarrow> string \<Rightarrow> string" where
  "dest_path sp name \<equiv> path_join [destination_dir sp, name]"

definition holds_binary :: "install_env \<Rightarrow> install_spec \<Rightarrow> disk \<Rightarrow> string \<Rightarrow> bool" where
  "holds_binary en sp d p \<longleftrightarrow> (\<exists>name \<in> set (sp_installed sp). p = dest_path sp name \<and> (\<exists>c. d p = Some c \<and> unpacked en sp name c))"

definition installed_ok :: "install_env \<Rightarrow> install_spec \<Rightarrow> disk \<Rightarrow> disk \<Rightarrow> bool" where
  "installed_ok en sp d d' \<longleftrightarrow> (\<forall>p. d' p = d p \<or> holds_binary en sp d' p \<or>
     (\<exists>name \<in> set (sp_installed sp). p = ie_temp_name en (dest_path sp name)))"

text \<open>\<^verbatim>\<open>os.CreateTemp\<close> makes a new file; the names of the archive and its checksum are no binary's.\<close>

definition temps_apart :: "install_env \<Rightarrow> install_spec \<Rightarrow> bool" where
  "temps_apart en sp \<longleftrightarrow> (\<forall>name \<in> set (sp_installed sp). \<forall>name' \<in> set (sp_installed sp).
     ie_temp_name en (dest_path sp name) \<noteq> dest_path sp name')"

definition assets_apart :: "install_spec \<Rightarrow> bool" where
  "assets_apart sp \<longleftrightarrow> sp_asset sp \<noteq> sp_checksum sp \<and>
     (\<forall>name \<in> set (sp_installed sp). base_name (sp_asset sp) \<noteq> name \<and> base_name (sp_checksum sp) \<noteq> name)"

lemma find_file_name:
  assumes "find_file entries name = Some p"
  shows "base_name p = name"
  using find_SomeD [OF assms [unfolded find_file_def]] by simp

lemma wp_install_file_atomic:
  assumes "ie_temp_name en dest \<noteq> dest"
  shows "wp (install_file_atomic en src dest)
    (\<lambda>_ m'. mc_tmp m' = mc_tmp m \<and> (\<exists>c. map_of (mc_tmp m) src = Some c \<and> mc_disk m' dest = Some c) \<and>
       (\<forall>p. p \<noteq> dest \<and> p \<noteq> ie_temp_name en dest \<longrightarrow> mc_disk m' p = mc_disk m p))
    (\<lambda>_ m'. mc_tmp m' = mc_tmp m \<and> (\<forall>p. p \<noteq> ie_temp_name en dest \<longrightarrow> mc_disk m' p = mc_disk m p)) m"
  using assms unfolding install_file_atomic_def Let_def put_disk_def install_step_def rename_disk_def remove_disk_def
  by (auto simp: wp_simps wp_call intro!: wp_intros split: option.split)

lemma found_unpacked:
  assumes "assets_apart sp" and "name \<in> set (sp_installed sp)" and "from_archive en sp entries"
    and "find_file entries name = Some src" and "map_of entries src = Some c"
  shows "unpacked en sp name c"
proof -
  have "base_name src = name" by (rule find_file_name [OF assms(4)])
  moreover have "(src, c) \<in> set entries" using assms(5) by (rule map_of_SomeD)
  ultimately show ?thesis using assms(1-3) by (auto simp: assets_apart_def from_archive_def)
qed

lemma wp_install_one:
  assumes apart: "temps_apart en sp" "assets_apart sp" and name: "name \<in> set (sp_installed sp)"
    and arch: "from_archive en sp (mc_tmp m)" and src: "find_file (mc_tmp m) name = Some src"
    and ok: "installed_ok en sp d (mc_disk m)"
  shows "wp (install_file_atomic en src (dest_path sp name))
    (\<lambda>_ m'. mc_tmp m' = mc_tmp m \<and> installed_ok en sp d (mc_disk m') \<and> holds_binary en sp (mc_disk m') (dest_path sp name) \<and>
       (\<forall>p. holds_binary en sp (mc_disk m) p \<longrightarrow> holds_binary en sp (mc_disk m') p))
    (\<lambda>_ m'. installed_ok en sp d (mc_disk m')) m"
proof -
  let ?dest = "dest_path sp name" and ?temp = "ie_temp_name en (dest_path sp name)"
  have temp: "?temp \<noteq> dest_path sp name'" if "name' \<in> set (sp_installed sp)" for name'
    using apart(1) name that by (simp add: temps_apart_def)
  have holds: "holds_binary en sp d' p = holds_binary en sp (mc_disk m) p" if "d' p = mc_disk m p" for d' p
    using that by (simp add: holds_binary_def)
  have not_temp: "p \<noteq> ?temp" if "holds_binary en sp d' p" for d' p
    using that temp unfolding holds_binary_def by metis
  have err: "installed_ok en sp d d'" if "\<forall>p. p \<noteq> ?temp \<longrightarrow> d' p = mc_disk m p" for d'
    unfolding installed_ok_def
  proof
    fix p
    show "d' p = d p \<or> holds_binary en sp d' p \<or> (\<exists>name \<in> set (sp_installed sp). p = ie_temp_name en (dest_path sp name))"
      using ok that holds [of d' p] name by (cases "p = ?temp") (auto simp: installed_ok_def)
  qed
  have fine: "installed_ok en sp d d' \<and> holds_binary en sp d' ?dest \<and> (\<forall>p. holds_binary en sp (mc_disk m) p \<longrightarrow> holds_binary en sp d' p)"
    if c: "map_of (mc_tmp m) src = Some c" "d' ?dest = Some c" and rest: "\<forall>p. p \<noteq> ?dest \<and> p \<noteq> ?temp \<longrightarrow> d' p = mc_disk m p" for d' c
  proof -
    have dest: "holds_binary en sp d' ?dest"
      using found_unpacked [OF apart(2) name arch src c(1)] c(2) name by (auto simp: holds_binary_def)
    moreover have "holds_binary en sp d' p" if "holds_binary en sp (mc_disk m) p" for p
      using that dest not_temp [OF that] rest holds [of d' p] by (cases "p = ?dest") auto
    moreover have "d' p = d p \<or> holds_binary en sp d' p \<or> (\<exists>name \<in> set (sp_installed sp). p = ie_temp_name en (dest_path sp name))" for p
      using ok dest rest holds [of d' p] name by (cases "p = ?dest"; cases "p = ?temp") (auto simp: installed_ok_def)
    ultimately show ?thesis by (simp add: installed_ok_def)
  qed
  show ?thesis
    by (rule wp_mono [OF wp_install_file_atomic [OF temp [OF name]]]) (use fine err in auto)
qed


lemma wp_install_files:
  assumes apart: "temps_apart en sp" "assets_apart sp"
    and "set names \<subseteq> set (sp_installed sp)" and "from_archive en sp (mc_tmp m)" and "installed_ok en sp d (mc_disk m)"
  shows "wp (install_files en (destination_dir sp) names)
    (\<lambda>_ m'. installed_ok en sp d (mc_disk m') \<and>
       (\<forall>p. holds_binary en sp (mc_disk m) p \<or> p \<in> dest_path sp ` set names \<longrightarrow> holds_binary en sp (mc_disk m') p))
    (\<lambda>_ m'. installed_ok en sp d (mc_disk m')) m"
  using assms(3-)
proof (induction names arbitrary: m)
  case (Cons name names)
  note one = wp_install_one [OF apart _ Cons.prems(2) _ Cons.prems(3), of name]
  show ?case
  proof (cases "find_file (mc_tmp m) name")
    case None
    with Cons.prems show ?thesis by (auto simp: wp_simps intro!: wp_seq)
  next
    case (Some src)
    have "wp (seq (install_file_atomic en src (dest_path sp name)) (\<lambda>_. install_files en (destination_dir sp) names))
        (\<lambda>_ m'. installed_ok en sp d (mc_disk m') \<and>
           (\<forall>p. holds_binary en sp (mc_disk m) p \<or> p \<in> dest_path sp ` set (name # names) \<longrightarrow> holds_binary en sp (mc_disk m') p))
        (\<lambda>_ m'. installed_ok en sp d (mc_disk m')) m"
    proof (rule wp_seq, rule wp_mono [OF one [OF _ Some]], goal_cases)
      case (2 x m')
      have "wp (install_files en (destination_dir sp) names)
        (\<lambda>_ m''. installed_ok en sp d (mc_disk m'') \<and>
           (\<forall>p. holds_binary en sp (mc_disk m') p \<or> p \<in> dest_path sp ` set names \<longrightarrow> holds_binary en sp (mc_disk m'') p))
        (\<lambda>_ m'. installed_ok en sp d (mc_disk m')) m'"
        by (rule Cons.IH) (use 2 Cons.prems in auto)
      then show ?case by (rule wp_mono) (use 2 in auto)
    qed (use Cons.prems in auto)
    with Some show ?thesis by (auto simp: wp_simps intro!: wp_seq [of "observe _"])
  qed
qed (simp add: wp_simps)

lemma installed_ok_refl [simp]: "installed_ok en sp d d"
  by (simp add: installed_ok_def)

lemma wp_install_archive:
  assumes apart: "temps_apart en sp" "assets_apart sp"
  shows "wp (install_archive en sp opts)
    (\<lambda>_ m'. installed_ok en sp (mc_disk m) (mc_disk m') \<and> (io_dry_run opts \<longrightarrow> m' = m) \<and>
       (ie_look_path en (mc_disk m) (sp_binary sp) = None \<or> sp_replace sp \<longrightarrow> \<not> io_dry_run opts \<longrightarrow>
          (\<forall>name \<in> set (sp_installed sp). holds_binary en sp (mc_disk m') (dest_path sp name))))
    (\<lambda>_ m'. installed_ok en sp (mc_disk m) (mc_disk m') \<and> (io_dry_run opts \<longrightarrow> m' = m)) m"
proof -
  let ?done = "\<lambda>m'. installed_ok en sp (mc_disk m) (mc_disk m') \<and> (\<forall>name \<in> set (sp_installed sp). holds_binary en sp (mc_disk m') (dest_path sp name))"
  let ?err = "\<lambda>m'. installed_ok en sp (mc_disk m) (mc_disk m')"
  have "wp (seq (fetch_archive en sp) (\<lambda>_. install_files en (destination_dir sp) (sp_installed sp))) (\<lambda>_. ?done) (\<lambda>_. ?err) (m\<lparr>mc_tmp := []\<rparr>)"
  proof (rule wp_seq, rule wp_mono [OF wp_fetch_archive], goal_cases)
    case (3 x m')
    show ?case
      by (rule wp_mono [OF wp_install_files [OF apart subset_refl, of m' "mc_disk m"]]) (use 3 in auto)
  qed (use apart(2) in \<open>auto simp: assets_apart_def\<close>)
  then have body: "wp (deferred remove_tmp_dir (seq (fetch_archive en sp) (\<lambda>_. install_files en (destination_dir sp) (sp_installed sp))))
      (\<lambda>_. ?done) (\<lambda>_. ?err) (m\<lparr>mc_tmp := []\<rparr>)"
    by (intro wp_deferred, elim wp_mono) (auto simp: remove_tmp_dir_def wp_call)
  show ?thesis
    unfolding install_archive_def make_tmp_def
    by (auto simp: wp_simps wp_call intro!: wp_seq wp_mono [OF body])
qed


text \<open>
  Claim C30. Whatever fails while an archive is installed, a file outside the temporary directory is as it
  was, or it is one of the destinations and holds, whole, a file of that name from an archive that was
  downloaded from the release and passed \<^verbatim>\<open>sha256sum -c\<close> against the release's checksum file, or it is a
  left-over of an atomic replacement. A dry run changes nothing; a run that reports success and had
  something to install has replaced every destination.
\<close>

theorem install_archive_checked:
  assumes "temps_apart en sp" and "assets_apart sp" and "install_archive en sp opts (m, fs) = (r, m', fs')"
  shows "installed_ok en sp (mc_disk m) (mc_disk m') \<and> (io_dry_run opts \<longrightarrow> m' = m) \<and>
    (r = Inr () \<and> \<not> io_dry_run opts \<and> (ie_look_path en (mc_disk m) (sp_binary sp) = None \<or> sp_replace sp) \<longrightarrow>
       (\<forall>name \<in> set (sp_installed sp). holds_binary en sp (mc_disk m') (dest_path sp name)))"
  using wp_run [OF wp_install_archive [OF assms(1,2)] assms(3)] by (cases r) auto

text \<open>The two specifications keep the names apart, whatever the version is.\<close>

lemma split_char_last: "d \<notin> set t \<Longrightarrow> \<exists>q. last (split_char d (p @ t)) = q @ t"
proof (induction p)
  case Nil
  then show ?case by (auto simp: split_char_no_sep)
next
  case (Cons c p)
  then obtain q where q: "last (split_char d (p @ t)) = q @ t" by blast
  obtain w ws where w: "split_char d (p @ t) = w # ws" by (metis neq_Nil_conv split_char_not_Nil)
  show ?case using q w by (cases "ws = []") auto
qed

lemma base_name_suffix:
  assumes "CHR ''/'' \<notin> set t" and "\<And>q. name \<noteq> q @ t"
  shows "base_name (p @ t) \<noteq> name"
  using split_char_last [OF assms(1), of p] assms(2) unfolding base_name_def by metis

lemma not_suffix: "length name < length t \<Longrightarrow> name \<noteq> q @ t"
  by auto

lemma smart_dns_assets: "smart_dns_asset en version = Inr asset \<Longrightarrow> assets_apart (smart_dns_spec version asset rep dir)"
proof -
  assume "smart_dns_asset en version = Inr asset"
  then obtain q where asset: "asset = q @ ''.tar.gz''"
    by (auto simp: smart_dns_asset_def map_sum_eq_Inr)
  have "base_name (q @ ''.tar.gz'') \<noteq> ''smartdns''" by (rule base_name_suffix) auto
  moreover have "base_name ((q @ ''.tar.gz'') @ ''-sha256sum.txt'') \<noteq> ''smartdns''"
    by (rule base_name_suffix) (simp, rule not_suffix, simp)
  ultimately show ?thesis by (simp add: assets_apart_def smart_dns_spec_def asset)
qed

lemma ss_rust_assets: "ss_rust_asset en version = Inr asset \<Longrightarrow> assets_apart (ss_rust_spec version asset)"
proof -
  assume "ss_rust_asset en version = Inr asset"
  then obtain q where asset: "asset = q @ ''-unknown-linux-gnu.tar.xz''"
    by (auto simp: ss_rust_asset_def map_sum_eq_Inr)
  have "base_name (q @ ''-unknown-linux-gnu.tar.xz'') \<noteq> name" if "length name < 10" for name
    by (rule base_name_suffix) (simp, rule not_suffix, use that in simp)
  moreover have "base_name ((q @ ''-unknown-linux-gnu'') @ ''.tar.xz.sha256'') \<noteq> name" if "length name < 10" for name
    by (rule base_name_suffix) (simp, rule not_suffix, use that in simp)
  ultimately show ?thesis by (simp add: assets_apart_def ss_rust_spec_def asset)
qed

section \<open>A sample installation\<close>

text \<open>The archive is its own list of files; the checksum file holds a bare digest of 64 characters.\<close>

definition sample_digest :: string where
  "sample_digest = replicate 64 CHR ''a''"

definition sample_install_env :: "string list \<Rightarrow> install_env" where
  "sample_install_env names = \<lparr>ie_look_path = (\<lambda>d n. let p = ''/usr/local/bin/'' @ n in if d p = None then None else Some p),
     ie_root = True, ie_arch = ''amd64'',
     ie_curl = (\<lambda>url. Some (if has_suffix url ''.xz'' then ''archive'' else sample_digest)),
     ie_sum_check = (\<lambda>files f. case map_of files f of None \<Rightarrow> False | Some sums \<Rightarrow>
        sums = sample_digest @ ''  '' @ ''shadowsocks-v1.24.0.x86_64-unknown-linux-gnu.tar.xz'' @ [line_feed]),
     ie_untar = (\<lambda>args a. Some (map (\<lambda>n. (n, ''new '' @ n)) names)),
     ie_apt = (\<lambda>_ d. Some d), ie_version_output = (\<lambda>_ _. None), ie_version_match = (\<lambda>_. []),
     ie_temp_name = (\<lambda>p. p @ ''-5gws'')\<rparr>"

abbreviation sample_spec :: install_spec where
  "sample_spec \<equiv> ss_rust_spec default_ss_rust_version ''shadowsocks-v1.24.0.x86_64-unknown-linux-gnu.tar.xz''"

abbreviation for_real :: install_options where
  "for_real \<equiv> \<lparr>io_dry_run = False, io_yes = True, io_version = []\<rparr>"

abbreviation empty_machine :: machine where
  "empty_machine \<equiv> \<lparr>mc_disk = Map.empty, mc_tmp = []\<rparr>"

theorem install_archive_checked_witness:
  "\<exists>m'. install_archive (sample_install_env (sp_installed sample_spec)) sample_spec for_real (empty_machine, []) = (Inr (), m', []) \<and>
     holds_binary (sample_install_env (sp_installed sample_spec)) sample_spec (mc_disk m') ''/usr/local/bin/sslocal''"
proof -
  let ?en = "sample_install_env (sp_installed sample_spec)"
  have "fst (install_archive ?en sample_spec for_real (empty_machine, [])) = Inr ()"
    "snd (snd (install_archive ?en sample_spec for_real (empty_machine, []))) = []" by code_simp+
  then obtain m' where run: "install_archive ?en sample_spec for_real (empty_machine, []) = (Inr (), m', [])"
    by (metis prod.collapse)
  have "temps_apart ?en sample_spec" "assets_apart sample_spec" "dest_path sample_spec ''sslocal'' = ''/usr/local/bin/sslocal''"
    by code_simp+
  moreover have "ie_look_path ?en (mc_disk empty_machine) (sp_binary sample_spec) = None" "''sslocal'' \<in> set (sp_installed sample_spec)"
    by code_simp+
  ultimately show ?thesis
    using install_archive_checked [OF _ _ run] run by auto
qed

text \<open>
  The replacement of several binaries is not one step: when it stops after \<^verbatim>\<open>sslocal\<close>, the next run finds
  \<^verbatim>\<open>sslocal\<close> in the search path and reports success without installing the rest.
\<close>

lemma interrupted_install_looks_complete:
  "let en = sample_install_env [''sslocal'']; w = install_ss_rust en for_real (empty_machine, []) in
     fst w = Inl (ArchiveLacks ''ssserver'') \<and> fst (install_ss_rust en for_real (snd w)) = Inr () \<and>
     mc_disk (fst (snd (install_ss_rust en for_real (snd w)))) ''/usr/local/bin/ssserver'' = None"
  by code_simp

lemma preserves_dry_run:
  "preserves (\<lambda>m. m = m0) (install_archive en sp \<lparr>io_dry_run = True, io_yes = y, io_version = v\<rparr>)"
  unfolding install_archive_def by (auto intro!: preserves_rules)

lemma ensure_runtime_dry_run: "fst (snd (ensure_runtime en binary True (m, fs))) = m"
proof -
  have "preserves (\<lambda>m'. m' = m) (ensure_runtime en binary True)"
    unfolding ensure_runtime_def ensure_system_packages_def ensure_smart_dns_def ensure_ss_rust_def
      install_smart_dns_def install_ss_rust_def installed_smart_dns_version_def Let_def
    by (auto intro!: preserves_rules preserves_dry_run)
  from preserves_run [OF this, of "(m, fs)"] show ?thesis by simp
qed

text \<open>
  A configuration that names its own \<^verbatim>\<open>smartdns\<close>, which is missing, is satisfied by one in the search path.
\<close>

lemma configured_smart_dns_stays_missing:
  assumes "ie_look_path en (mc_disk m) binary = None" and "ie_look_path en (mc_disk m) ''smartdns'' = Some path"
    and "ie_version_output en (mc_disk m) path = Some out" and "ie_version_match en out = [full, ''0.13.1'']"
  shows "ensure_smart_dns en binary False (m, []) = (Inr (), m, [])"
  using assms
  by (simp add: ensure_smart_dns_def install_smart_dns_def installed_smart_dns_version_def version_or_def
      default_smart_dns_version_def seq_def observe_def call_cases ret_def Let_def)

end
