(* ===== verification/Certificates.thy ===== *)
theory Certificates
  imports Installer Config_Validate
begin

text \<open>
  \<^verbatim>\<open>internal/app/certificate_deploy.go\<close>, with the group and the modes of \<^verbatim>\<open>internal/app/install.go\<close>: a renewed
  certificate replaces the one that SmartDNS reads. The computer is the installer's machine, the owner, group
  and mode of each path, the databases and the commands that were run. System commands, groups and what
  \<^verbatim>\<open>tls\<close> and \<^verbatim>\<open>x509\<close> read from a certificate are parameters.
\<close>

record 'db computer =
  cp_machine :: machine
  cp_access :: "string \<Rightarrow> ((int \<times> int) \<times> nat) option"
  cp_dbs :: "string \<Rightarrow> 'db option"
  cp_log :: "string list list"

text \<open>What \<^verbatim>\<open>x509\<close> reads from the first certificate of the file.\<close>

record leaf =
  lf_verifies :: "string \<Rightarrow> bool"
  lf_not_before :: int
  lf_not_after :: int

record app_env =
  ae_install :: install_env
  ae_command :: "string list \<Rightarrow> disk \<Rightarrow> disk option"
  ae_look_path :: "disk \<Rightarrow> string \<Rightarrow> string option"
  ae_group :: "string \<Rightarrow> string option"
  ae_key_pair :: "string \<Rightarrow> string \<Rightarrow> bool"
  ae_leaf :: "string \<Rightarrow> leaf option"
  ae_now :: int

datatype 'e app_error = AppIo | AppCommand "string list" | BadPair | BadLeaf | WrongHost | OutsideValidity | NoGroup | BadGroup | NotRoot | NoLineage
  | AppInner 'e

type_synonym ('db, 'e, 'a) app_act = "('db computer, 'e app_error, 'a) act"

section \<open>Files with an owner and a mode\<close>

text \<open>An octal mode.\<close>

definition oct :: "nat list \<Rightarrow> nat" where
  "oct ds = foldl (\<lambda>a d. 8 * a + d) 0 ds"

definition on_disk :: "(disk \<Rightarrow> disk) \<Rightarrow> 'db computer \<Rightarrow> 'db computer" where
  "on_disk f c = c\<lparr>cp_machine := (cp_machine c)\<lparr>mc_disk := f (mc_disk (cp_machine c))\<rparr>\<rparr>"

definition on_access :: "((string \<Rightarrow> ((int \<times> int) \<times> nat) option) \<Rightarrow> string \<Rightarrow> ((int \<times> int) \<times> nat) option) \<Rightarrow> 'db computer \<Rightarrow> 'db computer" where
  "on_access f c = c\<lparr>cp_access := f (cp_access c)\<rparr>"

abbreviation disk_of :: "'db computer \<Rightarrow> disk" where
  "disk_of c \<equiv> mc_disk (cp_machine c)"

definition io_step :: "('db computer \<Rightarrow> 'db computer) \<Rightarrow> ('db, 'e, unit) app_act" where
  "io_step f = call AppIo (\<lambda>c. (Inr (), f c))"

definition read_path :: "string \<Rightarrow> ('db, 'e, string) app_act" where
  "read_path p = call AppIo (\<lambda>c. (case disk_of c p of None \<Rightarrow> Inl AppIo | Some s \<Rightarrow> Inr s, c))"

text \<open>A new file or directory belongs to root; an existing one keeps its owner, group and mode.\<close>

definition created :: "string \<Rightarrow> nat \<Rightarrow> 'db computer \<Rightarrow> 'db computer" where
  "created p mode = on_access (\<lambda>a. if a p = None then a(p \<mapsto> ((0, 0), mode)) else a)"

definition mkdir_all :: "string \<Rightarrow> nat \<Rightarrow> ('db, 'e, unit) app_act" where
  "mkdir_all p mode = io_step (created p mode)"

definition change_access :: "string \<Rightarrow> ((int \<times> int) \<times> nat \<Rightarrow> (int \<times> int) \<times> nat) \<Rightarrow> ('db, 'e, unit) app_act" where
  "change_access p f = call AppIo (\<lambda>c. case cp_access c p of None \<Rightarrow> (Inl AppIo, c)
     | Some x \<Rightarrow> (Inr (), on_access (\<lambda>a. a(p \<mapsto> f x)) c))"

definition chmod :: "string \<Rightarrow> nat \<Rightarrow> ('db, 'e, unit) app_act" where
  "chmod p mode = change_access p (\<lambda>(g, _). (g, mode))"

definition chown :: "string \<Rightarrow> int \<times> int \<Rightarrow> ('db, 'e, unit) app_act" where
  "chown p owner = change_access p (\<lambda>(_, m). (owner, m))"

text \<open>\<^verbatim>\<open>os.WriteFile\<close> opens, which creates or truncates, and writes.\<close>

definition write_path :: "string \<Rightarrow> string \<Rightarrow> nat \<Rightarrow> ('db, 'e, unit) app_act" where
  "write_path p s mode = seq (io_step (\<lambda>c. created p mode (on_disk (\<lambda>d. d(p \<mapsto> [])) c))) (\<lambda>_.
     io_step (on_disk (\<lambda>d. d(p \<mapsto> s))))"

definition remove_path :: "string \<Rightarrow> ('db, 'e, unit) app_act" where
  "remove_path p = io_step (\<lambda>c. on_access (\<lambda>a. a(p := None)) (on_disk (\<lambda>d. d(p := None)) c))"

definition rename_path :: "string \<Rightarrow> string \<Rightarrow> ('db, 'e, unit) app_act" where
  "rename_path p q = call AppIo (\<lambda>c. case disk_of c p of None \<Rightarrow> (Inl AppIo, c)
     | Some s \<Rightarrow> (Inr (), on_access (\<lambda>a. a(q := a p, p := None)) (on_disk (\<lambda>d. d(q \<mapsto> s, p := None)) c)))"

definition command :: "app_env \<Rightarrow> string list \<Rightarrow> ('db, 'e, unit) app_act" where
  "command en args = call (AppCommand args) (\<lambda>c. case ae_command en args (disk_of c) of
     None \<Rightarrow> (Inl (AppCommand args), c)
   | Some d \<Rightarrow> (Inr (), (on_disk (\<lambda>_. d) c)\<lparr>cp_log := cp_log c @ [args]\<rparr>))"

section \<open>Deploying a certificate\<close>

fun first_group :: "app_env \<Rightarrow> string list \<Rightarrow> 'e app_error + int" where
  "first_group en [] = Inl NoGroup"
| "first_group en (name # names) = (case ae_group en name of None \<Rightarrow> first_group en names
     | Some gid \<Rightarrow> (case atoi gid of None \<Rightarrow> Inl BadGroup | Some g \<Rightarrow> Inr g))"

definition smart_dns_group :: "app_env \<Rightarrow> ('db, 'e, int) app_act" where
  "smart_dns_group en = compute (\<lambda>c. (first_group en [''nogroup'', ''nobody''], c))"

fun each :: "('a \<Rightarrow> ('s, 'e, unit) act) \<Rightarrow> 'a list \<Rightarrow> ('s, 'e, unit) act" where
  "each f [] = ret ()"
| "each f (x # xs) = seq (f x) (\<lambda>_. each f xs)"

definition allow_smart_dns_certificate_read :: "app_env \<Rightarrow> config \<Rightarrow> ('db, 'e, unit) app_act" where
  "allow_smart_dns_certificate_read en cfg = seq (smart_dns_group en) (\<lambda>gid.
     seq (each (\<lambda>dir. seq (chown dir (0, gid)) (\<lambda>_. chmod dir (oct [7, 5, 0]))) [sy_config_dir (cf_system cfg), dir_name (dn_cert_file (cf_dns cfg))]) (\<lambda>_.
     each (\<lambda>file. seq (chown file (0, gid)) (\<lambda>_. chmod file (oct [6, 4, 0]))) [dn_cert_file (cf_dns cfg), dn_key_file (cf_dns cfg)]))"

text \<open>\<^verbatim>\<open>writeCertificateFile\<close>: the temporary file gets its group and mode before its content.\<close>

definition write_certificate_file :: "app_env \<Rightarrow> string \<Rightarrow> string \<Rightarrow> int \<Rightarrow> ('db, 'e, unit) app_act" where
  "write_certificate_file en path data gid = (let temp = ie_temp_name (ae_install en) path in
     seq (mkdir_all (dir_name path) (oct [7, 5, 0])) (\<lambda>_.
     seq (io_step (\<lambda>c. on_access (\<lambda>a. a(temp \<mapsto> ((0, 0), (oct [6, 0, 0])))) (on_disk (\<lambda>d. d(temp \<mapsto> [])) c))) (\<lambda>_.
     deferred (remove_path temp) (
       seq (chmod temp (oct [6, 4, 0])) (\<lambda>_.
       seq (chown temp (0, gid)) (\<lambda>_.
       seq (io_step (on_disk (\<lambda>d. d(temp \<mapsto> data)))) (\<lambda>_.
       seq (io_step id) (\<lambda>_.
       seq (io_step id) (\<lambda>_.
       rename_path temp path)))))))))"

definition validate_certificate_pair :: "app_env \<Rightarrow> string \<Rightarrow> string \<Rightarrow> string \<Rightarrow> 'e app_error option" where
  "validate_certificate_pair en cert key domain =
     (if \<not> ae_key_pair en cert key then Some BadPair
      else case ae_leaf en cert of None \<Rightarrow> Some BadLeaf | Some lf \<Rightarrow>
        if \<not> lf_verifies lf domain then Some WrongHost
        else if ae_now en < lf_not_before lf \<or> \<not> ae_now en < lf_not_after lf then Some OutsideValidity
        else None)"

text \<open>The pair fits, the certificate is for the domain, and it is valid now.\<close>

definition pair_valid :: "app_env \<Rightarrow> string \<Rightarrow> string \<Rightarrow> string \<Rightarrow> bool" where
  "pair_valid en cert key domain \<longleftrightarrow> ae_key_pair en cert key \<and>
     (\<exists>lf. ae_leaf en cert = Some lf \<and> lf_verifies lf domain \<and> lf_not_before lf \<le> ae_now en \<and> ae_now en < lf_not_after lf)"

lemma validate_certificate_pair_None: "validate_certificate_pair en cert key domain = None \<longleftrightarrow> pair_valid en cert key domain"
  by (auto simp: validate_certificate_pair_def pair_valid_def split: option.split)

lemma validate_certificate_pair_Some: "validate_certificate_pair en cert key domain = Some e \<Longrightarrow> \<not> pair_valid en cert key domain"
  by (auto simp: validate_certificate_pair_def pair_valid_def split: option.splits if_splits)

definition deploy_certificate_files :: "app_env \<Rightarrow> config \<Rightarrow> string \<Rightarrow> ('db, 'e, unit) app_act" where
  "deploy_certificate_files en cfg lineage =
     seq (read_path (path_join [lineage, ''fullchain.pem''])) (\<lambda>cert.
     seq (read_path (path_join [lineage, ''privkey.pem''])) (\<lambda>key.
     case validate_certificate_pair en cert key (dn_dot_domain (cf_dns cfg)) of Some e \<Rightarrow> fail e
     | None \<Rightarrow> seq (smart_dns_group en) (\<lambda>gid.
       seq (each (\<lambda>(path, data). write_certificate_file en path data gid)
           [(dn_cert_file (cf_dns cfg), cert), (dn_key_file (cf_dns cfg), key)]) (\<lambda>_.
       allow_smart_dns_certificate_read en cfg))))"

definition reload_certificate_services :: "app_env \<Rightarrow> ('db, 'e, unit) app_act" where
  "reload_certificate_services en = seq (observe (\<lambda>c. ae_look_path en (disk_of c) ''nginx'')) (\<lambda>nginx.
     seq (if nginx = None then ret () else seq (command en [''nginx'', ''-t'']) (\<lambda>_.
       command en [''systemctl'', ''reload'', ''nginx.service''])) (\<lambda>_.
     command en [''systemctl'', ''restart'', ''5gws.service'']))"

section \<open>The deploy hook of Certbot\<close>

definition certificate_hook_path :: "string \<Rightarrow> string" where
  "certificate_hook_path domain = path_join [''/etc/letsencrypt/renewal-hooks/deploy'', ''5gws-'' @ domain]"

definition sh_quote :: "string \<Rightarrow> string" where
  "sh_quote s = [CHR 0x27] @ concat (map (\<lambda>c. if c = CHR 0x27 then [CHR 0x27, CHR 0x5C, CHR 0x27, CHR 0x27] else [c]) s) @ [CHR 0x27]"

definition certificate_hook :: "config \<Rightarrow> string" where
  "certificate_hook cfg = ''#!/bin/sh'' @ [CHR 0x0A] @ ''set -eu'' @ [CHR 0x0A] @
     ''exec /usr/local/bin/5gws deploy-certificate --database '' @
     sh_quote (path_join [sy_state_dir (cf_system cfg), ''5gws.db'']) @ [CHR 0x0A]"

definition ensure_certificate_deploy_hook :: "config \<Rightarrow> ('db, 'e, unit) app_act" where
  "ensure_certificate_deploy_hook cfg = (let path = certificate_hook_path (dn_dot_domain (cf_dns cfg)) in
     seq (mkdir_all (dir_name path) (oct [7, 5, 5])) (\<lambda>_.
     seq (write_path path (certificate_hook cfg) (oct [7, 0, 0])) (\<lambda>_. chmod path (oct [7, 0, 0]))))"

section \<open>What a deployment changes\<close>

definition guarded :: "'db computer \<Rightarrow> string \<Rightarrow> bool" where
  "guarded c p \<longleftrightarrow> (\<exists>g m. cp_access c p = Some (g, m) \<and> 8 dvd m)"

lemma on_simps [simp]:
  "disk_of (on_disk f c) = f (disk_of c)" "cp_access (on_disk f c) = cp_access c" "cp_dbs (on_disk f c) = cp_dbs c"
  "disk_of (on_access g c) = disk_of c" "cp_access (on_access g c) = g (cp_access c)" "cp_dbs (on_access g c) = cp_dbs c"
  "cp_log (on_disk f c) = cp_log c" "cp_log (on_access g c) = cp_log c"
  by (simp_all add: on_disk_def on_access_def)

lemma wp_io_step [wp_simps]: "wp (io_step f) Q E c \<longleftrightarrow> E AppIo c \<and> Q () (f c)"
  by (simp add: io_step_def wp_call)

lemma wp_change_access [wp_simps]: "wp (change_access p f) Q E c \<longleftrightarrow> E AppIo c \<and>
    (case cp_access c p of None \<Rightarrow> E AppIo c | Some x \<Rightarrow> Q () (on_access (\<lambda>a. a(p \<mapsto> f x)) c))"
  by (simp add: change_access_def wp_call split: option.split)

lemma wp_read_path [wp_simps]: "wp (read_path p) Q E c \<longleftrightarrow> E AppIo c \<and>
    (case disk_of c p of None \<Rightarrow> E AppIo c | Some s \<Rightarrow> Q s c)"
  by (simp add: read_path_def wp_call split: option.split)

lemma wp_rename_path [wp_simps]: "wp (rename_path p q) Q E c \<longleftrightarrow> E AppIo c \<and> (case disk_of c p of None \<Rightarrow> E AppIo c
    | Some s \<Rightarrow> Q () (on_access (\<lambda>a. a(q := a p, p := None)) (on_disk (\<lambda>d. d(q \<mapsto> s, p := None)) c)))"
  by (simp add: rename_path_def wp_call split: option.split)

text \<open>Steps that change only groups and modes, and never open a file to others.\<close>

definition more_guarded :: "'db computer \<Rightarrow> 'db computer \<Rightarrow> bool" where
  "more_guarded c c' \<longleftrightarrow> disk_of c' = disk_of c \<and> (\<forall>p. guarded c p \<longrightarrow> guarded c' p)"

lemma more_guarded_refl [simp]: "more_guarded c c"
  by (simp add: more_guarded_def)

lemma preserves_access:
  "preserves (more_guarded c0) (mkdir_all p m)" "preserves (more_guarded c0) (chown p g)"
  "8 dvd m \<Longrightarrow> preserves (more_guarded c0) (chmod p m)"
proof -
  have 1: "more_guarded c (created p m c)" for c :: "'a computer"
    by (auto simp: more_guarded_def guarded_def created_def)
  have 2: "more_guarded c (on_access (\<lambda>a. a(p \<mapsto> (g', m'))) c)"
    if "cp_access c p = Some (g0, b)" "8 dvd b \<Longrightarrow> 8 dvd m'" for c :: "'a computer" and g0 g' b m'
    using that by (auto simp: more_guarded_def guarded_def)
  have trans: "more_guarded c0 c" if "more_guarded c0 c1" "more_guarded c1 c" for c1 c :: "'a computer"
    using that by (simp add: more_guarded_def)
  show "preserves (more_guarded c0) (mkdir_all p m)" "preserves (more_guarded c0) (chown p g)"
    "8 dvd m \<Longrightarrow> preserves (more_guarded c0) (chmod p m)"
    unfolding preserves_def mkdir_all_def chown_def chmod_def
    by (auto simp: wp_simps split: option.split intro: trans [OF _ 1] trans [OF _ 2])
qed

lemma preserves_each: "(\<And>x. x \<in> set xs \<Longrightarrow> preserves I (f x)) \<Longrightarrow> preserves I (each f xs)"
  by (induction xs) (auto intro!: preserves_rules)

lemma oct_others [simp]: "8 dvd oct [a, b, 0]"
  by (simp add: oct_def)

lemma preserves_allow: "preserves (more_guarded c0) (allow_smart_dns_certificate_read en cfg)"
  unfolding allow_smart_dns_certificate_read_def smart_dns_group_def
  by (intro preserves_seq preserves_each preserves_access oct_others) (simp add: preserves_def wp_compute split: sum.split)

text \<open>From the disk \<open>d\<close>: what has changed is allowed to, and nobody else can read it.\<close>

definition renewing :: "(string \<Rightarrow> string option set) \<Rightarrow> disk \<Rightarrow> 'db computer \<Rightarrow> bool" where
  "renewing ok d c \<longleftrightarrow> (\<forall>p. disk_of c p = d p \<or> (disk_of c p \<in> ok p \<and> (disk_of c p = None \<or> guarded c p)))"

lemma renewing_mono: "renewing ok d c \<Longrightarrow> more_guarded c c' \<Longrightarrow> renewing ok d c'"
  unfolding renewing_def more_guarded_def by metis

lemma renewing_put:
  assumes "renewing ok d c" and "s \<in> ok p" and "s = None \<or> guarded c' p"
    and "\<And>q. disk_of c' q = (if q = p then s else disk_of c q)" and "\<And>q. q \<noteq> p \<Longrightarrow> cp_access c' q = cp_access c q"
  shows "renewing ok d c'"
  using assms unfolding renewing_def guarded_def by (auto split: if_splits)

lemma preserves_via:
  assumes "\<And>c0. preserves (more_guarded c0) m" and "\<And>c1 c2. K c1 \<Longrightarrow> more_guarded c1 c2 \<Longrightarrow> K c2"
  shows "preserves K m"
  unfolding preserves_def
proof (intro allI impI)
  fix c
  assume "K c"
  then show "wp m (\<lambda>_. K) (\<lambda>_. K) c"
    using assms(2) by (intro wp_mono [OF preservesD [OF assms(1) more_guarded_refl]]) auto
qed

lemma wp_seq_preserves:
  assumes "preserves K m" and "K c" and "\<And>c'. K c' \<Longrightarrow> E' c'" and "\<And>x c'. K c' \<Longrightarrow> wp (k x) Q (\<lambda>_. E') c'"
  shows "wp (seq m k) Q (\<lambda>_. E') c"
  by (rule wp_seq, rule wp_mono [OF preservesD [OF assms(1,2)]]) (use assms(3,4) in auto)

lemma wp_remove_path:
  assumes "renewing ok d c" and "ok p = UNIV"
  shows "wp (remove_path p) (\<lambda>_ c'. renewing ok d c' \<and> (\<forall>q. q \<noteq> p \<longrightarrow> disk_of c' q = disk_of c q))
    (\<lambda>_ c'. renewing ok d c' \<and> (\<forall>q. q \<noteq> p \<longrightarrow> disk_of c' q = disk_of c q)) c"
  using assms unfolding remove_path_def
  by (auto simp: wp_simps intro!: renewing_put [OF assms(1), of None p])

lemma wp_write_certificate_file:
  fixes en path
  defines "temp \<equiv> ie_temp_name (ae_install en) path"
  assumes inv: "renewing ok d c" and ok: "Some data \<in> ok path" "ok temp = UNIV" and apart: "temp \<noteq> path"
  shows "wp (write_certificate_file en path data gid)
    (\<lambda>_ c'. renewing ok d c' \<and> disk_of c' path = Some data \<and> (\<forall>p. p \<noteq> path \<and> p \<noteq> temp \<longrightarrow> disk_of c' p = disk_of c p))
    (\<lambda>_ c'. renewing ok d c') c"
proof -
  let ?K = "\<lambda>c'. renewing ok d c' \<and> guarded c' temp \<and> (\<forall>p. p \<noteq> temp \<longrightarrow> disk_of c' p = disk_of c p)"
  let ?L = "\<lambda>c'. ?K c' \<and> disk_of c' temp = Some data"
  let ?R = "\<lambda>c'. renewing ok d c' \<and> disk_of c' path = Some data \<and> (\<forall>p. p \<noteq> path \<and> p \<noteq> temp \<longrightarrow> disk_of c' p = disk_of c p)"
  have K: "?K c2" if "?K c1" "more_guarded c1 c2" for c1 c2
    using that renewing_mono by (auto simp: more_guarded_def)
  have put: "?L (on_disk (\<lambda>d. d(temp \<mapsto> data)) c1)" if "?K c1" for c1
    using that ok(2) renewing_put [of ok d c1 "Some data" temp "on_disk (\<lambda>d. d(temp \<mapsto> data)) c1"] by (auto simp: guarded_def)
  have rename: "wp (rename_path temp path) (\<lambda>_. ?R) (\<lambda>_. renewing ok d) c1" if "?L c1" for c1
  proof -
    have r: "renewing ok d c1" "guarded c1 temp" "disk_of c1 temp = Some data" using that by auto
    have "renewing ok d (on_access (\<lambda>a. a(path := a temp, temp := None)) (on_disk (\<lambda>d. d(path \<mapsto> data, temp := None)) c1))"
      using r ok apart unfolding renewing_def guarded_def by (auto split: if_splits)
    with that apart show ?thesis by (auto simp: wp_simps)
  qed
  have sync: "wp (seq (io_step id) (\<lambda>_. seq (io_step id) (\<lambda>_. rename_path temp path))) (\<lambda>_. ?R) (\<lambda>_. renewing ok d) c1" if "?L c1" for c1
    by (rule wp_seq, unfold wp_io_step id_apply, rule conjI, use that in simp, rule wp_seq, unfold wp_io_step id_apply,
      rule conjI, use that in simp, rule rename [OF that])
  have fill: "wp (seq (io_step (on_disk (\<lambda>d. d(temp \<mapsto> data)))) (\<lambda>_. seq (io_step id) (\<lambda>_. seq (io_step id) (\<lambda>_. rename_path temp path))))
      (\<lambda>_. ?R) (\<lambda>_. renewing ok d) c1" if "?K c1" for c1
    by (rule wp_seq, unfold wp_io_step, rule conjI, use that in simp, rule sync [OF put [OF that]])
  have steps: "preserves ?K (chmod temp (oct [6, 4, 0]))" "preserves ?K (chown temp (0, gid))"
    by (rule preserves_via [OF preserves_access(3) [OF oct_others] K], assumption+)
      (rule preserves_via [OF preserves_access(2) K], assumption+)
  have body: "wp (seq (chmod temp (oct [6, 4, 0])) (\<lambda>_. seq (chown temp (0, gid)) (\<lambda>_.
      seq (io_step (on_disk (\<lambda>d. d(temp \<mapsto> data)))) (\<lambda>_. seq (io_step id) (\<lambda>_. seq (io_step id) (\<lambda>_. rename_path temp path))))))
      (\<lambda>_. ?R) (\<lambda>_. renewing ok d) c1" if K1: "?K c1" for c1
  proof (rule wp_seq_preserves [OF steps(1) K1])
    fix c2
    assume "?K c2"
    then show "wp (seq (chown temp (0, gid)) (\<lambda>_. seq (io_step (on_disk (\<lambda>d. d(temp \<mapsto> data)))) (\<lambda>_.
        seq (io_step id) (\<lambda>_. seq (io_step id) (\<lambda>_. rename_path temp path))))) (\<lambda>_. ?R) (\<lambda>_. renewing ok d) c2"
      by (rule wp_seq_preserves [OF steps(2)]) (simp, rule fill)
  qed simp
  have clean: "wp (deferred (remove_path temp) m) (\<lambda>_. ?R) (\<lambda>_. renewing ok d) c1"
    if "wp m (\<lambda>_. ?R) (\<lambda>_. renewing ok d) c1" for c1 m
  proof (rule wp_deferred, rule wp_mono [OF that])
    fix x :: unit and c'
    assume R: "?R c'"
    show "wp (remove_path temp) (\<lambda>_. ?R) (\<lambda>_. ?R) c'"
      by (rule wp_mono [OF wp_remove_path [of ok d]]) (use R ok(2) apart in auto)
  next
    fix e and c'
    assume "renewing ok d c'"
    then show "wp (remove_path temp) (\<lambda>_. renewing ok d) (\<lambda>_. renewing ok d) c'"
      by (rule wp_mono [OF wp_remove_path [of ok d _ temp]]) (use ok(2) in auto)
  qed
  have new: "?K (on_access (\<lambda>a. a(temp \<mapsto> ((0, 0), oct [6, 0, 0]))) (on_disk (\<lambda>d. d(temp \<mapsto> [])) c1))"
    if "renewing ok d c1" "disk_of c1 = disk_of c" for c1
    using that ok(2) oct_others [of 6 0]
      renewing_put [of ok d c1 "Some []" temp "on_access (\<lambda>a. a(temp \<mapsto> ((0, 0), oct [6, 0, 0]))) (on_disk (\<lambda>d. d(temp \<mapsto> [])) c1)"]
    by (auto simp: guarded_def)
  have mkdir: "preserves (\<lambda>c1. renewing ok d c1 \<and> disk_of c1 = disk_of c) (mkdir_all p m)" for p m
    by (rule preserves_via [OF preserves_access(1)]) (auto dest: renewing_mono simp: more_guarded_def)
  show ?thesis
    unfolding write_certificate_file_def Let_def temp_def [symmetric]
  proof (rule wp_seq_preserves [OF mkdir])
    fix c1
    assume c1: "renewing ok d c1 \<and> disk_of c1 = disk_of c"
    then have "?K (on_access (\<lambda>a. a(temp \<mapsto> ((0, 0), oct [6, 0, 0]))) (on_disk (\<lambda>d. d(temp \<mapsto> [])) c1))"
      by (intro new) simp_all
    from clean [OF body [OF this]] c1
    show "wp (seq (io_step (\<lambda>c. on_access (\<lambda>a. a(temp \<mapsto> ((0, 0), oct [6, 0, 0]))) (on_disk (\<lambda>d. d(temp \<mapsto> [])) c)))
        (\<lambda>_. deferred (remove_path temp) (seq (chmod temp (oct [6, 4, 0])) (\<lambda>_. seq (chown temp (0, gid)) (\<lambda>_.
          seq (io_step (on_disk (\<lambda>d. d(temp \<mapsto> data)))) (\<lambda>_. seq (io_step id) (\<lambda>_. seq (io_step id) (\<lambda>_. rename_path temp path))))))))
        (\<lambda>_. ?R) (\<lambda>_. renewing ok d) c1"
      by (intro wp_seq [of "io_step _"]) (simp add: wp_io_step)
  qed (use inv in auto)
qed

text \<open>What the files of a deployment may hold.\<close>

definition cert_temps :: "app_env \<Rightarrow> config \<Rightarrow> string set" where
  "cert_temps en cfg = ie_temp_name (ae_install en) ` {dn_cert_file (cf_dns cfg), dn_key_file (cf_dns cfg)}"

definition renewed :: "app_env \<Rightarrow> config \<Rightarrow> string \<Rightarrow> string \<Rightarrow> string \<Rightarrow> string option set" where
  "renewed en cfg cert key p = (if p = dn_cert_file (cf_dns cfg) then {Some cert} else if p = dn_key_file (cf_dns cfg) then {Some key}
     else if p \<in> cert_temps en cfg then UNIV else {})"

text \<open>The names are apart; \<^verbatim>\<open>os.CreateTemp\<close> picks new ones.\<close>

definition cert_names_apart :: "app_env \<Rightarrow> config \<Rightarrow> bool" where
  "cert_names_apart en cfg \<longleftrightarrow> distinct [dn_cert_file (cf_dns cfg), dn_key_file (cf_dns cfg),
     ie_temp_name (ae_install en) (dn_cert_file (cf_dns cfg)), ie_temp_name (ae_install en) (dn_key_file (cf_dns cfg))]"

lemma wp_deploy_certificate_files:
  assumes apart: "cert_names_apart en cfg"
    and cert: "disk_of c (path_join [lineage, ''fullchain.pem'']) = Some cert"
    and key: "disk_of c (path_join [lineage, ''privkey.pem'']) = Some key"
  shows "wp (deploy_certificate_files en cfg lineage)
    (\<lambda>_ c'. renewing (renewed en cfg cert key) (disk_of c) c' \<and> pair_valid en cert key (dn_dot_domain (cf_dns cfg)) \<and>
       disk_of c' (dn_cert_file (cf_dns cfg)) = Some cert \<and> disk_of c' (dn_key_file (cf_dns cfg)) = Some key)
    (\<lambda>_ c'. renewing (renewed en cfg cert key) (disk_of c) c' \<and>
       (pair_valid en cert key (dn_dot_domain (cf_dns cfg)) \<or> c' = c)) c"
proof (cases "pair_valid en cert key (dn_dot_domain (cf_dns cfg))")
  case False
  then show ?thesis
    unfolding deploy_certificate_files_def
    by (auto simp: wp_simps cert key renewing_def validate_certificate_pair_None intro!: wp_seq split: option.split)
next
  case True
  let ?ok = "renewed en cfg cert key" and ?cf = "dn_cert_file (cf_dns cfg)" and ?kf = "dn_key_file (cf_dns cfg)"
  let ?R = "renewing ?ok (disk_of c)"
  have refl: "?R c" by (simp add: renewing_def)
  have names: "?cf \<noteq> ?kf" "ie_temp_name (ae_install en) ?cf \<noteq> ?cf" "ie_temp_name (ae_install en) ?kf \<noteq> ?kf"
    "?cf \<noteq> ie_temp_name (ae_install en) ?kf"
    and ok: "Some cert \<in> ?ok ?cf" "Some key \<in> ?ok ?kf"
    "?ok (ie_temp_name (ae_install en) ?cf) = UNIV" "?ok (ie_temp_name (ae_install en) ?kf) = UNIV"
    using apart by (auto simp: cert_names_apart_def renewed_def cert_temps_def)
  let ?Q = "\<lambda>c'. ?R c' \<and> disk_of c' ?cf = Some cert \<and> disk_of c' ?kf = Some key"
  have allow: "preserves ?Q (allow_smart_dns_certificate_read en cfg)"
    by (rule preserves_via [OF preserves_allow]) (auto dest: renewing_mono simp: more_guarded_def)
  have 2: "wp (write_certificate_file en ?kf key gid) (\<lambda>_. ?Q) (\<lambda>_. ?R) c1" if "?R c1 \<and> disk_of c1 ?cf = Some cert" for gid c1
    by (rule wp_mono [OF wp_write_certificate_file [of ?ok "disk_of c"]]) (use that ok names in auto)
  have 1: "wp (write_certificate_file en ?cf cert gid) (\<lambda>_ c'. ?R c' \<and> disk_of c' ?cf = Some cert) (\<lambda>_. ?R) c" for gid
    by (rule wp_mono [OF wp_write_certificate_file [of ?ok "disk_of c"]]) (use refl ok names in auto)
  have both: "wp (each (\<lambda>(path, data). write_certificate_file en path data gid) [(?cf, cert), (?kf, key)]) (\<lambda>_. ?Q) (\<lambda>_. ?R) c" for gid
    by (simp, rule wp_seq, rule wp_mono [OF 1], rule wp_seq, rule wp_mono [OF 2]) (auto simp: wp_simps)
  have tail: "wp (seq (each (\<lambda>(path, data). write_certificate_file en path data gid) [(?cf, cert), (?kf, key)]) (\<lambda>_.
      allow_smart_dns_certificate_read en cfg)) (\<lambda>_. ?Q) (\<lambda>_. ?R) c" for gid
    by (rule wp_seq, rule wp_mono [OF both], rule wp_mono [OF preservesD [OF allow]]) auto
  show ?thesis
    unfolding deploy_certificate_files_def smart_dns_group_def
    by (auto simp: wp_simps wp_compute cert key True validate_certificate_pair_None refl simp del: each.simps split: sum.split option.split
        dest: validate_certificate_pair_Some intro!: wp_seq [of "read_path _"] wp_seq [of "compute _"] wp_mono [OF tail])
qed


text \<open>
  Claim C32. Whatever fails while a renewed certificate is deployed, the certificate and the key are each
  the old file or, whole, the new one, and what was written is closed to other users at every moment,
  the temporary files included. Nothing is written unless the new key belongs to the new certificate and
  the certificate is valid for the domain; after a success both files are new.
\<close>

theorem deploy_certificate_safe:
  assumes "cert_names_apart en cfg"
    and "disk_of c (path_join [lineage, ''fullchain.pem'']) = Some cert" and "disk_of c (path_join [lineage, ''privkey.pem'']) = Some key"
    and run: "deploy_certificate_files en cfg lineage (c, fs) = (r, c', fs')"
  shows "(\<forall>p. disk_of c' p = disk_of c p \<or>
        (p = dn_cert_file (cf_dns cfg) \<and> disk_of c' p = Some cert \<or> p = dn_key_file (cf_dns cfg) \<and> disk_of c' p = Some key \<or>
         p \<in> cert_temps en cfg) \<and> (disk_of c' p = None \<or> guarded c' p)) \<and>
    (c' = c \<or> pair_valid en cert key (dn_dot_domain (cf_dns cfg))) \<and>
    (r = Inr () \<longrightarrow> disk_of c' (dn_cert_file (cf_dns cfg)) = Some cert \<and> disk_of c' (dn_key_file (cf_dns cfg)) = Some key)"
proof -
  have "disk_of c' p = disk_of c p \<or>
      (p = dn_cert_file (cf_dns cfg) \<and> disk_of c' p = Some cert \<or> p = dn_key_file (cf_dns cfg) \<and> disk_of c' p = Some key \<or>
       p \<in> cert_temps en cfg) \<and> (disk_of c' p = None \<or> guarded c' p)"
    if "renewing (renewed en cfg cert key) (disk_of c) c'" for p
    using spec [OF that [unfolded renewing_def], of p] by (auto simp: renewed_def split: if_splits)
  with wp_run [OF wp_deploy_certificate_files [OF assms(1-3)] run] show ?thesis
    by (cases r) auto
qed

definition sample_cert_config :: config where
  "sample_cert_config = (let c = draft ''10.0.0.1'' ''10.0.0.0/24'' ''eth0'' ''dns.example.com'' [direct_exit] in
     c\<lparr>cf_system := (cf_system c)\<lparr>sy_config_dir := ''/c''\<rparr>, cf_dns := (cf_dns c)\<lparr>
       dn_cert_file := ''/c/f'', dn_key_file := ''/c/k''\<rparr>\<rparr>)"

definition sample_app_env :: app_env where
  "sample_app_env = \<lparr>ae_install = sample_install_env [], ae_command = (\<lambda>_ d. Some d), ae_look_path = (\<lambda>_ _. None),
     ae_group = (\<lambda>g. if g = ''nogroup'' then Some ''65534'' else None), ae_key_pair = (\<lambda>_ _. True),
     ae_leaf = (\<lambda>_. Some \<lparr>lf_verifies = (\<lambda>d. d = ''dns.example.com''), lf_not_before = 0, lf_not_after = 10\<rparr>), ae_now = 5\<rparr>"

definition sample_computer :: "unit computer" where
  "sample_computer = \<lparr>cp_machine = \<lparr>mc_disk = [''/l/fullchain.pem'' \<mapsto> ''new cert'', ''/l/privkey.pem'' \<mapsto> ''new key'',
       ''/c/f'' \<mapsto> ''old cert'', ''/c/k'' \<mapsto> ''old key''], mc_tmp = []\<rparr>,
     cp_access = [''/c'' \<mapsto> ((0, 0), oct [7, 5, 0]),
       ''/c/f'' \<mapsto> ((0, 0), oct [6, 4, 4]), ''/c/k'' \<mapsto> ((0, 0), oct [6, 0, 0])],
     cp_dbs = Map.empty, cp_log = []\<rparr>"

abbreviation sample_deploy :: "bool list \<Rightarrow> (unit app_error + unit) \<times> unit computer \<times> bool list" where
  "sample_deploy fs \<equiv> deploy_certificate_files sample_app_env sample_cert_config ''/l'' (sample_computer, fs)"

text \<open>A write that does not fail, and what it leaves.\<close>

definition written :: "app_env \<Rightarrow> string \<Rightarrow> string \<Rightarrow> int \<Rightarrow> 'db computer \<Rightarrow> 'db computer" where
  "written en path data gid c = (let temp = ie_temp_name (ae_install en) path in
     on_access (\<lambda>a. a(path \<mapsto> ((0, gid), oct [6, 4, 0]), temp := None)) (on_disk (\<lambda>d. d(path \<mapsto> data, temp := None))
       (created (dir_name path) (oct [7, 5, 0]) c)))"

lemma on_twice: "on_disk f (on_disk g c) = on_disk (\<lambda>d. f (g d)) c" "on_access h (on_access k c) = on_access (\<lambda>d. h (k d)) c"
  "on_disk f (on_access h c) = on_access h (on_disk f c)"
  by (simp_all add: on_disk_def on_access_def)

lemma run_write:
  assumes "ie_temp_name (ae_install en) path \<noteq> path"
  shows "write_certificate_file en path data gid (c, []) = (Inr (), written en path data gid c, [])"
    and "write_certificate_file en path data gid (c, replicate 9 False @ fs) = (Inr (), written en path data gid c, fs)"
proof -
  define temp where "temp = ie_temp_name (ae_install en) path"
  have "temp \<noteq> path" using assms by (simp add: temp_def)
  then show "write_certificate_file en path data gid (c, []) = (Inr (), written en path data gid c, [])"
    "write_certificate_file en path data gid (c, replicate 9 False @ fs) = (Inr (), written en path data gid c, fs)"
    unfolding write_certificate_file_def written_def temp_def [symmetric] Let_def mkdir_all_def
    by (simp_all add: deferred_def act_defs io_step_def change_access_def chmod_def chown_def rename_path_def remove_path_def
       on_twice fun_upd_twist eval_nat_numeral)
qed

lemma run_reads:
  "disk_of c p = Some s \<Longrightarrow> read_path p (c, []) = (Inr s, c, [])"
  "disk_of c p = Some s \<Longrightarrow> read_path p (c, False # fs) = (Inr s, c, fs)"
  "cp_access c p = Some (g, m) \<Longrightarrow> chown p gid (c, []) = (Inr (), on_access (\<lambda>a. a(p \<mapsto> (gid, m))) c, [])"
  "cp_access c p = Some (g, m) \<Longrightarrow> chmod p mode (c, []) = (Inr (), on_access (\<lambda>a. a(p \<mapsto> (g, mode))) c, [])"
  by (simp_all add: read_path_def change_access_def chown_def chmod_def call_cases)


lemma sample_cert_simps:
  "path_join [''/l'', ''fullchain.pem''] = ''/l/fullchain.pem''" "path_join [''/l'', ''privkey.pem''] = ''/l/privkey.pem''"
  "dn_cert_file (cf_dns sample_cert_config) = ''/c/f''" "dn_key_file (cf_dns sample_cert_config) = ''/c/k''"
  "sy_config_dir (cf_system sample_cert_config) = ''/c''" "dir_name ''/c/f'' = ''/c''" "dir_name ''/c/k'' = ''/c''"
  "validate_certificate_pair sample_app_env x y (dn_dot_domain (cf_dns sample_cert_config)) = (None :: unit app_error option)"
  "ie_temp_name (ae_install sample_app_env) p = p @ ''-5gws''"
  "first_group sample_app_env [''nogroup'', ''nobody''] = (Inr 65534 :: unit app_error + int)"
  by code_simp+

abbreviation sample_written :: "unit computer" where
  "sample_written \<equiv> written sample_app_env ''/c/f'' ''new cert'' 65534 sample_computer"

lemma sample_disk: "disk_of sample_computer ''/l/fullchain.pem'' = Some ''new cert''"
  "disk_of sample_computer ''/l/privkey.pem'' = Some ''new key''" "disk_of sample_computer ''/c/k'' = Some ''old key''"
  "cp_access sample_computer ''/c'' = Some ((0, 0), oct [7, 5, 0])"
  by (simp_all add: sample_computer_def)

lemma sample_access:
  "cp_access (written en path data gid c) p = (if p = ie_temp_name (ae_install en) path then None
     else if p = path then Some ((0, gid), oct [6, 4, 0])
     else if p = dir_name path \<and> cp_access c p = None then Some ((0, 0), oct [7, 5, 0]) else cp_access c p)"
  by (auto simp: written_def created_def Let_def)

lemma sample_deploy_ok: "fst (sample_deploy []) = Inr ()"
  unfolding deploy_certificate_files_def smart_dns_group_def allow_smart_dns_certificate_read_def
  by (simp add: sample_cert_simps sample_disk sample_access seq_def run_reads run_write compute_def ret_def
      del: first_group.simps)

theorem deploy_certificate_safe_witness:
  "fst (sample_deploy []) = Inr () \<and> disk_of (fst (snd (sample_deploy []))) ''/c/k'' = Some ''new key'' \<and>
     guarded (fst (snd (sample_deploy []))) ''/c/k''"
proof -
  have names: "cert_names_apart sample_app_env sample_cert_config" by (simp add: cert_names_apart_def sample_cert_simps)
  have files: "disk_of sample_computer (path_join [''/l'', ''fullchain.pem'']) = Some ''new cert''"
    "disk_of sample_computer (path_join [''/l'', ''privkey.pem'']) = Some ''new key''"
    by (simp_all add: sample_cert_simps sample_disk)
  have run: "sample_deploy [] = (Inr (), fst (snd (sample_deploy [])), snd (snd (sample_deploy [])))"
    using sample_deploy_ok by (metis prod.collapse)
  have new: "disk_of (fst (snd (sample_deploy []))) ''/c/k'' = Some ''new key''"
    using deploy_certificate_safe [OF names files run] by (simp add: sample_cert_simps)
  have "guarded (fst (snd (sample_deploy []))) ''/c/k''"
    using conjunct1 [OF deploy_certificate_safe [OF names files run], rule_format, of "''/c/k''"] new
    by (simp add: sample_disk)
  with sample_deploy_ok new show ?thesis by blast
qed

text \<open>The two files are not replaced together: a failure in between leaves the new certificate with the old key.\<close>

lemma deployment_can_mix_the_pair:
  "let w = sample_deploy (replicate 11 False @ [True]) in fst w = Inl AppIo \<and>
     disk_of (fst (snd w)) ''/c/f'' = Some ''new cert'' \<and> disk_of (fst (snd w)) ''/c/k'' = Some ''old key''"
proof -
  have fs: "replicate 11 False @ [True] = False # False # replicate 9 False @ [True]" by (simp add: eval_nat_numeral)
  have "write_certificate_file sample_app_env ''/c/k'' data gid (c, [True]) = ((Inl AppIo, c, []) :: (unit app_error + unit) \<times> _)"
    for data gid and c :: "unit computer"
    by (simp add: write_certificate_file_def Let_def mkdir_all_def io_step_def seq_def call_cases)
  then have "sample_deploy (replicate 11 False @ [True]) = (Inl AppIo, sample_written, [])"
    unfolding deploy_certificate_files_def smart_dns_group_def fs
    by (simp add: sample_cert_simps sample_disk seq_def run_reads run_write compute_def ret_def del: first_group.simps)
  then show ?thesis by (simp add: written_def sample_cert_simps sample_disk created_def Let_def)
qed

section \<open>The hook names the database\<close>

text \<open>A word of \<^verbatim>\<open>sh\<close>: single quotes keep everything but themselves, a backslash outside them the next byte.\<close>

fun sh_word :: "bool \<Rightarrow> string \<Rightarrow> string" where
  "sh_word q [] = []"
| "sh_word True (c # s) = (if c = CHR 0x27 then sh_word False s else c # sh_word True s)"
| "sh_word False (c # s) = (if c = CHR 0x27 then sh_word True s
     else if c = CHR 0x5C then (case s of [] \<Rightarrow> [] | d # s' \<Rightarrow> d # sh_word False s') else c # sh_word False s)"

lemma sh_word_quoted:
  "sh_word True (concat (map (\<lambda>c. if c = CHR 0x27 then [CHR 0x27, CHR 0x5C, CHR 0x27, CHR 0x27] else [c]) s) @ [CHR 0x27]) = s"
  by (induction s) auto

lemma sh_word_quote: "sh_word False (sh_quote s) = s"
  using sh_word_quoted [of s] by (simp add: sh_quote_def)

end
