(* ===== verification/Install.thy ===== *)
theory Install
  imports Certificates Auth Bundle
begin

text \<open>
  \<^verbatim>\<open>internal/app/install.go\<close>: the installation, its resumption, and the removal of the service, with the
  command around a certificate deployment. The answers to the prompts are one input string. The
  databases are those of the store; what is printed is not modelled, except that the result says which
  credentials were shown. The command line is parsed already.
\<close>

record setup_env =
  se_app :: app_env
  se_up :: "string \<Rightarrow> url option"
  se_re :: regexp_pkg
  se_dec :: decoders
  se_net :: net_env
  se_sha :: "string \<Rightarrow> string"
  se_bcrypt :: bcrypt
  se_now :: int
  se_raw :: bytes
  se_root :: bool
  se_routes :: "string option"
  se_user :: "string \<Rightarrow> string option"
  se_glob :: "string \<Rightarrow> disk \<Rightarrow> string list"

datatype setup_error = SetupStore store_error | SetupAuth auth_error | SetupRuntime install_error
  | SetupRules rules_error | SetupConfig config_error | SetupPools rules_error | MissingFlags "string list" | InputEnded
  | LegacyUnits "string list" | BadUsage | Told string | Differs string | NothingResolved | NeedsConfirmation | NobodyUnknown
  | AllOf "setup_error app_error list"

type_synonym 'a setup_act = "(db, setup_error, 'a) app_act"

record setup_options =
  op_gateway_ip :: string
  op_internal_cidr :: string
  op_ingress_iface :: string
  op_dot_domain :: string
  op_panel_listen :: string
  op_ios_enabled :: bool
  op_non_interactive :: bool
  op_dry_run :: bool

section \<open>Prompts\<close>

text \<open>\<^verbatim>\<open>ReadString('\n')\<close>: the line, what is left, and whether the input ended before a line feed.\<close>

definition read_line :: "string \<Rightarrow> string \<times> string \<times> bool" where
  "read_line input = (case index_char input line_feed of None \<Rightarrow> (input, [], True)
     | Some i \<Rightarrow> (take i input, drop (Suc i) input, False))"

lemma read_line_shorter: "read_line input = (l, rest, False) \<Longrightarrow> length rest < length input"
  by (auto simp: read_line_def index_char_def split: if_splits dest: length_pos_if_in_set)

text \<open>The remaining input is returned with the answer; \<open>None\<close> is the end of the input.\<close>

function prompt :: "string \<Rightarrow> string \<Rightarrow> (string \<times> string) option" where
  "prompt fallback input = (let (line, rest, eof) = read_line input; value = trim_space line in
     if value \<noteq> [] then Some (value, rest)
     else if fallback \<noteq> [] then Some (fallback, rest)
     else if eof then None
     else prompt fallback rest)"
  by pat_completeness auto
termination
  by (relation "measure (\<lambda>(_, input). length input)") (auto dest: read_line_shorter [OF sym])

declare prompt.simps [simp del]

lemma read_line_spec:
  assumes "read_line input = (l, rest, eof)"
  shows "line_feed \<notin> set l" "input = l @ (if eof then [] else line_feed # rest)" "eof \<Longrightarrow> rest = []"
proof -
  have t: "take (length (takeWhile P xs)) xs = takeWhile P xs" "drop (length (takeWhile P xs)) xs = dropWhile P xs"
    for P and xs :: string
    by (metis append_eq_conv_conj takeWhile_dropWhile_id)+
  have d: "dropWhile (\<lambda>x. x \<noteq> c) xs = c # drop (Suc (length (takeWhile (\<lambda>x. x \<noteq> c) xs))) xs" if "c \<in> set xs" for c :: char and xs
    using that by (induction xs) auto
  have whole: "input = takeWhile (\<lambda>x. x \<noteq> line_feed) input @ line_feed # drop (Suc (length (takeWhile (\<lambda>x. x \<noteq> line_feed) input))) input"
    if "line_feed \<in> set input"
    using d [OF that] by (metis takeWhile_dropWhile_id)
  show "line_feed \<notin> set l" "input = l @ (if eof then [] else line_feed # rest)" "eof \<Longrightarrow> rest = []"
    using assms whole t(1) [of "\<lambda>x. x \<noteq> line_feed" input]
    by (auto simp: read_line_def index_char_def dest: set_takeWhileD split: if_splits)
qed

text \<open>What a question leaves of the input, and when it is answered.\<close>

definition answered :: "string \<Rightarrow> string \<Rightarrow> (string \<times> string) option \<Rightarrow> bool" where
  "answered fallback input r \<longleftrightarrow> (case r of
     None \<Rightarrow> fallback = [] \<and> list_all (\<lambda>l. trim_space l = []) (split_char line_feed input)
   | Some (v, rest) \<Rightarrow> v \<noteq> [] \<and> (\<exists>skipped line eol. input = concat (map (\<lambda>l. l @ [line_feed]) skipped) @ line @ eol @ rest \<and>
       list_all (\<lambda>l. trim_space l = []) skipped \<and> (skipped = [] \<or> fallback = []) \<and> line_feed \<notin> set line \<and>
       (eol = [line_feed] \<or> eol = [] \<and> rest = []) \<and> v = (if trim_space line = [] then fallback else trim_space line)))"

lemma answered_skip:
  assumes "answered [] rest r" and "trim_space l = []" and "line_feed \<notin> set l"
  shows "answered [] (l @ line_feed # rest) r"
proof (cases r)
  case None
  with assms show ?thesis by (simp add: answered_def split_char_append)
next
  case (Some vr)
  obtain v rest' where r: "r = Some (v, rest')" using Some by (cases vr) simp
  with assms(1) obtain skipped line eol where found: "v \<noteq> []" "rest = concat (map (\<lambda>l. l @ [line_feed]) skipped) @ line @ eol @ rest'"
      "list_all (\<lambda>l. trim_space l = []) skipped" "line_feed \<notin> set line" "eol = [line_feed] \<or> eol = [] \<and> rest' = []"
      "v = (if trim_space line = [] then [] else trim_space line)"
    by (auto simp: answered_def)
  show ?thesis
    unfolding answered_def r option.case prod.case
    by (rule conjI [OF found(1)], rule exI [of _ "l # skipped"], rule exI [of _ line], rule exI [of _ eol])
      (use found assms(2) in simp)
qed

lemma answered_line:
  assumes "line_feed \<notin> set l" and "v = (if trim_space l = [] then fallback else trim_space l)" and "v \<noteq> []"
    and "eol = [line_feed] \<or> eol = [] \<and> rest = []"
  shows "answered fallback (l @ eol @ rest) (Some (v, rest))"
  unfolding answered_def option.case prod.case
  by (rule conjI [OF assms(3)], rule exI [of _ "[] :: string list"], rule exI [of _ l], rule exI [of _ eol]) (use assms in simp)

lemma prompt_answered: "answered fallback input (prompt fallback input)"
proof (induction fallback input rule: prompt.induct)
  case (1 fallback input)
  obtain l rest eof where line: "read_line input = (l, rest, eof)" by (cases "read_line input")
  note spec = read_line_spec [OF line]
  define v where "v = (if trim_space l = [] then fallback else trim_space l)"
  have step: "prompt fallback input = (if v \<noteq> [] then Some (v, rest) else if eof then None else prompt fallback rest)"
    by (subst prompt.simps) (simp add: line v_def)
  show ?case
  proof (cases "v = []")
    case False
    then have found: "prompt fallback input = Some (v, rest)" by (simp add: step)
    have input: "input = l @ (if eof then [] else [line_feed]) @ rest" using spec by (cases eof) simp_all
    show ?thesis
      unfolding found by (subst input, rule answered_line [OF spec(1) v_def False]) (use spec(3) in simp)
  next
    case True
    then have blank: "trim_space l = []" "fallback = []" by (auto simp: v_def split: if_splits)
    show ?thesis
    proof (cases eof)
      case True
      then have "prompt fallback input = None" using \<open>v = []\<close> by (simp add: step)
      moreover have "input = l" using spec(2) True by simp
      ultimately show ?thesis using spec(1) blank by (simp only: answered_def option.case) (simp add: split_char_no_sep)
    next
      case False
      have "answered fallback rest (prompt fallback rest)"
        by (rule "1.IH" [OF line [symmetric] refl refl]) (use blank False in auto)
      moreover have "prompt fallback input = prompt fallback rest" using \<open>v = []\<close> False by (simp add: step)
      moreover have "input = l @ line_feed # rest" using spec(2) False by simp
      ultimately show ?thesis using answered_skip [OF _ blank(1) spec(1)] blank(2) by simp
    qed
  qed
qed

text \<open>
  Claim C33. A question ends on every input. It is left without an answer exactly when there is no default
  and nothing but blank lines; otherwise it skips blank lines, which it does only without a default, and
  answers with the trimmed line, or with the default for a blank one, and the rest of the input is left.
\<close>

theorem prompt_ends:
  "case prompt fallback input of
     None \<Rightarrow> fallback = [] \<and> list_all (\<lambda>l. trim_space l = []) (split_char line_feed input)
   | Some (v, rest) \<Rightarrow> v \<noteq> [] \<and> (\<exists>skipped line eol. input = concat (map (\<lambda>l. l @ [line_feed]) skipped) @ line @ eol @ rest \<and>
       list_all (\<lambda>l. trim_space l = []) skipped \<and> (skipped = [] \<or> fallback = []) \<and> line_feed \<notin> set line \<and>
       (eol = [line_feed] \<or> eol = [] \<and> rest = []) \<and> v = (if trim_space line = [] then fallback else trim_space line))"
  using prompt_answered by (simp only: answered_def)

definition value_or :: "string \<Rightarrow> string \<Rightarrow> string" where
  "value_or value fallback = (if trim_space value \<noteq> [] then value else fallback)"

fun after_dev :: "string list \<Rightarrow> string" where
  "after_dev (f # g # fs) = (if f = ''dev'' then g else after_dev (g # fs))"
| "after_dev _ = ''eth0''"

definition default_interface :: "setup_env \<Rightarrow> string" where
  "default_interface en = (case se_routes en of None \<Rightarrow> ''eth0'' | Some out \<Rightarrow> after_dev (Go_Prelude.fields out))"

definition missing_install_flags :: "setup_options \<Rightarrow> string list" where
  "missing_install_flags opts = map fst (filter (\<lambda>(_, value). trim_space value = [])
     [(''--gateway-ip'', op_gateway_ip opts), (''--internal-cidr'', op_internal_cidr opts),
      (''--ingress-iface'', op_ingress_iface opts), (''--dot-domain'', op_dot_domain opts)])"

definition collect :: "setup_env \<Rightarrow> setup_options \<Rightarrow> string \<Rightarrow> setup_error + setup_options" where
  "collect en opts input =
     (if op_non_interactive opts then
        (if missing_install_flags opts \<noteq> [] then Inl (MissingFlags (missing_install_flags opts)) else Inr opts)
      else case prompt (value_or (op_gateway_ip opts) ''10.0.0.1'') input of None \<Rightarrow> Inl InputEnded | Some (ip, input1) \<Rightarrow>
        case prompt (value_or (op_internal_cidr opts) ''172.22.0.0/16'') input1 of None \<Rightarrow> Inl InputEnded | Some (cidr, input2) \<Rightarrow>
        case prompt (value_or (op_ingress_iface opts) (default_interface en)) input2 of None \<Rightarrow> Inl InputEnded | Some (iface, input3) \<Rightarrow>
        case prompt (op_dot_domain opts) input3 of None \<Rightarrow> Inl InputEnded | Some (domain, _) \<Rightarrow>
          Inr (opts\<lparr>op_gateway_ip := ip, op_internal_cidr := cidr, op_ingress_iface := iface, op_dot_domain := domain\<rparr>))"

section \<open>The configuration of an installation\<close>

definition install_config :: "setup_options \<Rightarrow> config" where
  "install_config opts = (let domain = to_lower (trim_suffix (op_dot_domain opts) ''.'') in
     apply_defaults ((draft (op_gateway_ip opts) (op_internal_cidr opts) (op_ingress_iface opts) domain [direct_exit])
      \<lparr>cf_panel := \<lparr>pa_listen = value_or (op_panel_listen opts) ''127.0.0.1:19443'', pa_allowed_cidrs = []\<rparr>,
       cf_logging := \<lparr>lg_level = ''info'', lg_access = Some True\<rparr>,
       cf_ios := \<lparr>io_enabled = op_ios_enabled opts, io_listen = [], io_base_url = ''https://'' @ domain,
         io_organization = ''5gws'', io_profile_identifier = ''dev.5gws.dot''\<rparr>\<rparr>))"

definition validate_install_identity :: "config \<Rightarrow> config \<Rightarrow> setup_error option" where
  "validate_install_identity requested existing = first_err
     [err_if (cf_system requested \<noteq> cf_system existing) (Differs ''paths''),
      err_if (pa_listen (cf_panel requested) \<noteq> pa_listen (cf_panel existing)) (Differs ''panel listen''),
      err_if (nw_gateway_ip (cf_network requested) \<noteq> nw_gateway_ip (cf_network existing)) (Differs ''gateway IP''),
      err_if (nw_internal_cidr (cf_network requested) \<noteq> nw_internal_cidr (cf_network existing)) (Differs ''internal CIDR''),
      err_if (nw_ingress_iface (cf_network requested) \<noteq> nw_ingress_iface (cf_network existing)) (Differs ''ingress interface''),
      err_if (dn_dot_domain (cf_dns requested) \<noteq> dn_dot_domain (cf_dns existing)) (Differs ''DoT domain''),
      err_if (io_enabled (cf_ios requested) \<noteq> io_enabled (cf_ios existing)) (Differs ''iOS setting'')]"

section \<open>Steps of an installation\<close>

definition setup_fail :: "setup_error \<Rightarrow> 'a setup_act" where
  "setup_fail e = fail (AppInner e)"

definition on_runtime :: "'a install_act \<Rightarrow> 'a setup_act" where
  "on_runtime m = lift_act cp_machine (\<lambda>m c. c\<lparr>cp_machine := m\<rparr>) (\<lambda>e. AppInner (SetupRuntime e)) m"

definition the_db :: "string \<Rightarrow> db computer \<Rightarrow> db" where
  "the_db path c = (case cp_dbs c path of None \<Rightarrow> empty_db | Some d \<Rightarrow> d)"

definition on_database :: "string \<Rightarrow> ('e \<Rightarrow> setup_error) \<Rightarrow> (db, 'e, 'a) act \<Rightarrow> 'a setup_act" where
  "on_database path h m = lift_act (the_db path) (\<lambda>d c. c\<lparr>cp_dbs := (cp_dbs c)(path \<mapsto> d)\<rparr>) (\<lambda>e. AppInner (h e)) m"

text \<open>\<^verbatim>\<open>store.Open\<close> creates the database with its schema, or leaves it alone.\<close>

definition open_store :: "string \<Rightarrow> unit setup_act" where
  "open_store path = call AppIo (\<lambda>c. (Inr (), c\<lparr>cp_dbs := (cp_dbs c)(path \<mapsto> the_db path c)\<rparr>))"

definition database_path :: "string \<Rightarrow> string" where
  "database_path state_dir = path_join [state_dir, ''5gws.db'']"

definition load_existing_bundle :: "string \<Rightarrow> app_bundle option setup_act" where
  "load_existing_bundle state_dir = (let path = database_path state_dir in
     seq (call AppIo (\<lambda>c. (Inr (cp_dbs c path \<noteq> None), c))) (\<lambda>exists.
     if \<not> exists then ret None
     else seq (open_store path) (\<lambda>_.
       seq (on_database path SetupStore store_active) (\<lambda>act. ret (Some (rn_bundle act))))))"

definition system_command :: "setup_env \<Rightarrow> string list \<Rightarrow> unit setup_act" where
  "system_command en args = command (se_app en) args"

definition unit_path :: string where
  "unit_path = ''/etc/systemd/system/5gws.service''"

definition systemd_unit :: string where
  "systemd_unit = join_str [line_feed] [''[Unit]'', ''Description=5gws gateway daemon'', ''After=network-online.target'',
     ''Wants=network-online.target'', [], ''[Service]'', ''Type=simple'',
     ''ExecStart=/usr/local/bin/5gws daemon --database /var/lib/5gws/5gws.db'', ''Restart=on-failure'', ''RestartSec=2s'',
     ''KillMode=control-group'', ''RuntimeDirectory=5gws'', ''RuntimeDirectoryMode=0700'', ''LimitNOFILE=1048576'', [],
     ''[Install]'', ''WantedBy=multi-user.target'', []]"

definition write_service_unit :: "unit setup_act" where
  "write_service_unit = write_path unit_path systemd_unit (oct [6, 4, 4])"

definition enable_service :: "setup_env \<Rightarrow> unit setup_act" where
  "enable_service en = seq write_service_unit (\<lambda>_. seq (system_command en [''systemctl'', ''daemon-reload'']) (\<lambda>_.
     system_command en [''systemctl'', ''enable'', ''--now'', ''5gws.service'']))"

text \<open>The new administrator's name and password are shown once.\<close>

definition initialize_service :: "setup_env \<Rightarrow> config \<Rightarrow> rules_file \<Rightarrow> rule list \<Rightarrow> (string \<times> string) setup_act" where
  "initialize_service en cfg file norm = (let path = database_path (sy_state_dir (cf_system cfg)) in
     seq (mkdir_all (sy_state_dir (cf_system cfg)) (oct [7, 0, 0])) (\<lambda>_.
     seq (open_store path) (\<lambda>_.
     seq (on_database path SetupStore (initialize (se_up en) (se_now en) \<lparr>b_config = cfg, b_rules = file, b_resolved = norm\<rparr>)) (\<lambda>_.
     seq (on_database path SetupAuth (generate_password (se_raw en))) (\<lambda>password.
     seq (on_database path SetupAuth (reset_admin (se_bcrypt en) (se_now en) password)) (\<lambda>admin.
     seq (enable_service en) (\<lambda>_.
     ret (us_username admin, password))))))))"

definition copy_path :: "string \<Rightarrow> string \<Rightarrow> nat \<Rightarrow> unit setup_act" where
  "copy_path src dst mode = seq (read_path src) (\<lambda>data. write_path dst data mode)"

text \<open>\<^verbatim>\<open>os.Stat\<close> of a file; every error counts as its absence.\<close>

definition stat_path :: "string \<Rightarrow> bool setup_act" where
  "stat_path p = seq (attempt (read_path p)) (\<lambda>r. ret (case r of Inl _ \<Rightarrow> False | Inr _ \<Rightarrow> True))"

definition request_certificate :: "setup_env \<Rightarrow> config \<Rightarrow> unit setup_act" where
  "request_certificate en cfg = (let live = path_join [''/etc/letsencrypt/live'', dn_dot_domain (cf_dns cfg)] in
     seq (observe (\<lambda>c. ae_look_path (se_app en) (disk_of c) ''certbot'')) (\<lambda>certbot.
     seq (if certbot \<noteq> None then ret () else seq (system_command en [''apt-get'', ''update'']) (\<lambda>_.
       system_command en [''apt-get'', ''install'', ''-y'', ''certbot''])) (\<lambda>_.
     seq (system_command en [''certbot'', ''certonly'', ''--standalone'', ''-d'', dn_dot_domain (cf_dns cfg),
       ''--non-interactive'', ''--agree-tos'', ''--register-unsafely-without-email'', ''--keep-until-expiring'']) (\<lambda>_.
     seq (mkdir_all (dir_name (dn_cert_file (cf_dns cfg))) (oct [7, 5, 0])) (\<lambda>_.
     seq (copy_path (path_join [live, ''fullchain.pem'']) (dn_cert_file (cf_dns cfg)) (oct [6, 4, 4])) (\<lambda>_.
     seq (copy_path (path_join [live, ''privkey.pem'']) (dn_key_file (cf_dns cfg)) (oct [6, 0, 0])) (\<lambda>_.
     seq (allow_smart_dns_certificate_read (se_app en) cfg) (\<lambda>_.
     ensure_certificate_deploy_hook cfg))))))))"

definition ensure_certificate :: "setup_env \<Rightarrow> config \<Rightarrow> unit setup_act" where
  "ensure_certificate en cfg = seq (stat_path (dn_cert_file (cf_dns cfg))) (\<lambda>cert.
     seq (if cert then stat_path (dn_key_file (cf_dns cfg)) else ret False) (\<lambda>both.
     if both then seq (allow_smart_dns_certificate_read (se_app en) cfg) (\<lambda>_. ensure_certificate_deploy_hook cfg)
     else request_certificate en cfg))"

definition smart_dns_log_dir :: string where
  "smart_dns_log_dir = ''/var/log/smartdns''"

definition smart_dns_user :: "setup_env \<Rightarrow> int setup_act" where
  "smart_dns_user en = (case Option.bind (se_user en ''nobody'') atoi of None \<Rightarrow> setup_fail NobodyUnknown | Some uid \<Rightarrow> ret uid)"

definition ensure_smart_dns_log_dir :: "setup_env \<Rightarrow> bool \<Rightarrow> unit setup_act" where
  "ensure_smart_dns_log_dir en dry_run = (if dry_run then ret () else seq (smart_dns_user en) (\<lambda>uid.
     seq (smart_dns_group (se_app en)) (\<lambda>gid.
     seq (mkdir_all smart_dns_log_dir (oct [7, 5, 0])) (\<lambda>_.
     seq (chown smart_dns_log_dir (uid, gid)) (\<lambda>_.
     chmod smart_dns_log_dir (oct [7, 5, 0]))))))"

definition refuse_legacy_units :: "setup_env \<Rightarrow> unit setup_act" where
  "refuse_legacy_units en = seq (observe (\<lambda>c. se_glob en ''/etc/systemd/system/5gws-*.service'' (disk_of c))) (\<lambda>units.
     if units \<noteq> [] then setup_fail (LegacyUnits units) else ret ())"

section \<open>The commands\<close>

definition find_existing :: "setup_env \<Rightarrow> bool \<Rightarrow> config \<Rightarrow> app_bundle option setup_act" where
  "find_existing en dry_run cfg =
     (if dry_run then ret None
      else if \<not> se_root en then fail NotRoot
      else seq (refuse_legacy_units en) (\<lambda>_.
        seq (load_existing_bundle (sy_state_dir (cf_system cfg))) (\<lambda>existing. case existing of
          None \<Rightarrow> ret None
        | Some b \<Rightarrow> (case validate_install_identity cfg (b_config b) of Some e \<Rightarrow> setup_fail e | None \<Rightarrow> ret (Some b)))))"

definition install_bundle :: "setup_env \<Rightarrow> config \<Rightarrow> app_bundle option \<Rightarrow> setup_error + app_bundle \<times> rule list" where
  "install_bundle en cfg existing = (case existing of
     Some b \<Rightarrow> if b_resolved b = [] \<and> 0 < length (rf_rules (b_rules b)) + length (rf_imports (b_rules b))
       then Inl NothingResolved else Inr (b, b_resolved b)
   | None \<Rightarrow> (let b = bundle_apply_defaults \<lparr>b_config = cfg, b_rules = ensure_optional_defaults managed_file, b_resolved = []\<rparr> in
       case fst (resolver_normalize (se_sha en) (se_re en) (se_dec en) (se_net en) (None :: unit cache_ops option) () (b_rules b)) of
         Inl e \<Rightarrow> Inl (SetupRules e) | Inr n \<Rightarrow> Inr (b, n_rules n)))"

definition finish_install :: "setup_env \<Rightarrow> config \<Rightarrow> app_bundle option \<Rightarrow> app_bundle \<Rightarrow> rule list \<Rightarrow> (string \<times> string) option setup_act" where
  "finish_install en cfg existing b norm = seq (ensure_certificate en cfg) (\<lambda>_.
     if existing \<noteq> None then seq (enable_service en) (\<lambda>_. ret None)
     else seq (initialize_service en (b_config b) (b_rules b) norm) (\<lambda>shown. ret (Some shown)))"

definition run_install :: "setup_env \<Rightarrow> setup_options \<Rightarrow> string \<Rightarrow> (string \<times> string) option setup_act" where
  "run_install en opts0 input = (case collect en opts0 input of Inl e \<Rightarrow> setup_fail e | Inr opts \<Rightarrow>
     (case validate (se_up en) (install_config opts) of Some e \<Rightarrow> setup_fail (SetupConfig e) | None \<Rightarrow>
     seq (find_existing en (op_dry_run opts) (install_config opts)) (\<lambda>existing.
       let cfg = (case existing of None \<Rightarrow> install_config opts | Some b \<Rightarrow> b_config b) in
       case install_bundle en cfg existing of Inl e \<Rightarrow> setup_fail e | Inr (b, norm) \<Rightarrow>
       (case validate_dns_pool_references (b_rules b) (pool_names (cf_dns (b_config b))) of Some e \<Rightarrow> setup_fail (SetupPools e) | None \<Rightarrow>
       seq (on_runtime (ensure_runtime (ae_install (se_app en)) (dn_binary (cf_dns cfg)) (op_dry_run opts))) (\<lambda>_.
       seq (ensure_smart_dns_log_dir en (op_dry_run opts)) (\<lambda>_.
       if op_dry_run opts then ret None else finish_install en cfg existing b norm))))))"

text \<open>\<^verbatim>\<open>certificateConfig\<close> and \<^verbatim>\<open>runDeployCertificate\<close>; the lineage comes from a flag or the environment.\<close>

definition certificate_config :: "setup_env \<Rightarrow> string \<Rightarrow> config setup_act" where
  "certificate_config en path = seq (open_store path) (\<lambda>_. seq (on_database path SetupStore store_active) (\<lambda>act.
     case validate (se_up en) (b_config (rn_bundle act)) of Some e \<Rightarrow> setup_fail (SetupConfig e)
     | None \<Rightarrow> ret (b_config (rn_bundle act))))"

definition run_deploy_certificate :: "setup_env \<Rightarrow> string \<Rightarrow> string \<Rightarrow> bool \<Rightarrow> unit setup_act" where
  "run_deploy_certificate en database lineage install_hook =
     (if \<not> se_root en then fail NotRoot
      else seq (certificate_config en database) (\<lambda>cfg.
        if install_hook then ensure_certificate_deploy_hook cfg
        else if lineage = [] then fail NoLineage
        else if path_clean lineage \<noteq> path_join [''/etc/letsencrypt/live'', dn_dot_domain (cf_dns cfg)] then ret ()
        else seq (deploy_certificate_files (se_app en) cfg lineage) (\<lambda>_. reload_certificate_services (se_app en))))"

text \<open>\<^verbatim>\<open>os.Remove\<close> with \<^verbatim>\<open>os.ErrNotExist\<close> ignored.\<close>

definition remove_if_present :: "string \<Rightarrow> unit setup_act" where
  "remove_if_present p = seq (observe (\<lambda>c. disk_of c p)) (\<lambda>f. if f = None then io_step id else remove_path p)"

definition remove_certificate_deploy_hook :: "setup_env \<Rightarrow> string \<Rightarrow> unit setup_act" where
  "remove_certificate_deploy_hook en state_dir = seq (load_existing_bundle state_dir) (\<lambda>b. case b of None \<Rightarrow> ret ()
     | Some b \<Rightarrow> (case validate (se_up en) (b_config b) of Some e \<Rightarrow> setup_fail (SetupConfig e)
       | None \<Rightarrow> remove_if_present (certificate_hook_path (dn_dot_domain (cf_dns (b_config b))))))"

definition below :: "string \<Rightarrow> string \<Rightarrow> bool" where
  "below dir p \<longleftrightarrow> p = dir \<or> has_prefix p (dir @ ''/'')"

definition remove_tree :: "string \<Rightarrow> unit setup_act" where
  "remove_tree dir = io_step (\<lambda>c. on_access (\<lambda>a p. if below dir p then None else a p)
     (on_disk (\<lambda>d p. if below dir p then None else d p) (c\<lparr>cp_dbs := (\<lambda>p. if below dir p then None else cp_dbs c p)\<rparr>)))"

text \<open>Each step runs whatever the steps before it did; their errors are joined.\<close>

fun try_each :: "unit setup_act list \<Rightarrow> setup_error app_error list setup_act" where
  "try_each [] = ret []"
| "try_each (m # ms) = seq (attempt m) (\<lambda>r. seq (try_each ms) (\<lambda>es. ret (case r of Inl e \<Rightarrow> e # es | Inr _ \<Rightarrow> es)))"

definition joined :: "setup_error app_error list \<Rightarrow> unit setup_act" where
  "joined es = (if es = [] then ret () else setup_fail (AllOf es))"

definition run_uninstall :: "setup_env \<Rightarrow> bool \<Rightarrow> bool \<Rightarrow> unit setup_act" where
  "run_uninstall en purge yes =
     (if \<not> yes then setup_fail NeedsConfirmation
      else if \<not> se_root en then fail NotRoot
      else seq (try_each [remove_certificate_deploy_hook en ''/var/lib/5gws'',
          system_command en [''systemctl'', ''disable'', ''--now'', ''5gws.service''],
          remove_if_present unit_path,
          system_command en [''nft'', ''destroy'', ''table'', ''inet'', ''fivegws'']]) (\<lambda>es.
        seq (if purge then seq (remove_tree ''/var/lib/5gws'') (\<lambda>_. remove_tree ''/etc/5gws'') else ret ()) (\<lambda>_.
        seq (try_each [system_command en [''systemctl'', ''daemon-reload'']]) (\<lambda>es'. joined (es @ es')))))"

section \<open>What touches the databases\<close>

named_theorems dbs_rules \<open>the steps that leave the databases alone\<close>

lemma preserves_io_step: "(\<And>c. I c \<Longrightarrow> I (f c)) \<Longrightarrow> preserves I (io_step f)"
  unfolding io_step_def by (auto intro!: preserves_rules)

lemma preserves_group: "preserves I (smart_dns_group en)"
  by (simp add: smart_dns_group_def preserves_def wp_compute split: sum.split)

lemma dbs_created [simp]: "cp_dbs (created p m c) = cp_dbs c"
  by (simp add: created_def)

lemma dbs_steps [dbs_rules]:
  "preserves (\<lambda>c. cp_dbs c = D) (mkdir_all p m)" "preserves (\<lambda>c. cp_dbs c = D) (chmod p m)"
  "preserves (\<lambda>c. cp_dbs c = D) (chown p w)" "preserves (\<lambda>c. cp_dbs c = D) (write_path p s m)"
  "preserves (\<lambda>c. cp_dbs c = D) (read_path p)" "preserves (\<lambda>c. cp_dbs c = D) (remove_path p)"
  "preserves (\<lambda>c. cp_dbs c = D) (rename_path p q)" "preserves (\<lambda>c. cp_dbs c = D) (command en args)"
  "preserves (\<lambda>c. cp_dbs c = D) (smart_dns_group en)"
  unfolding mkdir_all_def chmod_def chown_def write_path_def read_path_def remove_path_def rename_path_def command_def
    change_access_def
  by (intro preserves_group preserves_call preserves_seq preserves_io_step; simp split: option.split)+

lemma dbs_runtime [dbs_rules]: "preserves (\<lambda>c. cp_dbs c = D) (on_runtime m)"
  unfolding on_runtime_def preserves_def by (auto simp: wp_simps)

lemma dbs_certificates [dbs_rules]:
  "preserves (\<lambda>c. cp_dbs c = D) (allow_smart_dns_certificate_read en cfg)"
  "preserves (\<lambda>c. cp_dbs c = D) (ensure_certificate_deploy_hook cfg)"
  unfolding allow_smart_dns_certificate_read_def ensure_certificate_deploy_hook_def Let_def
  by (auto intro!: preserves_rules dbs_rules preserves_each)

lemma dbs_install [dbs_rules]:
  "preserves (\<lambda>c. cp_dbs c = D) (ensure_certificate en cfg)" "preserves (\<lambda>c. cp_dbs c = D) (enable_service en)"
  "preserves (\<lambda>c. cp_dbs c = D) (ensure_smart_dns_log_dir en dry)" "preserves (\<lambda>c. cp_dbs c = D) (refuse_legacy_units en)"
  unfolding ensure_certificate_def request_certificate_def stat_path_def copy_path_def system_command_def Let_def
    enable_service_def write_service_unit_def ensure_smart_dns_log_dir_def smart_dns_user_def setup_fail_def refuse_legacy_units_def
  by (auto intro!: preserves_rules dbs_rules split: option.split)

lemma wp_on_database [wp_simps]: "wp (on_database path h m) Q E c \<longleftrightarrow>
    wp m (\<lambda>x d. Q x (c\<lparr>cp_dbs := (cp_dbs c)(path \<mapsto> d)\<rparr>)) (\<lambda>e d. E (AppInner (h e)) (c\<lparr>cp_dbs := (cp_dbs c)(path \<mapsto> d)\<rparr>)) (the_db path c)"
  by (simp add: on_database_def wp_simps)

lemma wp_open_store [wp_simps]: "wp (open_store path) Q E c \<longleftrightarrow> E AppIo c \<and> Q () (c\<lparr>cp_dbs := (cp_dbs c)(path \<mapsto> the_db path c)\<rparr>)"
  by (simp add: open_store_def wp_call)

lemma wp_setup_fail [wp_simps]: "wp (setup_fail e) Q E c = E (AppInner e) c"
  by (simp add: setup_fail_def wp_simps)

lemma wp_stat: "wp (call e (\<lambda>s. (Inr (f s), s))) Q E s \<longleftrightarrow> E e s \<and> Q (f s) s"
  by (simp add: wp_call)

lemma wp_seq_stat: "E e s \<Longrightarrow> wp (k (f s)) Q E s \<Longrightarrow> wp (seq (call e (\<lambda>s. (Inr (f s), s))) k) Q E s"
  by (rule wp_seq) (simp add: wp_stat)

lemma wp_seq_database:
  assumes "wp m (\<lambda>x d'. wp (k x) Q E (c\<lparr>cp_dbs := (cp_dbs c)(path \<mapsto> d')\<rparr>)) (\<lambda>e d'. E (AppInner (h e)) (c\<lparr>cp_dbs := (cp_dbs c)(path \<mapsto> d')\<rparr>)) d"
    and "the_db path c = d"
  shows "wp (seq (on_database path h m) k) Q E c"
  using assms by (intro wp_seq) (simp add: wp_on_database)

text \<open>An existing database is opened and read, and stays as it is.\<close>

lemma wp_load_existing:
  fixes D path dir
  defines "path \<equiv> database_path dir"
  assumes "cp_dbs c = D"
  shows "wp (load_existing_bundle dir)
    (\<lambda>b c'. cp_dbs c' = D \<and> (b = None \<longleftrightarrow> D path = None) \<and> (\<forall>d. D path = Some d \<longrightarrow> db_app_state d \<noteq> None))
    (\<lambda>_ c'. cp_dbs c' = D) c"
proof -
  have act: "wp store_active (\<lambda>_ d'. d' = d \<and> db_app_state d \<noteq> None) (\<lambda>_ d'. d' = d) d" for d
    by (cases "db_app_state d") (auto simp: store_active_def revision_for_def query_def wp_call scan_revision_eq split: option.split sum.split)
  have "wp (seq (open_store path) (\<lambda>_. seq (on_database path SetupStore store_active) (\<lambda>act. ret (Some (rn_bundle act)))))
      (\<lambda>b c'. cp_dbs c' = D \<and> b \<noteq> None \<and> db_app_state d \<noteq> None) (\<lambda>_ c'. cp_dbs c' = D) c" if "D path = Some d" for d
  proof -
    have d: "the_db path c = d" "(cp_dbs c)(path \<mapsto> d) = D" using that assms(2) by (auto simp: the_db_def)
    show ?thesis
      by (rule wp_seq, simp add: wp_simps d assms(2), rule wp_seq, simp add: wp_simps, rule wp_mono [OF act])
        (use d in \<open>auto simp: wp_simps the_db_def\<close>)
  qed
  note some = this
  show ?thesis
    unfolding load_existing_bundle_def Let_def path_def [symmetric]
    by (rule wp_seq, simp only: wp_stat assms(2), cases "D path")
      (auto simp: wp_simps assms(2) intro: wp_mono [OF some])
qed

section \<open>What an installation leaves\<close>

definition started :: "db computer \<Rightarrow> bool" where
  "started c \<longleftrightarrow> (\<exists>l. cp_log c = l @ [[''systemctl'', ''daemon-reload''], [''systemctl'', ''enable'', ''--now'', ''5gws.service'']])"

text \<open>A database with one revision, which is active and has the configuration, and one user, who can log in.\<close>

definition fresh_db :: "setup_env \<Rightarrow> config \<Rightarrow> string \<Rightarrow> db \<Rightarrow> bool" where
  "fresh_db en cfg password d \<longleftrightarrow> db_inv (se_up en) d \<and> db_sessions d = [] \<and>
     (\<exists>row. db_revisions d = [row] \<and> rr_status row = Active \<and> b_config (rr_payload row) = cfg \<and>
        db_app_state d = Some (rr_id row, rr_id row)) \<and>
     (\<exists>hash i. bc_generate (se_bcrypt en) password = Some hash \<and>
        db_users d = [\<lparr>ur_id = i, ur_username = ''admin'', ur_password_hash = hash, ur_last_login = None\<rparr>])"

definition same_except :: "string \<Rightarrow> (string \<Rightarrow> db option) \<Rightarrow> db computer \<Rightarrow> bool" where
  "same_except path D c \<longleftrightarrow> (\<forall>q. q \<noteq> path \<longrightarrow> cp_dbs c q = D q)"

lemma wp_command [wp_simps]: "wp (command en args) Q E c \<longleftrightarrow> E (AppCommand args) c \<and>
    (case ae_command en args (disk_of c) of None \<Rightarrow> E (AppCommand args) c
     | Some d \<Rightarrow> Q () ((on_disk (\<lambda>_. d) c)\<lparr>cp_log := cp_log c @ [args]\<rparr>))"
  by (simp add: command_def wp_call split: option.split)

lemma wp_enable:
  assumes "cp_dbs c = D"
  shows "wp (enable_service en) (\<lambda>_ c'. cp_dbs c' = D \<and> started c') (\<lambda>_ c'. cp_dbs c' = D) c"
proof -
  have "wp (seq (system_command en [''systemctl'', ''daemon-reload'']) (\<lambda>_. system_command en [''systemctl'', ''enable'', ''--now'', ''5gws.service'']))
      (\<lambda>_ c'. cp_dbs c' = D \<and> started c') (\<lambda>_ c'. cp_dbs c' = D) c'" if "cp_dbs c' = D" for c'
    using that unfolding system_command_def started_def
    by (intro wp_seq) (auto simp: wp_simps split: option.split)
  then show ?thesis
    unfolding enable_service_def write_service_unit_def
    by (intro wp_seq_preserves [OF dbs_steps(4) assms]) auto
qed

lemma wp_reset_admin_fresh:
  assumes "db_users d = []" and "db_sessions d = []"
  shows "wp (reset_admin bc now p) (\<lambda>u d'. us_username u = ''admin'' \<and> (\<exists>hash i. bc_generate bc p = Some hash \<and>
      d' = d\<lparr>db_user_seq := i, db_users := [\<lparr>ur_id = i, ur_username = ''admin'', ur_password_hash = hash, ur_last_login = None\<rparr>]\<rparr>))
    (\<lambda>_ _. True) d"
proof -
  have none: "find_user P d = None" for P using assms(1) by (simp add: find_user_def)
  have ins: "wp (call e (sql_insert_user n h)) (\<lambda>i d'. d' = d\<lparr>db_user_seq := i, db_users := [\<lparr>ur_id = i, ur_username = n, ur_password_hash = h, ur_last_login = None\<rparr>]\<rparr>)
      (\<lambda>_ _. True) d" for e n h
    by (simp add: wp_call sql_insert_user_def Let_def assms(1))
  have ses: "wp (call e (sql_update_sessions P f)) (\<lambda>_ d''. d'' = d') (\<lambda>_ _. True) d'" if "db_sessions d' = []" for e P f d'
    using that by (simp add: wp_call sql_update_sessions_def update_rows_def)
  have body: "wp (seq (call e (sql_insert_user ''admin'' h)) (\<lambda>i. seq (call e' (sql_update_sessions (P i) f)) (\<lambda>_. ret \<lparr>us_id = i, us_username = ''admin''\<rparr>)))
      (\<lambda>u d'. us_username u = ''admin'' \<and> (\<exists>i. d' = d\<lparr>db_user_seq := i, db_users := [\<lparr>ur_id = i, ur_username = ''admin'', ur_password_hash = h, ur_last_login = None\<rparr>]\<rparr>))
      (\<lambda>_ _. True) d" for e e' h P f
    by (rule wp_seq, rule wp_mono [OF ins], rule wp_seq, rule wp_mono [OF ses]) (use assms in \<open>auto simp: wp_simps\<close>)
  show ?thesis
    unfolding reset_admin_def
    by (auto simp: wp_simps auth_query_def none split: option.split intro!: wp_transaction wp_seq_stat intro: wp_mono [OF body])
qed

lemma db_inv_users: "db_inv up (d\<lparr>db_user_seq := i, db_users := us\<rparr>) = db_inv up d"
  by (simp add: db_inv_def rev_ids_def split: option.split)

lemma wp_initialize_service:
  fixes cfg
  defines "path \<equiv> database_path (sy_state_dir (cf_system cfg))"
  assumes dbs: "cp_dbs c = D" and fresh: "D path = None" and cfg: "apply_defaults cfg = cfg"
  shows "wp (initialize_service en cfg file norm)
    (\<lambda>shown c'. same_except path D c' \<and> started c' \<and> fst shown = ''admin'' \<and>
       (\<exists>d. cp_dbs c' path = Some d \<and> fresh_db en cfg (snd shown) d))
    (\<lambda>_ c'. same_except path D c') c"
proof -
  let ?E = "\<lambda>_ c'. same_except path D c'"
  let ?b = "\<lparr>b_config = cfg, b_rules = file, b_resolved = norm\<rparr>"
  define d1 where "d1 = (add_row (se_now en) Active (bundle_apply_defaults ?b) empty_db)\<lparr>db_app_state := Some (1, 1)\<rparr>"
  have d1: "db_users d1 = []" "db_sessions d1 = []" by (simp_all add: d1_def add_row_def empty_db_def)
  have conf: "b_config (bundle_apply_defaults ?b) = cfg" using cfg by (simp add: bundle_apply_defaults_def Let_def)
  have same: "same_except path D c'" if "cp_dbs c' = D(path \<mapsto> d)" for c' d
    using that by (simp add: same_except_def)
  have finish: "wp (seq (enable_service en) (\<lambda>_. ret (''admin'', pw)))
      (\<lambda>shown c'. same_except path D c' \<and> started c' \<and> fst shown = ''admin'' \<and> (\<exists>d. cp_dbs c' path = Some d \<and> fresh_db en cfg (snd shown) d)) ?E
      c'" if "cp_dbs c' = D(path \<mapsto> d)" "fresh_db en cfg pw d" for c' d pw
    by (rule wp_seq, rule wp_mono [OF wp_enable [OF that(1)]]) (use that in \<open>auto simp: wp_simps same_except_def\<close>)
  have admin: "wp (reset_admin (se_bcrypt en) (se_now en) pw) (\<lambda>u d. us_username u = ''admin'' \<and> fresh_db en cfg pw d) (\<lambda>_ _. True) d1"
    if v: "validate (se_up en) cfg = None" for pw
  proof (rule wp_mono [OF wp_reset_admin_fresh [OF d1]])
    have inv: "db_inv (se_up en) d1"
      using db_inv_initialize [OF db_inv_empty, of "se_up en" ?b "se_now en"] v conf by (simp add: d1_def empty_db_def)
    show "us_username u = ''admin'' \<and> fresh_db en cfg pw d"
      if "us_username u = ''admin'' \<and> (\<exists>hash i. bc_generate (se_bcrypt en) pw = Some hash \<and>
        d = d1\<lparr>db_user_seq := i, db_users := [\<lparr>ur_id = i, ur_username = ''admin'', ur_password_hash = hash, ur_last_login = None\<rparr>]\<rparr>)" for u d
      using that inv d1(2) conf by (auto simp: fresh_db_def db_inv_users) (simp add: d1_def add_row_def empty_db_def new_row_def)
  qed simp
  have password: "wp (seq (on_database path SetupAuth (generate_password (se_raw en))) (\<lambda>pw.
        seq (on_database path SetupAuth (reset_admin (se_bcrypt en) (se_now en) pw)) (\<lambda>u. seq (enable_service en) (\<lambda>_. ret (us_username u, pw)))))
      (\<lambda>shown c'. same_except path D c' \<and> started c' \<and> fst shown = ''admin'' \<and> (\<exists>d. cp_dbs c' path = Some d \<and> fresh_db en cfg (snd shown) d)) ?E
      c1" (is "wp (seq _ ?k) ?Q _ _") if c1: "cp_dbs c1 = D(path \<mapsto> d1)" and v: "validate (se_up en) cfg = None" for c1
  proof -
    have the: "the_db path c1 = d1" "c1\<lparr>cp_dbs := (cp_dbs c1)(path \<mapsto> d1)\<rparr> = c1" using c1 by (simp_all add: the_db_def)
    have "wp (?k pw) ?Q ?E c1" for pw
      by (rule wp_seq_database [OF _ the(1)], rule wp_mono [OF admin [OF v]])
        (auto simp: c1 intro!: finish intro: same)
    then show ?thesis
      by (intro wp_seq_database [OF _ the(1)]) (auto simp: generate_password_def wp_stat the intro: same [OF c1])
  qed
  show ?thesis
    unfolding initialize_service_def Let_def path_def [symmetric]
  proof (rule wp_seq_preserves [OF dbs_steps(1) dbs], goal_cases)
    case (2 _ c0)
    then have c0: "cp_dbs c0 = D" "the_db path c0 = empty_db" using fresh by (auto simp: the_db_def)
    have seq0: "db_rev_seq empty_db = 0" by (simp add: empty_db_def)
    show ?case
      by (rule wp_seq, simp only: wp_open_store c0, intro conjI, simp add: same_except_def c0,
          rule wp_seq_database, rule wp_mono [OF wp_initialize [OF db_inv_empty]])
        (auto simp: the_db_def c0 conf d1_def [symmetric] seq0 intro!: password intro: same)
  qed (simp add: same_except_def)
qed

lemma wp_finish_install:
  fixes cfg en
  defines "path \<equiv> database_path (sy_state_dir (cf_system cfg))"
  assumes dbs: "cp_dbs c = D" and new: "existing = None \<Longrightarrow> D path = None \<and> b_config b = cfg \<and> apply_defaults cfg = cfg"
  shows "wp (finish_install en cfg existing b norm)
    (\<lambda>shown c'. started c' \<and> same_except path D c' \<and> (case existing of Some _ \<Rightarrow> shown = None \<and> cp_dbs c' = D
      | None \<Rightarrow> \<exists>password d. shown = Some (''admin'', password) \<and> cp_dbs c' path = Some d \<and> fresh_db en cfg password d))
    (\<lambda>_ c'. same_except path D c' \<and> (existing \<noteq> None \<longrightarrow> cp_dbs c' = D)) c"
  unfolding finish_install_def
proof (rule wp_seq_preserves [OF dbs_install(1) dbs], goal_cases)
  case (2 _ c')
  show ?case
  proof (cases existing)
    case None
    with new have n: "D path = None" "b_config b = cfg" "apply_defaults cfg = cfg" by auto
    have "wp (seq (initialize_service en cfg (b_rules b) norm) (\<lambda>shown. ret (Some shown)))
      (\<lambda>shown c'. started c' \<and> same_except path D c' \<and>
        (\<exists>password d. shown = Some (''admin'', password) \<and> cp_dbs c' path = Some d \<and> fresh_db en cfg password d))
      (\<lambda>_ c'. same_except path D c') c'"
      by (rule wp_seq, rule wp_mono [OF wp_initialize_service [OF 2 n(1) [unfolded path_def] n(3), folded path_def]])
        (auto simp: wp_simps)
    then show ?thesis by (simp add: None n(2))
  next
    case (Some e)
    have "wp (seq (enable_service en) (\<lambda>_. ret (None :: (string \<times> string) option)))
      (\<lambda>shown c'. started c' \<and> same_except path D c' \<and> shown = None \<and> cp_dbs c' = D) (\<lambda>_ c'. same_except path D c' \<and> cp_dbs c' = D) c'"
      by (rule wp_seq, rule wp_mono [OF wp_enable [OF 2]]) (auto simp: wp_simps same_except_def)
    then show ?thesis by (simp add: Some)
  qed
qed (simp add: same_except_def)

lemma install_config_defaults: "apply_defaults (install_config opts) = install_config opts"
  by (simp add: install_config_def Let_def apply_defaults_twice)

lemma install_bundle_fresh:
  "install_bundle en cfg None = Inr (b, norm) \<Longrightarrow> b_config b = apply_defaults cfg"
  by (auto simp: install_bundle_def Let_def bundle_apply_defaults_def split: sum.splits)

lemma wp_runtime_dry: "wp (on_runtime (ensure_runtime ie binary True)) (\<lambda>_ c'. c' = c) (\<lambda>_ c'. c' = c) c"
proof -
  have "wp (ensure_runtime ie binary True) (\<lambda>_ m'. m' = m) (\<lambda>_ m'. m' = m) m" for m
    unfolding wp_def
  proof
    fix fs
    show "outcome (\<lambda>_ m'. m' = m) (\<lambda>_ m'. m' = m) (ensure_runtime ie binary True (m, fs))"
      using ensure_runtime_dry_run [of ie binary m fs] by (auto simp: outcome_def split: sum.split)
  qed
  from wp_mono [OF this] show ?thesis by (simp add: on_runtime_def wp_lift)
qed

definition install_path :: "setup_options \<Rightarrow> string" where
  "install_path opts = database_path (sy_state_dir (cf_system (install_config opts)))"

lemma wp_find_existing:
  assumes "cp_dbs c = D"
  shows "wp (find_existing en False cfg)
    (\<lambda>b c'. cp_dbs c' = D \<and> (b = None \<longleftrightarrow> D (database_path (sy_state_dir (cf_system cfg))) = None)) (\<lambda>_ c'. cp_dbs c' = D) c"
proof (cases "se_root en")
  case True
  have "wp (seq (load_existing_bundle (sy_state_dir (cf_system cfg))) (\<lambda>existing. case existing of
        None \<Rightarrow> ret None
      | Some b \<Rightarrow> (case validate_install_identity cfg (b_config b) of Some e \<Rightarrow> setup_fail e | None \<Rightarrow> ret (Some b))))
    (\<lambda>b c'. cp_dbs c' = D \<and> (b = None \<longleftrightarrow> D (database_path (sy_state_dir (cf_system cfg))) = None)) (\<lambda>_ c'. cp_dbs c' = D) c'"
    if "cp_dbs c' = D" for c'
    by (rule wp_seq, rule wp_mono [OF wp_load_existing [OF that]]) (auto simp: wp_simps split: option.split)
  with True show ?thesis
    by (simp add: find_existing_def wp_seq_preserves [OF dbs_install(4) assms])
qed (simp add: find_existing_def wp_simps assms)

lemma wp_run_install:
  assumes opts: "collect en opts0 input = Inr opts" and real: "\<not> op_dry_run opts" and dbs: "cp_dbs c = D"
  shows "wp (run_install en opts0 input)
    (\<lambda>shown c'. started c' \<and> same_except (install_path opts) D c' \<and> (if D (install_path opts) \<noteq> None then shown = None \<and> cp_dbs c' = D
       else \<exists>password d. shown = Some (''admin'', password) \<and> cp_dbs c' (install_path opts) = Some d \<and> fresh_db en (install_config opts) password d))
    (\<lambda>_ c'. same_except (install_path opts) D c' \<and> (D (install_path opts) \<noteq> None \<longrightarrow> cp_dbs c' = D)) c"
    (is "wp _ ?Q ?E _")
proof -
  have err: "?E e c'" if "cp_dbs c' = D" for e c' using that by (simp add: same_except_def)
  have last: "wp (finish_install en cfg existing b norm) ?Q ?E c'"
    if "cp_dbs c' = D" "existing = None \<longleftrightarrow> D (install_path opts) = None"
      and "cfg = (case existing of None \<Rightarrow> install_config opts | Some b \<Rightarrow> b_config b)"
      and "install_bundle en cfg existing = Inr (b, norm)" for c' existing cfg b norm
    using that
    by (intro wp_mono [OF wp_finish_install [OF that(1)]])
      (auto simp: install_path_def install_config_defaults same_except_def dest!: install_bundle_fresh split: option.splits)
  have tail: "wp (seq (on_runtime m) (\<lambda>_. seq (ensure_smart_dns_log_dir en False) (\<lambda>_. finish_install en cfg existing b norm))) ?Q ?E c'"
    if "cp_dbs c' = D" "existing = None \<longleftrightarrow> D (install_path opts) = None"
      and "cfg = (case existing of None \<Rightarrow> install_config opts | Some b \<Rightarrow> b_config b)"
      and "install_bundle en cfg existing = Inr (b, norm)" for m c' existing cfg b norm
    by (rule wp_seq_preserves [OF dbs_runtime that(1) err], assumption, rule wp_seq_preserves [OF dbs_install(3) _ err], assumption, assumption)
      (rule last [OF _ that(2-4)])
  have rest: "wp (let cfg = (case existing of None \<Rightarrow> install_config opts | Some b \<Rightarrow> b_config b) in
       case install_bundle en cfg existing of Inl e \<Rightarrow> setup_fail e | Inr (b, norm) \<Rightarrow>
       (case validate_dns_pool_references (b_rules b) (pool_names (cf_dns (b_config b))) of Some e \<Rightarrow> setup_fail (SetupPools e) | None \<Rightarrow>
       seq (on_runtime (ensure_runtime (ae_install (se_app en)) (dn_binary (cf_dns cfg)) False)) (\<lambda>_.
       seq (ensure_smart_dns_log_dir en False) (\<lambda>_. finish_install en cfg existing b norm)))) ?Q ?E c'"
    if "cp_dbs c' = D" "existing = None \<longleftrightarrow> D (install_path opts) = None" for c' existing
  proof (cases "install_bundle en (case existing of None \<Rightarrow> install_config opts | Some b \<Rightarrow> b_config b) existing")
    case (Inl e)
    then show ?thesis unfolding Let_def Inl sum.case wp_setup_fail using err [OF that(1)] by blast
  next
    case (Inr bn)
    obtain b norm where bn: "bn = (b, norm)" by (cases bn)
    show ?thesis
    proof (cases "validate_dns_pool_references (b_rules b) (pool_names (cf_dns (b_config b)))")
      case None
      show ?thesis using tail [OF that refl Inr [unfolded bn]] unfolding Let_def Inr bn sum.case prod.case None option.case .
    next
      case (Some e)
      show ?thesis using err [OF that(1)] unfolding Let_def Inr bn sum.case prod.case Some option.case wp_setup_fail by blast
    qed
  qed
  show ?thesis
  proof (cases "validate (se_up en) (install_config opts)")
    case None
    have dry: "op_dry_run opts = False" using real by simp
    have found: "wp (find_existing en False (install_config opts)) (\<lambda>b c'. cp_dbs c' = D \<and> (b = None \<longleftrightarrow> D (install_path opts) = None))
        (\<lambda>_ c'. cp_dbs c' = D) c"
      using wp_find_existing [OF dbs] by (simp add: install_path_def)
    show ?thesis
      unfolding run_install_def opts sum.case None option.case dry if_False
    proof (rule wp_seq, rule wp_mono [OF found], goal_cases)
      case (1 b c')
      then show ?case by (intro rest) simp_all
    next
      case (2 e c')
      then show ?case by (rule err)
    qed
  next
    case (Some e)
    with opts err [OF dbs] show ?thesis by (simp add: run_install_def wp_setup_fail)
  qed
qed

lemma seq_ret: "seq (ret x) k = k x"
  by (simp add: seq_def ret_def fun_eq_iff)

lemma wp_run_install_dry:
  assumes opts: "collect en opts0 input = Inr opts" and dry: "op_dry_run opts"
  shows "wp (run_install en opts0 input) (\<lambda>shown c'. c' = c \<and> shown = None) (\<lambda>_ c'. c' = c) c"
proof -
  have tail: "wp (seq (on_runtime (ensure_runtime ie binary True)) (\<lambda>_. ret None)) (\<lambda>shown c'. c' = c \<and> shown = None) (\<lambda>_ c'. c' = c) c"
    for ie binary
    by (rule wp_seq, rule wp_mono [OF wp_runtime_dry]) (simp_all add: wp_simps)
  have dry': "op_dry_run opts = True" using dry by simp
  show ?thesis
    unfolding run_install_def opts sum.case find_existing_def ensure_smart_dns_log_dir_def dry' if_True seq_ret Let_def option.case
    using tail by (auto simp: wp_setup_fail split: option.split sum.split)
qed

lemma login_fresh:
  assumes "fresh_db en cfg password d" and "\<forall>p h. bc_generate (se_bcrypt en) p = Some h \<longrightarrow> bc_compare (se_bcrypt en) h p"
  shows "\<exists>u token expires. fst (login (se_bcrypt en) sha ttl now raw ''admin'' password (d, [])) = Inr (u, token, expires)"
  using assms
  by (auto simp: fresh_db_def login_def act_defs auth_query_def find_user_def new_token_def Let_def sql_insert_session_def
      sql_update_users_def)

text \<open>
  Claim C31. However an installation ends, a dry run has changed nothing; where there was a database for the
  configuration, every database is as it was and no credentials are shown; other databases are not touched.
  An installation that reports success has started the service last, and where there was no database it
  created one that satisfies the invariant of the store, whose only revision is active and has the
  configuration of the answers, and whose only user logs in with the credentials that were shown.
\<close>

theorem install_outcome:
  assumes opts: "collect en opts0 input = Inr opts" and run: "run_install en opts0 input (c, fs) = (r, c', fs')"
    and bcrypt: "\<forall>p h. bc_generate (se_bcrypt en) p = Some h \<longrightarrow> bc_compare (se_bcrypt en) h p"
  shows "if op_dry_run opts then c' = c \<and> (\<forall>shown. r = Inr shown \<longrightarrow> shown = None)
    else (\<forall>q. q \<noteq> install_path opts \<or> cp_dbs c q \<noteq> None \<longrightarrow> cp_dbs c' q = cp_dbs c q) \<and>
      (\<forall>shown. r = Inr shown \<longrightarrow> started c' \<and> (if cp_dbs c (install_path opts) \<noteq> None then shown = None
         else \<exists>password d. shown = Some (''admin'', password) \<and> cp_dbs c' (install_path opts) = Some d \<and>
           fresh_db en (install_config opts) password d \<and>
           (\<forall>sha ttl now raw. \<exists>u token expires.
              fst (login (se_bcrypt en) sha ttl now raw ''admin'' password (d, [])) = Inr (u, token, expires))))"
proof (cases "op_dry_run opts")
  case True
  from wp_run [OF wp_run_install_dry [OF opts True] run] True show ?thesis by (cases r) auto
next
  case False
  have same: "cp_dbs c' q = cp_dbs c q" if "same_except path (cp_dbs c) c'" "cp_dbs c path \<noteq> None \<longrightarrow> cp_dbs c' = cp_dbs c"
    "q \<noteq> path \<or> cp_dbs c q \<noteq> None" for path q
    using that by (auto simp: same_except_def)
  note post = wp_run [OF wp_run_install [OF opts False refl] run]
  have dbs: "\<forall>q. q \<noteq> install_path opts \<or> cp_dbs c q \<noteq> None \<longrightarrow> cp_dbs c' q = cp_dbs c q"
    using post same [of "install_path opts"] by (cases r) (simp_all split: if_splits)
  show ?thesis
  proof (cases r)
    case (Inr shown)
    have login: "\<forall>sha ttl now raw. \<exists>u token expires. fst (login (se_bcrypt en) sha ttl now raw ''admin'' password (d, [])) = Inr (u, token, expires)"
      if "fresh_db en (install_config opts) password d" for password d
      using login_fresh [OF that bcrypt] by blast
    note post' = post [unfolded Inr sum.case]
    have shown: "if cp_dbs c (install_path opts) \<noteq> None then shown = None
         else \<exists>password d. shown = Some (''admin'', password) \<and> cp_dbs c' (install_path opts) = Some d \<and>
           fresh_db en (install_config opts) password d \<and>
           (\<forall>sha ttl now raw. \<exists>u token expires.
              fst (login (se_bcrypt en) sha ttl now raw ''admin'' password (d, [])) = Inr (u, token, expires))"
    proof (cases "cp_dbs c (install_path opts) = None")
      case True
      with post' obtain password d where "shown = Some (''admin'', password)" "cp_dbs c' (install_path opts) = Some d"
          "fresh_db en (install_config opts) password d" by auto
      with login [of password d] True show ?thesis by simp
    qed (use post' in simp)
    with dbs post' False show ?thesis by (simp add: Inr)
  qed (use dbs False in simp)
qed

text \<open>
  A database that was opened but never initialised, as a failure between the two leaves it, makes every
  later installation fail. A failure after the initialisation is worse: the next run resumes and shows no
  credentials, by \<open>install_outcome\<close>, so the generated password is never shown.
\<close>

lemma opened_database_blocks:
  assumes opts: "collect en opts0 input = Inr opts" and real: "\<not> op_dry_run opts"
    and half: "cp_dbs c (install_path opts) = Some d" "db_app_state d = None"
  shows "\<exists>e. fst (run_install en opts0 input (c, fs)) = Inl e"
proof -
  have real': "op_dry_run opts = False" using real by simp
  have load: "wp (load_existing_bundle (sy_state_dir (cf_system (install_config opts)))) (\<lambda>_ _. False) (\<lambda>_ _. True) c'"
    if "cp_dbs c' = cp_dbs c" for c'
    using half by (intro wp_mono [OF wp_load_existing [OF that]]) (auto simp: install_path_def)
  have "wp (find_existing en False (install_config opts)) (\<lambda>_ _. False) (\<lambda>_ _. True) c"
  proof (cases "se_root en")
    case True
    have "wp (seq (refuse_legacy_units en) (\<lambda>_. seq (load_existing_bundle (sy_state_dir (cf_system (install_config opts)))) k))
        (\<lambda>_ _. False) (\<lambda>_ _. True) c" for k :: "app_bundle option \<Rightarrow> app_bundle option setup_act"
      by (rule wp_seq_preserves [OF dbs_install(4) refl], simp, rule wp_seq, rule wp_mono [OF load]) simp_all
    with True show ?thesis by (simp add: find_existing_def)
  qed (simp add: find_existing_def wp_simps)
  then have find: "wp (seq (find_existing en False (install_config opts)) k) (\<lambda>_ _. False) (\<lambda>_ _. True) c"
    for k :: "app_bundle option \<Rightarrow> (string \<times> string) option setup_act"
    by (intro wp_seq, elim wp_mono) simp_all
  have "wp (run_install en opts0 input) (\<lambda>_ _. False) (\<lambda>_ _. True) c"
    unfolding run_install_def opts sum.case real'
    by (cases "validate (se_up en) (install_config opts)") (simp_all add: find wp_setup_fail)
  then have "outcome (\<lambda>_ _. False) (\<lambda>_ _. True) (run_install en opts0 input (c, fs))" by (simp add: wp_def)
  then show ?thesis by (auto simp: outcome_def split: sum.splits)
qed

section \<open>Removing the service\<close>

lemma dbs_load [dbs_rules]: "preserves (\<lambda>c. cp_dbs c = D) (load_existing_bundle dir)"
  unfolding preserves_def by (auto intro: wp_mono [OF wp_load_existing])

lemma dbs_try_each: "(\<And>m. m \<in> set ms \<Longrightarrow> preserves I m) \<Longrightarrow> preserves I (try_each ms)"
  by (induction ms) (auto intro!: preserves_rules)

lemma dbs_uninstall [dbs_rules]:
  "preserves (\<lambda>c. cp_dbs c = D) (remove_if_present p)" "preserves (\<lambda>c. cp_dbs c = D) (remove_certificate_deploy_hook en dir)"
  unfolding remove_if_present_def remove_certificate_deploy_hook_def setup_fail_def
  by (auto intro!: preserves_rules dbs_rules preserves_io_step split: option.split)

text \<open>Without \<^verbatim>\<open>--purge\<close> the databases stay, whatever fails; with it, success has removed those of the service.\<close>

lemma uninstall_databases:
  assumes "run_uninstall en purge yes (c, fs) = (r, c', fs')"
  shows "(\<not> purge \<longrightarrow> cp_dbs c' = cp_dbs c) \<and> (r = Inr () \<longrightarrow> yes \<and> se_root en \<and> (purge \<longrightarrow> cp_dbs c' =
     (\<lambda>q. if below ''/var/lib/5gws'' q \<or> below ''/etc/5gws'' q then None else cp_dbs c q)))"
proof -
  define kept where "kept = (if purge then (\<lambda>q. if below ''/var/lib/5gws'' q \<or> below ''/etc/5gws'' q then None else cp_dbs c q) else cp_dbs c)"
  define steps where "steps = try_each [remove_certificate_deploy_hook en ''/var/lib/5gws'',
          system_command en [''systemctl'', ''disable'', ''--now'', ''5gws.service''],
          remove_if_present unit_path,
          system_command en [''nft'', ''destroy'', ''table'', ''inet'', ''fivegws'']]"
  define reload where "reload = try_each [system_command en [''systemctl'', ''daemon-reload'']]"
  define wipe where "wipe = (if purge then seq (remove_tree ''/var/lib/5gws'') (\<lambda>_. remove_tree ''/etc/5gws'') else ret () :: unit setup_act)"
  let ?E = "\<lambda>_ c'. \<not> purge \<longrightarrow> cp_dbs c' = cp_dbs c"
  have steps: "preserves (\<lambda>c. cp_dbs c = D) steps" "preserves (\<lambda>c. cp_dbs c = D) reload" for D
    unfolding steps_def reload_def
    by (rule dbs_try_each; simp only: list.set; elim insertE emptyE; simp add: dbs_rules system_command_def)+
  have joined: "wp (joined es) (\<lambda>_ c'. cp_dbs c' = kept) ?E c2" if "cp_dbs c2 = kept" for es c2
    using that by (simp add: joined_def wp_simps wp_setup_fail kept_def)
  have reload: "wp (seq reload (\<lambda>es'. joined (es @ es'))) (\<lambda>_ c'. cp_dbs c' = kept) ?E c2" if "cp_dbs c2 = kept" for es c2
    by (rule wp_seq, rule wp_mono [OF preservesD [OF steps(2) that]], rule joined, assumption, simp add: kept_def)
  have tree: "wp (remove_tree dir) (\<lambda>_ c'. cp_dbs c' = (\<lambda>q. if below dir q then None else D q)) (\<lambda>_ _. True) c1"
    if "cp_dbs c1 = D" for dir c1 D
    using that by (auto simp: remove_tree_def wp_simps fun_eq_iff)
  have wipe: "wp wipe (\<lambda>_ c'. cp_dbs c' = kept) ?E c2" if "cp_dbs c2 = cp_dbs c" for c2
  proof (cases purge)
    case True
    have "wp (seq (remove_tree ''/var/lib/5gws'') (\<lambda>_. remove_tree ''/etc/5gws'')) (\<lambda>_ c'. cp_dbs c' = kept) (\<lambda>_ _. True) c2"
      by (rule wp_seq, rule wp_mono [OF tree [OF that]], rule wp_mono [OF tree], assumption) (auto simp: kept_def True fun_eq_iff)
    then show ?thesis by (simp add: wipe_def True)
  qed (use that in \<open>simp add: wipe_def kept_def wp_simps\<close>)
  have body: "wp (seq steps (\<lambda>es. seq wipe (\<lambda>_. seq reload (\<lambda>es'. joined (es @ es'))))) (\<lambda>_ c'. cp_dbs c' = kept) ?E c"
    by (rule wp_seq, rule wp_mono [OF preservesD [OF steps(1) refl]], rule wp_seq, rule wp_mono [OF wipe], assumption,
        rule reload, assumption) simp_all
  have "wp (run_uninstall en purge yes) (\<lambda>_ c'. cp_dbs c' = kept \<and> yes \<and> se_root en) ?E c"
  proof (cases "yes \<and> se_root en")
    case True
    then have "run_uninstall en purge yes = seq steps (\<lambda>es. seq wipe (\<lambda>_. seq reload (\<lambda>es'. joined (es @ es'))))"
      by (simp add: run_uninstall_def steps_def wipe_def reload_def del: try_each.simps)
    with body True show ?thesis by simp
  qed (auto simp: run_uninstall_def wp_simps wp_setup_fail)
  from wp_run [OF this assms] show ?thesis by (cases r) (auto simp: kept_def)
qed

section \<open>A sample installation\<close>

definition sample_runtime :: install_env where
  "sample_runtime = (sample_install_env [])\<lparr>ie_look_path := (\<lambda>_ n. Some (''/usr/bin/'' @ n))\<rparr>"

definition sample_setup :: setup_env where
  "sample_setup = \<lparr>se_app = sample_app_env\<lparr>ae_install := sample_runtime\<rparr>, se_up = (\<lambda>_. None), se_re = plain_re,
     se_dec = no_decoders\<lparr>json_parse := (\<lambda>_. Some (JObj [(''rules'', JArr [JObj [(''domain_suffix'', JStr ''example.org'')]])]))\<rparr>,
     se_net = no_net\<lparr>http_do := (\<lambda>_. Some \<lparr>rs_status = 200, rs_etag = [], rs_last_modified = [], rs_body = ''rules''\<rparr>)\<rparr>,
     se_sha = (\<lambda>_. ''digest''), se_bcrypt = sample_bcrypt, se_now = 7, se_raw = replicate 18 0, se_root = True,
     se_routes = None, se_user = (\<lambda>_. Some ''65534''), se_glob = (\<lambda>_ _. [])\<rparr>"

definition sample_options :: setup_options where
  "sample_options = \<lparr>op_gateway_ip = ''10.0.0.1'', op_internal_cidr = ''10.0.0.0/24'', op_ingress_iface = ''eth0'',
     op_dot_domain = ''dns.example.com.'', op_panel_listen = [], op_ios_enabled = False, op_non_interactive = True,
     op_dry_run = False\<rparr>"

definition sample_host :: "db computer" where
  "sample_host = \<lparr>cp_machine = \<lparr>mc_disk = [''/etc/5gws/certs/fullchain.pem'' \<mapsto> ''cert'', ''/etc/5gws/certs/privkey.pem'' \<mapsto> ''key''], mc_tmp = []\<rparr>,
     cp_access = (\<lambda>_. Some ((0, 0), 0)), cp_dbs = Map.empty, cp_log = []\<rparr>"

lemma sample_setup_checks:
  "collect sample_setup sample_options [] = Inr sample_options"
  "validate (se_up sample_setup) (install_config sample_options) = None"
  "case install_bundle sample_setup (install_config sample_options) None of Inl _ \<Rightarrow> False
   | Inr (b, _) \<Rightarrow> validate_dns_pool_references (b_rules b) (pool_names (cf_dns (b_config b))) = None"
  by code_simp+

text \<open>Nothing fails, and every path has an owner: the steps that succeed there and leave the databases alone.\<close>

definition ready :: "db computer \<Rightarrow> bool" where
  "ready c \<longleftrightarrow> (\<forall>p. cp_access c p \<noteq> None) \<and>
     (\<forall>p \<in> {''/etc/5gws/certs/fullchain.pem'', ''/etc/5gws/certs/privkey.pem''}. disk_of c p \<noteq> None)"

definition goes :: "'a setup_act \<Rightarrow> bool" where
  "goes m \<longleftrightarrow> (\<forall>c. ready c \<longrightarrow> (\<exists>x c'. m (c, []) = (Inr x, c', []) \<and> ready c' \<and> cp_dbs c' = cp_dbs c))"

lemma goes_seq: "goes m \<Longrightarrow> (\<And>x. goes (k x)) \<Longrightarrow> goes (seq m k)"
  unfolding goes_def seq_def by (metis (no_types, lifting) old.prod.case sum.simps(6))

lemma goes_basic: "goes (ret x)" "goes (observe f)"
  by (auto simp: goes_def ret_def observe_def)

lemma goes_io_step: "(\<And>c. ready c \<Longrightarrow> ready (f c) \<and> cp_dbs (f c) = cp_dbs c) \<Longrightarrow> goes (io_step f)"
  by (simp add: goes_def io_step_def call_cases)

lemma goes_access: "goes (change_access p f)"
  unfolding goes_def
proof (intro allI impI)
  fix c
  assume ready: "ready c"
  then have "cp_access c p \<noteq> None" by (simp add: ready_def)
  then obtain x where "cp_access c p = Some x" by blast
  with ready show "\<exists>x c'. change_access p f (c, []) = (Inr x, c', []) \<and> ready c' \<and> cp_dbs c' = cp_dbs c"
    by (auto simp: change_access_def call_cases ready_def simp del: split_paired_Ex not_None_eq)
qed

lemma goes_stat: "goes (stat_path p)"
  by (auto simp: goes_def stat_path_def seq_def attempt_def read_path_def call_cases ret_def split: option.split)

lemma goes_command: "goes (command (se_app sample_setup) args)"
  by (auto simp: goes_def command_def call_cases sample_setup_def sample_app_env_def ready_def)

lemma sample_group: "first_group (se_app sample_setup) [''nogroup'', ''nobody''] = Inr 65534"
proof -
  have "atoi ''65534'' = Some 65534" by code_simp
  then show ?thesis by (simp add: sample_setup_def sample_app_env_def)
qed

lemma goes_group: "goes (smart_dns_group (se_app sample_setup))"
  by (simp add: goes_def smart_dns_group_def compute_def sample_group del: first_group.simps)

lemma ready_created: "ready c \<Longrightarrow> ready (created p m c)" "ready c \<Longrightarrow> ready (on_disk (\<lambda>d. d(p \<mapsto> s)) c)"
  by (auto simp: ready_def created_def)

lemma goes_paths: "goes (mkdir_all p m)" "goes (chmod p m)" "goes (chown p w)" "goes (write_path p s m)"
  unfolding mkdir_all_def chmod_def chown_def write_path_def
  by (intro goes_seq goes_io_step goes_access; simp add: ready_created)+

lemma goes_each: "(\<And>x. goes (f x)) \<Longrightarrow> goes (each f xs)"
  by (induction xs) (auto intro: goes_seq goes_basic)

lemmas goes_rules = goes_seq goes_basic goes_paths goes_each goes_stat goes_command goes_group

lemma goes_sample:
  "goes (allow_smart_dns_certificate_read (se_app sample_setup) cfg)" "goes (ensure_certificate_deploy_hook cfg)"
  "goes (enable_service sample_setup)"
  unfolding allow_smart_dns_certificate_read_def ensure_certificate_deploy_hook_def enable_service_def system_command_def
    write_service_unit_def Let_def
  by (intro goes_rules)+

lemma sample_config_simps:
  "sy_state_dir (cf_system (install_config sample_options)) = ''/var/lib/5gws''"
  "dn_cert_file (cf_dns (install_config sample_options)) = ''/etc/5gws/certs/fullchain.pem''"
  "dn_key_file (cf_dns (install_config sample_options)) = ''/etc/5gws/certs/privkey.pem''"
  "length (b64url_encode (replicate 18 0)) = 24"
  "atoi ''65534'' = Some 65534"
  by code_simp+

lemma goes_same: "goes m \<Longrightarrow> (\<And>c. ready c \<Longrightarrow> m' (c, []) = m (c, [])) \<Longrightarrow> goes m'"
  by (simp add: goes_def)

lemma run_stat: "ready c \<Longrightarrow> p \<in> {''/etc/5gws/certs/fullchain.pem'', ''/etc/5gws/certs/privkey.pem''} \<Longrightarrow>
    stat_path p (c, []) = (Inr True, c, [])"
  by (auto simp: ready_def stat_path_def seq_def attempt_def read_path_def call_cases ret_def)

lemma goes_ensure: "goes (ensure_certificate sample_setup (install_config sample_options))"
proof (rule goes_same)
  show "goes (seq (allow_smart_dns_certificate_read (se_app sample_setup) (install_config sample_options))
      (\<lambda>_. ensure_certificate_deploy_hook (install_config sample_options)))"
    by (intro goes_seq goes_sample)
qed (simp add: ensure_certificate_def seq_def run_stat sample_config_simps)

lemma goes_user: "goes (smart_dns_user sample_setup)"
  by (simp add: smart_dns_user_def sample_setup_def sample_config_simps goes_basic)

lemma goes_log_dir: "goes (ensure_smart_dns_log_dir sample_setup False)"
  unfolding ensure_smart_dns_log_dir_def if_False by (intro goes_rules goes_user)

lemma goes_runtime: "goes (on_runtime (ensure_runtime (ae_install (se_app sample_setup)) binary False))"
proof -
  have "ensure_runtime (ae_install (se_app sample_setup)) binary False (m, []) = (Inr (), m, [])" for m
    by (simp add: sample_setup_def sample_runtime_def ensure_runtime_def ensure_system_packages_def ensure_smart_dns_def
        ensure_ss_rust_def act_defs)
  then show ?thesis by (simp add: goes_def on_runtime_def lift_act_def)
qed

text \<open>The steps on the new database succeed too.\<close>

lemma goes_then:
  assumes "goes m" and "ready c" and "\<And>x c'. ready c' \<Longrightarrow> cp_dbs c' = cp_dbs c \<Longrightarrow> \<exists>y w. k x (c', []) = (Inr y, w)"
  shows "\<exists>y w. seq m k (c, []) = (Inr y, w)"
proof -
  obtain x c' where "m (c, []) = (Inr x, c', [])" "ready c'" "cp_dbs c' = cp_dbs c" using assms(1,2) unfolding goes_def by blast
  with assms(3) show ?thesis by (simp add: seq_def)
qed

lemma on_database_run: "m (the_db path c, []) = (Inr x, d, []) \<Longrightarrow>
    seq (on_database path h m) k (c, []) = k x (c\<lparr>cp_dbs := (cp_dbs c)(path \<mapsto> d)\<rparr>, [])"
  by (simp add: seq_def on_database_def lift_act_def)

lemma ready_dbs: "ready (c\<lparr>cp_dbs := D\<rparr>) = ready c"
  by (simp add: ready_def)

lemma sample_initialize:
  assumes "ready c" and "cp_dbs c = Map.empty"
  shows "\<exists>y w. initialize_service sample_setup (install_config sample_options) file norm (c, []) = (Inr y, w)"
  unfolding initialize_service_def Let_def sample_config_simps
proof (rule goes_then [OF goes_paths(1) assms(1)])
  fix c'
  assume c': "ready c'" "cp_dbs c' = cp_dbs c"
  let ?b = "\<lparr>b_config = install_config sample_options, b_rules = file, b_resolved = norm\<rparr>"
  have v: "validate (se_up sample_setup) (b_config (bundle_apply_defaults ?b)) = None"
    using sample_setup_checks(2) by (simp add: bundle_apply_defaults_def Let_def install_config_defaults)
  obtain rev d1 where init: "initialize (se_up sample_setup) (se_now sample_setup) ?b (empty_db, []) = (Inr rev, d1, [])"
    and d1: "db_users d1 = []" "db_sessions d1 = []" "db_user_seq d1 = 0"
    using initialize_run [OF v] by (simp add: add_row_def empty_db_def)
  have admin: "\<exists>d2. reset_admin (se_bcrypt sample_setup) (se_now sample_setup) (b64url_encode (se_raw sample_setup)) (d1, []) =
      (Inr \<lparr>us_id = 1, us_username = ''admin''\<rparr>, d2, [])"
    using sample_config_simps(4) d1
    by (simp add: reset_admin_def sample_setup_def sample_bcrypt_def act_defs auth_query_def find_user_def sql_insert_user_def
        sql_update_sessions_def Let_def)
  show "\<exists>y w. seq (open_store (database_path ''/var/lib/5gws'')) (\<lambda>_.
      seq (on_database (database_path ''/var/lib/5gws'') SetupStore (initialize (se_up sample_setup) (se_now sample_setup) ?b)) (\<lambda>_.
      seq (on_database (database_path ''/var/lib/5gws'') SetupAuth (generate_password (se_raw sample_setup))) (\<lambda>password.
      seq (on_database (database_path ''/var/lib/5gws'') SetupAuth (reset_admin (se_bcrypt sample_setup) (se_now sample_setup) password)) (\<lambda>admin.
      seq (enable_service sample_setup) (\<lambda>_. ret (us_username admin, password)))))) (c', []) = (Inr y, w)"
  proof -
    obtain d2 where d2: "reset_admin (se_bcrypt sample_setup) (se_now sample_setup) (b64url_encode (se_raw sample_setup)) (d1, []) =
        (Inr \<lparr>us_id = 1, us_username = ''admin''\<rparr>, d2, [])" using admin by blast
    let ?p = "database_path ''/var/lib/5gws''"
    have open_run: "open_store ?p (c', []) = (Inr (), c'\<lparr>cp_dbs := [?p \<mapsto> empty_db]\<rparr>, [])"
      using c'(2) assms(2) by (simp add: open_store_def call_cases the_db_def)
    have pw: "generate_password (se_raw sample_setup) (d1, []) = (Inr (b64url_encode (se_raw sample_setup)), d1, [])"
      by (simp add: generate_password_def call_cases)
    have the: "the_db ?p (c'\<lparr>cp_dbs := [?p \<mapsto> d]\<rparr>) = d" for d by (simp add: the_db_def)
    have ends: "\<exists>y w. seq (enable_service sample_setup) (\<lambda>_. ret (name, password)) (c'\<lparr>cp_dbs := D\<rparr>, []) = (Inr y, w)" for name password D
      by (rule goes_then [OF goes_sample(3)]) (simp_all add: ready_dbs c'(1) ret_def)
    show ?thesis
      by (simp add: seq_def [of "open_store _"] open_run on_database_run the init pw d2 ends del: split_paired_Ex)
  qed
qed

lemma sample_install: "\<exists>y w. run_install sample_setup sample_options [] (sample_host, []) = (Inr y, w)"
proof -
  let ?cfg = "install_config sample_options"
  obtain b norm where b: "install_bundle sample_setup ?cfg None = Inr (b, norm)"
    and pools: "validate_dns_pool_references (b_rules b) (pool_names (cf_dns (b_config b))) = None"
    using sample_setup_checks(3) by (auto split: sum.splits prod.splits)
  have conf: "b_config b = ?cfg" using install_bundle_fresh [OF b] by (simp add: install_config_defaults)
  have real: "op_dry_run sample_options = False" by (simp add: sample_options_def)
  have "ready sample_host" by (simp add: ready_def sample_host_def)
  moreover have "find_existing sample_setup False ?cfg (sample_host, []) = (Inr None, sample_host, [])"
    by (simp add: find_existing_def refuse_legacy_units_def load_existing_bundle_def act_defs sample_setup_def sample_host_def Let_def)
  moreover have "\<exists>y w. seq (on_runtime (ensure_runtime (ae_install (se_app sample_setup)) (dn_binary (cf_dns ?cfg)) False)) (\<lambda>_.
      seq (ensure_smart_dns_log_dir sample_setup False) (\<lambda>_. finish_install sample_setup ?cfg None b norm)) (sample_host, []) = (Inr y, w)"
    unfolding finish_install_def
  proof (rule goes_then [OF goes_runtime \<open>ready sample_host\<close>], rule goes_then [OF goes_log_dir], assumption,
      rule goes_then [OF goes_ensure], assumption, goal_cases)
    case (1 _ c1 _ c2 _ c3)
    then have "cp_dbs c3 = Map.empty" by (simp add: sample_host_def)
    from sample_initialize [OF 1(5) this, of "b_rules b" norm] show ?case
      by (auto simp: conf seq_def ret_def)
  qed
  ultimately show ?thesis
    by (simp add: run_install_def sample_setup_checks(1,2) real seq_def [of "find_existing _ _ _"] Let_def b pools
        del: split_paired_Ex)
qed

theorem install_outcome_witness:
  "\<exists>password c' fs' d. run_install sample_setup sample_options [] (sample_host, []) = (Inr (Some (''admin'', password)), c', fs') \<and>
     cp_dbs c' (install_path sample_options) = Some d \<and> fresh_db sample_setup (install_config sample_options) password d"
proof -
  obtain shown c' fs' where run: "run_install sample_setup sample_options [] (sample_host, []) = (Inr shown, c', fs')"
    using sample_install by (metis prod.collapse)
  have law: "\<forall>p h. bc_generate (se_bcrypt sample_setup) p = Some h \<longrightarrow> bc_compare (se_bcrypt sample_setup) h p"
    by (auto simp: sample_setup_def sample_bcrypt_def split: if_splits)
  have "op_dry_run sample_options = False" "cp_dbs sample_host = Map.empty" by (simp_all add: sample_options_def sample_host_def)
  with install_outcome [OF sample_setup_checks(1) run law] run show ?thesis by auto
qed

end
