(* ===== verification/Diagnostics.thy ===== *)
theory Diagnostics
  imports Config_Validate "HOL-Library.Multiset"
begin

text \<open>
  \<^verbatim>\<open>internal/diagnostics\<close>: the probes of the DNS upstreams, of the exits and of the two DoT listeners, and
  the run that starts them all at once and puts their results together. The DNS library, TLS, HTTP and
  X.509 are parameters, which give the outcome of every exchange and how long it took. Latencies are whole
  microseconds, as measured, before the division into milliseconds; one reading of the clock stands for
  the few of a certificate check.
\<close>

record dns_question =
  qu_name :: string
  qu_type :: nat
  qu_class :: nat

datatype dns_rr = RrA nat bytes | RrAAAA nat bytes | RrOther

record dns_msg =
  dm_id :: nat
  dm_response :: bool
  dm_opcode :: nat
  dm_rcode :: nat
  dm_question :: "dns_question list"
  dm_answer :: "dns_rr list"

record http_reply =
  hp_status :: int
  hp_text :: string
  hp_body :: "string + string"

record certificate =
  ce_not_after :: int
  ce_verify :: "string \<Rightarrow> string option"

text \<open>A DoT connection: the error of the dial, of the deadline and of the query, and the reply.\<close>

record dot_peer =
  dp_dial :: "string option"
  dp_deadline :: "string option"
  dp_write :: "string option"
  dp_read :: "string + dns_msg"
  dp_latency :: int

record probe_env =
  pe_id :: nat
  pe_exchange :: "string \<Rightarrow> string \<Rightarrow> string \<Rightarrow> dns_msg \<Rightarrow> (string + dns_msg) \<times> int"
  pe_pack :: "dns_msg \<Rightarrow> string + string"
  pe_unpack :: "string \<Rightarrow> string + dns_msg"
  pe_request :: "string \<Rightarrow> string option"
  pe_post :: "string \<Rightarrow> string \<Rightarrow> (string + http_reply) \<times> int"
  pe_url :: "string \<Rightarrow> (string \<times> string) option"
  pe_rcode :: "nat \<Rightarrow> string"
  pe_dial :: "string \<Rightarrow> string option \<times> int"
  pe_socks :: "string \<Rightarrow> string option"
  pe_get :: "string option \<Rightarrow> string \<Rightarrow> (string + http_reply) \<times> int"
  pe_now :: int
  pe_read_file :: "string \<Rightarrow> string + string"
  pe_pem :: "string \<Rightarrow> (string \<times> string) option"
  pe_x509 :: "string \<Rightarrow> string + certificate"
  pe_dot :: "string \<Rightarrow> string \<Rightarrow> dot_peer"

record dns_result =
  dr_pool :: string
  dr_upstream :: string
  dr_protocol :: string
  dr_status :: string
  dr_latency :: int
  dr_answers :: "string list"
  dr_error :: string

record exit_result =
  er_name :: string
  er_type :: string
  er_status :: string
  er_upstream :: string
  er_upstream_status :: string
  er_upstream_latency :: int
  er_egress_status :: string
  er_egress_ip :: string
  er_egress_latency :: int
  er_error :: string

record dot_result =
  do_domain :: string
  do_listen :: string
  do_status :: string
  do_latency :: int
  do_certificate_status :: string
  do_expires_at :: int
  do_days_remaining :: int
  do_domain_match :: bool
  do_error :: string

record diag_result =
  dg_dns :: "dns_result list"
  dg_exits :: "exit_result list"
  dg_dot :: "dot_result option"
  dg_internal_dot :: "dot_result option"

section \<open>Messages\<close>

text \<open>\<^verbatim>\<open>SetQuestion(name, TypeA)\<close>.\<close>

definition a_query :: "probe_env \<Rightarrow> string \<Rightarrow> dns_msg" where
  "a_query en name = \<lparr>dm_id = pe_id en, dm_response = False, dm_opcode = 0, dm_rcode = 0,
     dm_question = [\<lparr>qu_name = name, qu_type = 1, qu_class = 1\<rparr>], dm_answer = []\<rparr>"

fun is_ipv4_answer :: "dns_rr \<Rightarrow> bool" where
  "is_ipv4_answer (RrA class a) \<longleftrightarrow> class = 1 \<and> ip_to4 a \<noteq> None"
| "is_ipv4_answer _ \<longleftrightarrow> False"

definition validate_dns_response :: "probe_env \<Rightarrow> dns_msg \<Rightarrow> dns_msg \<Rightarrow> string option" where
  "validate_dns_response en request response =
     (if \<not> dm_response response \<or> dm_id response \<noteq> dm_id request \<or> dm_opcode response \<noteq> dm_opcode request
      then Some ''DNS response does not match request''
      else if length (dm_question response) \<noteq> 1 \<or> dm_question response ! 0 \<noteq> dm_question request ! 0
      then Some ''DNS response question does not match request''
      else if dm_rcode response \<noteq> 0 then Some (''DNS response code: '' @ pe_rcode en (dm_rcode response))
      else if list_ex is_ipv4_answer (dm_answer response) then None
      else Some ''DNS response contains no A answer'')"

fun answer_address :: "dns_rr \<Rightarrow> string list" where
  "answer_address (RrA _ a) = [ip_str a]"
| "answer_address (RrAAAA _ a) = [ip_str a]"
| "answer_address RrOther = []"

definition answer_addresses :: "dns_msg \<Rightarrow> string list" where
  "answer_addresses m = concat (map answer_address (dm_answer m))"

definition dns_query_name :: "string \<Rightarrow> string" where
  "dns_query_name value = trim_suffix (trim_space value) ''.'' @ ''.''"

definition dns_address :: "string \<Rightarrow> string \<Rightarrow> string" where
  "dns_address value default_port = (if split_host_port value \<noteq> None then value
     else join_host_port (trim_cut ''[]'' value) default_port)"

section \<open>DNS upstreams\<close>

definition query_doh :: "probe_env \<Rightarrow> string \<Rightarrow> dns_msg \<Rightarrow> (string + dns_msg) \<times> int" where
  "query_doh en endpoint message = (case pe_pack en message of Inl e \<Rightarrow> (Inl e, 0) | Inr data \<Rightarrow>
     case pe_request en endpoint of Some e \<Rightarrow> (Inl e, 0) | None \<Rightarrow>
     (case pe_post en endpoint data of (r, t) \<Rightarrow> ((case r of Inl e \<Rightarrow> Inl e | Inr resp \<Rightarrow>
        if hp_status resp < 200 \<or> 300 \<le> hp_status resp then Inl (''DoH request failed: '' @ hp_text resp)
        else case hp_body resp of Inl e \<Rightarrow> Inl e | Inr body \<Rightarrow>
          (case pe_unpack en (take (64 * 2 ^ 10) body) of Inl e \<Rightarrow> Inl e | Inr answer \<Rightarrow>
             if dm_id answer \<noteq> dm_id message then Inl ''DoH response ID does not match request'' else Inr answer)), t)))"

definition query_dot_upstream :: "probe_env \<Rightarrow> string \<Rightarrow> dns_msg \<Rightarrow> (string + dns_msg) \<times> int" where
  "query_dot_upstream en upstream message = (case pe_url en upstream of
     None \<Rightarrow> (Inl (''invalid DoT upstream '' @ upstream), 0)
   | Some (host, port) \<Rightarrow> if host = [] then (Inl (''invalid DoT upstream '' @ upstream), 0)
       else pe_exchange en ''tcp-tls'' host (join_host_port host (if port = [] then ''853'' else port)) message)"

definition probe_dns_upstream :: "probe_env \<Rightarrow> string \<times> string \<times> string \<Rightarrow> dns_result" where
  "probe_dns_upstream en = (\<lambda>(pool, query_name, upstream).
     let message = a_query en query_name;
         (protocol, r, t) = (if has_prefix upstream ''https://'' then (''doh'', query_doh en upstream message)
           else if has_prefix upstream ''tls://'' then (''dot'', query_dot_upstream en upstream message)
           else (''udp'', pe_exchange en ''udp'' [] (dns_address upstream ''53'') message));
         result = \<lparr>dr_pool = pool, dr_upstream = upstream, dr_protocol = protocol, dr_status = ''error'',
           dr_latency = t, dr_answers = [], dr_error = []\<rparr>
     in case r of Inl e \<Rightarrow> result\<lparr>dr_error := e\<rparr>
        | Inr response \<Rightarrow>
            if dm_rcode response \<noteq> 0
            then result\<lparr>dr_error := ''DNS response code: '' @ pe_rcode en (dm_rcode response)\<rparr>
            else result\<lparr>dr_status := ''ok'', dr_answers := answer_addresses response\<rparr>)"

text \<open>
  One goroutine for each probe sends its index and its result; the receiver stores them in the order in
  which they arrive.
\<close>

definition gather :: "'a \<Rightarrow> nat \<Rightarrow> (nat \<times> 'a) list \<Rightarrow> 'a list" where
  "gather zero n items = fold (\<lambda>(i, r) out. out[i := r]) items (replicate n zero)"

definition zero_dns_result :: dns_result where
  "zero_dns_result = \<lparr>dr_pool = [], dr_upstream = [], dr_protocol = [], dr_status = [], dr_latency = 0,
     dr_answers = [], dr_error = []\<rparr>"

definition dns_probes :: "config \<Rightarrow> (string \<times> string \<times> string) list" where
  "dns_probes cfg = concat (map (\<lambda>pool. map (\<lambda>upstream. (po_name pool, dns_query_name (po_probe_domain pool), upstream))
     (po_upstreams pool)) (pools (cf_dns cfg)))"

definition probe_dns_pools :: "probe_env \<Rightarrow> nat list \<Rightarrow> config \<Rightarrow> dns_result list" where
  "probe_dns_pools en arrival cfg = (let probes = dns_probes cfg in
     gather zero_dns_result (length probes) (map (\<lambda>i. (i, probe_dns_upstream en (probes ! i))) arrival))"

section \<open>Exits\<close>

definition default_egress_url :: string where
  "default_egress_url = ''https://api.ipify.org''"

definition probe_egress :: "probe_env \<Rightarrow> string \<Rightarrow> string option \<Rightarrow> exit_result \<Rightarrow> exit_result" where
  "probe_egress en egress_url via result = (let url = (if egress_url = [] then default_egress_url else egress_url) in
     case pe_request en url of Some e \<Rightarrow> result\<lparr>er_error := e\<rparr> | None \<Rightarrow>
     (case pe_get en via url of (r, t) \<Rightarrow> let result = result\<lparr>er_egress_latency := t\<rparr> in
      case r of Inl e \<Rightarrow> result\<lparr>er_error := ''egress: '' @ e\<rparr> | Inr resp \<Rightarrow>
        if hp_status resp < 200 \<or> 300 \<le> hp_status resp then result\<lparr>er_error := ''egress: '' @ hp_text resp\<rparr>
        else case hp_body resp of Inl e \<Rightarrow> result\<lparr>er_error := ''egress: '' @ e\<rparr> | Inr body \<Rightarrow>
          let ip = trim_space (take 128 body) in
          if parse_ip ip = None then result\<lparr>er_error := ''egress returned an invalid IP address''\<rparr>
          else result\<lparr>er_egress_status := ''ok'', er_egress_ip := ip, er_status := ''ok''\<rparr>))"

text \<open>An unspecified address listens on the loopback too.\<close>

definition connectable :: "string \<Rightarrow> string" where
  "connectable host = (case parse_ip host of None \<Rightarrow> host
     | Some ip \<Rightarrow> if ip_is_unspecified ip then ''127.0.0.1'' else host)"

definition probe_exit :: "probe_env \<Rightarrow> string \<Rightarrow> exit_config \<Rightarrow> exit_result" where
  "probe_exit en egress_url e = (let result = \<lparr>er_name = ex_name e, er_type = ex_type e, er_status = ''error'', er_upstream = [],
       er_upstream_status = [], er_upstream_latency = 0, er_egress_status = ''error'', er_egress_ip = [],
       er_egress_latency = 0, er_error = []\<rparr> in
     if ex_type e = ''shadowsocks-rust'' then
       (let upstream = join_host_port (ex_server e) (int_str (ex_server_port e)) in
        case pe_dial en upstream of (err, t) \<Rightarrow>
        let result = result\<lparr>er_upstream := upstream, er_upstream_latency := t\<rparr> in
        case err of Some m \<Rightarrow> result\<lparr>er_upstream_status := ''error'', er_error := ''upstream: '' @ m\<rparr>
        | None \<Rightarrow> let result = result\<lparr>er_upstream_status := ''ok''\<rparr>;
              proxy = join_host_port (connectable (ex_listen_address e)) (int_str (ex_listen_port e)) in
            (case pe_socks en proxy of Some m \<Rightarrow> result\<lparr>er_error := ''SOCKS5: '' @ m\<rparr>
             | None \<Rightarrow> probe_egress en egress_url (Some proxy) result))
     else if ex_type e \<noteq> ''direct'' then result\<lparr>er_error := ''unsupported exit type: '' @ ex_type e\<rparr>
     else probe_egress en egress_url None result)"

definition zero_exit_result :: exit_result where
  "zero_exit_result = \<lparr>er_name = [], er_type = [], er_status = [], er_upstream = [], er_upstream_status = [],
     er_upstream_latency = 0, er_egress_status = [], er_egress_ip = [], er_egress_latency = 0, er_error = []\<rparr>"

definition probe_exits :: "probe_env \<Rightarrow> string \<Rightarrow> nat list \<Rightarrow> config \<Rightarrow> exit_result list" where
  "probe_exits en egress_url arrival cfg = gather zero_exit_result (length (cf_exits cfg))
     (map (\<lambda>i. (i, probe_exit en egress_url (cf_exits cfg ! i))) arrival)"

section \<open>DNS over TLS\<close>

definition read_certificate :: "probe_env \<Rightarrow> string \<Rightarrow> string + certificate" where
  "read_certificate en path = (case pe_read_file en path of Inl e \<Rightarrow> Inl e | Inr data \<Rightarrow>
     case pe_pem en data of None \<Rightarrow> Inl (''no PEM certificate found in '' @ path)
     | Some (kind, block) \<Rightarrow> if kind \<noteq> ''CERTIFICATE'' then Inl (''no PEM certificate found in '' @ path) else pe_x509 en block)"

definition exchange_dot :: "probe_env \<Rightarrow> string \<Rightarrow> string \<Rightarrow> string option \<times> int" where
  "exchange_dot en domain listen = (case split_host_port listen of None \<Rightarrow> (Some (''DoT listen: '' @ listen), 0)
     | Some (_, port) \<Rightarrow> let peer = pe_dot en domain (join_host_port ''127.0.0.1'' port); message = a_query en ''example.com.'' in
        ((case dp_dial peer of Some e \<Rightarrow> Some (''DoT TLS: '' @ e) | None \<Rightarrow>
          case dp_deadline peer of Some e \<Rightarrow> Some (''DoT deadline: '' @ e) | None \<Rightarrow>
          case dp_write peer of Some e \<Rightarrow> Some (''DoT query: '' @ e) | None \<Rightarrow>
          (case dp_read peer of Inl e \<Rightarrow> Some (''DoT response: '' @ e)
           | Inr response \<Rightarrow> validate_dns_response en message response)), dp_latency peer))"

text \<open>\<^verbatim>\<open>int(d.Hours() / 24)\<close> of a duration in nanoseconds, without the rounding of the quotient.\<close>

definition whole_days :: "int \<Rightarrow> int" where
  "whole_days d = (let day = 24 * 3600 * 10 ^ 9 in if d < 0 then - ((- d) div day) else d div day)"

definition probe_dot_listener :: "probe_env \<Rightarrow> dns_config \<Rightarrow> string \<Rightarrow> dot_result" where
  "probe_dot_listener en dns listen = (let result = \<lparr>do_domain = dn_dot_domain dns, do_listen = listen, do_status = ''error'',
       do_latency = 0, do_certificate_status = ''error'', do_expires_at = 0, do_days_remaining = 0,
       do_domain_match = False, do_error = []\<rparr> in
     if listen = [] then result\<lparr>do_status := ''disabled'', do_certificate_status := ''disabled''\<rparr>
     else case read_certificate en (dn_cert_file dns) of Inl e \<Rightarrow> result\<lparr>do_error := ''certificate: '' @ e\<rparr>
     | Inr cert \<Rightarrow>
       let days = whole_days (ce_not_after cert - pe_now en);
           result = result\<lparr>do_expires_at := ce_not_after cert, do_days_remaining := days\<rparr> in
       if ce_not_after cert < pe_now en then result\<lparr>do_error := ''certificate has expired''\<rparr>
       else case ce_verify cert (dn_dot_domain dns) of Some e \<Rightarrow> result\<lparr>do_error := ''certificate domain: '' @ e\<rparr>
       | None \<Rightarrow>
         let result = result\<lparr>do_domain_match := True, do_certificate_status := (if days \<le> 30 then ''warning'' else ''ok'')\<rparr> in
         (case exchange_dot en (dn_dot_domain dns) listen of
            (Some e, t) \<Rightarrow> result\<lparr>do_latency := t, do_error := e\<rparr>
          | (None, t) \<Rightarrow> result\<lparr>do_latency := t, do_status := ''ok''\<rparr>))"

definition probe_dot :: "probe_env \<Rightarrow> config \<Rightarrow> dot_result" where
  "probe_dot en cfg = probe_dot_listener en (cf_dns cfg) (dn_listen_public_dot (cf_dns cfg))"

section \<open>The run\<close>

datatype diag_part = DnsPart "dns_result list" | ExitsPart "exit_result list" | DotPart dot_result | InternalDotPart dot_result

definition diag_parts :: "probe_env \<Rightarrow> string \<Rightarrow> nat list \<Rightarrow> nat list \<Rightarrow> config \<Rightarrow> string \<Rightarrow> diag_part list" where
  "diag_parts en egress_url dns_arrival exits_arrival cfg scope =
     (if scope = ''all'' \<or> scope = ''dns'' then [DnsPart (probe_dns_pools en dns_arrival cfg)] else []) @
     (if scope = ''all'' \<or> scope = ''exits'' then [ExitsPart (probe_exits en egress_url exits_arrival cfg)] else []) @
     (if scope = ''all'' \<or> scope = ''dot'' then [DotPart (probe_dot en cfg),
        InternalDotPart (probe_dot_listener en (cf_dns cfg) (dn_listen_dot (cf_dns cfg)))] else [])"

fun take_part :: "diag_part \<Rightarrow> diag_result \<Rightarrow> diag_result" where
  "take_part (DnsPart rs) d = d\<lparr>dg_dns := rs\<rparr>"
| "take_part (ExitsPart rs) d = d\<lparr>dg_exits := rs\<rparr>"
| "take_part (DotPart r) d = d\<lparr>dg_dot := Some r\<rparr>"
| "take_part (InternalDotPart r) d = d\<lparr>dg_internal_dot := Some r\<rparr>"

definition no_results :: diag_result where
  "no_results = \<lparr>dg_dns = [], dg_exits = [], dg_dot = None, dg_internal_dot = None\<rparr>"

definition diag_run :: "probe_env \<Rightarrow> string \<Rightarrow> nat list \<Rightarrow> nat list \<Rightarrow> nat list \<Rightarrow> config \<Rightarrow> string \<Rightarrow> diag_result" where
  "diag_run en egress_url arrival dns_arrival exits_arrival cfg scope =
     (let parts = diag_parts en egress_url dns_arrival exits_arrival cfg scope in
      fold (\<lambda>i. take_part (parts ! i)) arrival no_results)"

section \<open>The order of arrival does not matter\<close>

text \<open>Each index from 0 up to \<open>n\<close> arrives once.\<close>

definition arrives :: "nat \<Rightarrow> nat list \<Rightarrow> bool" where
  "arrives n order \<longleftrightarrow> mset order = mset [0..<n]"

lemma arrives_simps: "arrives n order \<Longrightarrow> distinct order \<and> set order = {0..<n}"
  unfolding arrives_def by (metis atLeastLessThan_upt distinct_upt mset_eq_imp_distinct_iff mset_eq_setD)

lemma gather_nth:
  assumes "distinct order" and "j < n"
  shows "gather zero n (map (\<lambda>i. (i, f i)) order) ! j = (if j \<in> set order then f j else zero)"
    and "length (gather zero n (map (\<lambda>i. (i, f i)) order)) = n"
proof -
  have "length (fold (\<lambda>(i, r) out. out[i := r]) (map (\<lambda>i. (i, f i)) order) out) = length out \<and>
      fold (\<lambda>(i, r) out. out[i := r]) (map (\<lambda>i. (i, f i)) order) out ! j = (if j \<in> set order then f j else out ! j)"
    if "j < length out" for out
    using assms(1) that by (induction order arbitrary: out) (auto simp: nth_list_update)
  from this [of "replicate n zero"] assms(2)
  show "gather zero n (map (\<lambda>i. (i, f i)) order) ! j = (if j \<in> set order then f j else zero)"
    "length (gather zero n (map (\<lambda>i. (i, f i)) order)) = n"
    by (simp_all add: gather_def)
qed

lemma length_gather [simp]: "length (gather zero n items) = n"
proof -
  have "length (fold (\<lambda>(i, r) out. out[i := r]) items out) = length out" for out
    by (induction items arbitrary: out) auto
  then show ?thesis by (simp add: gather_def)
qed

lemma gather_all: "arrives (length xs) order \<Longrightarrow> gather zero (length xs) (map (\<lambda>i. (i, f (xs ! i))) order) = map f xs"
  using arrives_simps [of "length xs" order]
  by (intro nth_equalityI) (simp_all add: gather_nth(1) [of order _ "length xs" zero "\<lambda>i. f (xs ! i)"])

text \<open>The same probes, one after the other.\<close>

definition diag_sequential :: "probe_env \<Rightarrow> string \<Rightarrow> config \<Rightarrow> string \<Rightarrow> diag_result" where
  "diag_sequential en egress_url cfg scope = (let every = scope = ''all'' in
     \<lparr>dg_dns = (if every \<or> scope = ''dns'' then map (probe_dns_upstream en) (dns_probes cfg) else []),
      dg_exits = (if every \<or> scope = ''exits'' then map (probe_exit en egress_url) (cf_exits cfg) else []),
      dg_dot = (if every \<or> scope = ''dot'' then Some (probe_dot en cfg) else None),
      dg_internal_dot = (if every \<or> scope = ''dot'' then
        Some (probe_dot_listener en (cf_dns cfg) (dn_listen_dot (cf_dns cfg))) else None)\<rparr>)"

fun part_kind :: "diag_part \<Rightarrow> nat" where
  "part_kind (DnsPart _) = 0"
| "part_kind (ExitsPart _) = 1"
| "part_kind (DotPart _) = 2"
| "part_kind (InternalDotPart _) = 3"

lemma take_part_commute:
  assumes "p = q \<or> part_kind p \<noteq> part_kind q"
  shows "take_part p \<circ> take_part q = take_part q \<circ> take_part p"
proof (rule ext)
  fix d
  show "(take_part p \<circ> take_part q) d = (take_part q \<circ> take_part p) d"
    using assms by (cases d; cases p; cases q) auto
qed

lemma part_kinds_distinct: "distinct (map part_kind (diag_parts en url ds es cfg scope))"
  by (auto simp: diag_parts_def)

lemma fold_nth: "fold (\<lambda>i. f (xs ! i)) [0..<length xs] = fold f xs"
proof -
  have "fold f (map (\<lambda>i. xs ! i) [0..<length xs]) = fold (\<lambda>i. f (xs ! i)) [0..<length xs]"
    by (simp only: fold_map comp_def)
  then show ?thesis by (simp only: map_nth)
qed

lemma diag_run_fold:
  assumes "arrives (length (diag_parts en egress_url ds es cfg scope)) arrival"
  shows "diag_run en egress_url arrival ds es cfg scope = fold take_part (diag_parts en egress_url ds es cfg scope) no_results"
proof -
  let ?parts = "diag_parts en egress_url ds es cfg scope"
  have "fold (\<lambda>i. take_part (?parts ! i)) arrival = fold (\<lambda>i. take_part (?parts ! i)) [0..<length ?parts]"
  proof (rule fold_multiset_equiv)
    fix i j
    assume "i \<in> set arrival" "j \<in> set arrival"
    then have "i < length ?parts" "j < length ?parts" using arrives_simps [OF assms] by auto
    with part_kinds_distinct have "i = j \<or> part_kind (?parts ! i) \<noteq> part_kind (?parts ! j)"
      by (metis length_map nth_eq_iff_index_eq nth_map)
    then show "take_part (?parts ! i) \<circ> take_part (?parts ! j) = take_part (?parts ! j) \<circ> take_part (?parts ! i)"
      by (intro take_part_commute) auto
  qed (use assms in \<open>simp add: arrives_def\<close>)
  also have "\<dots> = fold take_part ?parts"
    by (rule fold_nth)
  finally show ?thesis by (simp add: diag_run_def)
qed

lemma probes_sequential:
  assumes "arrives (length (dns_probes cfg)) ds" and "arrives (length (cf_exits cfg)) es"
  shows "fold take_part (diag_parts en egress_url ds es cfg scope) no_results = diag_sequential en egress_url cfg scope"
proof -
  have "probe_dns_pools en ds cfg = map (probe_dns_upstream en) (dns_probes cfg)"
    "probe_exits en egress_url es cfg = map (probe_exit en egress_url) (cf_exits cfg)"
    using gather_all [OF assms(1)] gather_all [OF assms(2)] by (simp_all add: probe_dns_pools_def probe_exits_def Let_def)
  then show ?thesis by (simp add: diag_parts_def diag_sequential_def no_results_def Let_def)
qed

text \<open>
  Claim C34. The probes run at once, one goroutine each, and what they find arrives in any order: every
  result is that of the probes one after the other, each in the place of its upstream or exit and nothing
  lost, for every scope.
\<close>

theorem diagnostics_ignore_arrival:
  assumes "arrives (length (diag_parts en egress_url dns_arrival exits_arrival cfg scope)) arrival"
    and "arrives (length (dns_probes cfg)) dns_arrival" and "arrives (length (cf_exits cfg)) exits_arrival"
  shows "diag_run en egress_url arrival dns_arrival exits_arrival cfg scope = diag_sequential en egress_url cfg scope"
  unfolding diag_run_fold [OF assms(1)] by (rule probes_sequential [OF assms(2,3)])

section \<open>A sample run\<close>

definition sample_reply :: "dns_msg \<Rightarrow> dns_msg" where
  "sample_reply m = m\<lparr>dm_response := True, dm_answer := [RrA 1 [93, 184, 216, 34]]\<rparr>"

definition sample_probe_env :: probe_env where
  "sample_probe_env = \<lparr>pe_id = 7, pe_exchange = (\<lambda>net host addr m. if addr = ''9.9.9.9:53'' then (Inl ''timeout'', 2000000) else (Inr (sample_reply m), 900)),
     pe_pack = (\<lambda>_. Inr ''query''), pe_unpack = (\<lambda>_. Inl ''bad message''), pe_request = (\<lambda>_. None),
     pe_post = (\<lambda>_ _. (Inr \<lparr>hp_status = 503, hp_text = ''503 Service Unavailable'', hp_body = Inr []\<rparr>, 1500)),
     pe_url = (\<lambda>_. None), pe_rcode = (\<lambda>_. ''SERVFAIL''), pe_dial = (\<lambda>_. (None, 10)), pe_socks = (\<lambda>_. None),
     pe_get = (\<lambda>_ _. (Inr \<lparr>hp_status = 200, hp_text = ''200 OK'', hp_body = Inr ''203.0.113.9''\<rparr>, 20)),
     pe_now = 0, pe_read_file = (\<lambda>_. Inr ''pem''), pe_pem = (\<lambda>_. Some (''CERTIFICATE'', ''der'')),
     pe_x509 = (\<lambda>_. Inr \<lparr>ce_not_after = 90 * 24 * 3600 * 10 ^ 9, ce_verify = (\<lambda>_. None)\<rparr>),
     pe_dot = (\<lambda>_ _. \<lparr>dp_dial = None, dp_deadline = None, dp_write = None,
       dp_read = Inr \<lparr>dm_id = 7, dm_response = True, dm_opcode = 0, dm_rcode = 0,
         dm_question = [\<lparr>qu_name = ''example.com.'', qu_type = 1, qu_class = 1\<rparr>], dm_answer = [RrA 1 [93, 184, 216, 34]]\<rparr>,
       dp_latency = 30\<rparr>)\<rparr>"

definition sample_probe_config :: config where
  "sample_probe_config = (let c = draft ''10.0.0.1'' ''10.0.0.0/24'' ''eth0'' ''dns.example.com'' [direct_exit, direct_exit\<lparr>ex_name := ''other''\<rparr>] in
     c\<lparr>cf_dns := (cf_dns c)\<lparr>dn_upstreams_cn := [''9.9.9.9'', ''1.1.1.1''], dn_upstreams_overseas_public := [''https://dns.example/query''],
       dn_listen_dot := ''127.0.0.1:8853''\<rparr>\<rparr>)"

theorem diagnostics_ignore_arrival_witness:
  "let d = diag_run sample_probe_env [] [2, 0, 3, 1] [2, 1, 0] [1, 0] sample_probe_config ''all'' in
     d = diag_sequential sample_probe_env [] sample_probe_config ''all'' \<and>
     map dr_status (dg_dns d) = [''error'', ''ok'', ''error''] \<and> map er_status (dg_exits d) = [''ok'', ''ok''] \<and>
     map_option do_status (dg_dot d) = Some ''disabled'' \<and> map_option do_status (dg_internal_dot d) = Some ''ok''"
proof -
  have n: "length (dns_probes sample_probe_config) = 3" "length (cf_exits sample_probe_config) = 2"
    "length (diag_parts sample_probe_env [] [2, 1, 0] [1, 0] sample_probe_config ''all'') = 4"
    by (code_simp, code_simp, simp add: diag_parts_def)
  have "diag_run sample_probe_env [] [2, 0, 3, 1] [2, 1, 0] [1, 0] sample_probe_config ''all'' =
      diag_sequential sample_probe_env [] sample_probe_config ''all''"
    by (rule diagnostics_ignore_arrival) (simp_all only: n arrives_def, simp_all add: eval_nat_numeral)
  moreover have "let d = diag_sequential sample_probe_env [] sample_probe_config ''all'' in
     map dr_status (dg_dns d) = [''error'', ''ok'', ''error''] \<and> map er_status (dg_exits d) = [''ok'', ''ok''] \<and>
     map_option do_status (dg_dot d) = Some ''disabled'' \<and> map_option do_status (dg_internal_dot d) = Some ''ok''"
    by code_simp
  ultimately show ?thesis by (simp add: Let_def)
qed

end
