(* ===== verification/Engine_Probes.thy ===== *)
theory Engine_Probes
  imports Diagnostics Supervisor "HOL-Library.Word"
begin

text \<open>
  \<^verbatim>\<open>internal/engine/readiness.go\<close> and \<^verbatim>\<open>internal/engine/metrics.go\<close>: the wait for the DNS service of a new
  revision, and the figures of the dashboard, read from \<^verbatim>\<open>/proc\<close> and from the probes of \<open>Diagnostics\<close>.
  Counters are 64 bits wide and wrap around as in the code.
\<close>

section \<open>Readiness\<close>

record readiness_probe =
  rp_label :: string
  rp_address :: string
  rp_domain :: string
  rp_network :: string
  rp_server :: string

definition dns_fqdn :: "string \<Rightarrow> string" where
  "dns_fqdn value = trim_suffix (trim_space value) ''.'' @ ''.''"

fun add_probe_domains :: "dns_pool_config list \<Rightarrow> string list \<Rightarrow> string list" where
  "add_probe_domains [] domains = domains"
| "add_probe_domains (p # ps) domains = (let d = dns_fqdn (po_probe_domain p) in
     add_probe_domains ps (if d \<in> set domains then domains else domains @ [d]))"

definition dns_readiness_probes :: "config \<Rightarrow> readiness_probe list" where
  "dns_readiness_probes cfg = (let dns = cf_dns cfg;
       domains = add_probe_domains (case dn_custom_pools dns of None \<Rightarrow> [] | Some ps \<Rightarrow> ps) [''example.com.'', ''www.baidu.com.''] in
     map (\<lambda>d. \<lparr>rp_label = ''internal DNS TCP'', rp_address = loopback_address (dn_listen_tcp dns), rp_domain = d,
       rp_network = ''tcp'', rp_server = []\<rparr>) domains @
     (if dn_listen_public_dot dns = [] then [] else
       map (\<lambda>d. \<lparr>rp_label = ''public DoT'', rp_address = loopback_address (dn_listen_public_dot dns), rp_domain = d,
         rp_network = ''tcp-tls'', rp_server = dn_dot_domain dns\<rparr>) domains))"

fun has_ipv4 :: "dns_rr \<Rightarrow> bool" where
  "has_ipv4 (RrA _ a) \<longleftrightarrow> ip_to4 a \<noteq> None"
| "has_ipv4 _ \<longleftrightarrow> False"

definition probe_dns_readiness :: "probe_env \<Rightarrow> readiness_probe \<Rightarrow> string option" where
  "probe_dns_readiness en probe =
     (case fst (pe_exchange en (rp_network probe) (rp_server probe) (rp_address probe) (a_query en (rp_domain probe))) of
        Inl e \<Rightarrow> Some e
      | Inr response \<Rightarrow>
          if dm_rcode response \<noteq> 0 then Some (''DNS response code: '' @ pe_rcode en (dm_rcode response))
          else if list_ex has_ipv4 (dm_answer response) then None
          else Some ''DNS response contains no A answer'')"

text \<open>
  The wait never ends by itself: after each failed attempt \<open>k\<close> the select takes the end of the context, when
  \<open>ended k\<close>, or the timer. The environment may change between attempts. The result is the error or none.
\<close>

partial_function (option) wait_dns_readiness ::
  "(nat \<Rightarrow> probe_env) \<Rightarrow> (nat \<Rightarrow> bool) \<Rightarrow> readiness_probe \<Rightarrow> nat \<Rightarrow> string option option" where
  "wait_dns_readiness en ended probe k = (case probe_dns_readiness (en k) probe of
     None \<Rightarrow> Some None
   | Some e \<Rightarrow> if ended k then Some (Some (rp_label probe @ '' readiness for '' @ rp_domain probe @ '' failed: '' @ e))
       else wait_dns_readiness en ended probe (Suc k))"

section \<open>Lines\<close>

text \<open>\<^verbatim>\<open>bufio.Scanner\<close>: the lines without their ends, up to one that does not fit into 64 KiB.\<close>

definition scan_limit :: nat where
  "scan_limit = 64 * 2 ^ 10"

definition strip_cr :: "string \<Rightarrow> string" where
  "strip_cr l = (if l \<noteq> [] \<and> last l = CHR 0x0D then butlast l else l)"

definition raw_lines :: "string \<Rightarrow> string list" where
  "raw_lines s = (let ls = split_char (CHR 0x0A) s in if last ls = [] then butlast ls else ls)"

definition scan_lines :: "string \<Rightarrow> string list" where
  "scan_lines s = map strip_cr (takeWhile (\<lambda>l. length l < scan_limit) (raw_lines s))"

definition scan_fails :: "string \<Rightarrow> bool" where
  "scan_fails s \<longleftrightarrow> list_ex (\<lambda>l. scan_limit \<le> length l) (raw_lines s)"

section \<open>Figures from \<^verbatim>\<open>/proc\<close>\<close>

datatype swap_error = BadSwapLine string | BadSwapValue string | SwapOverflow nat | ScanFailed | NoSwapLine

fun swap_from :: "string list \<Rightarrow> bool \<Rightarrow> swap_error + 64 word" where
  "swap_from [] failed = Inl (if failed then ScanFailed else NoSwapLine)"
| "swap_from (l # ls) failed = (let fs = Go_Prelude.fields l in
     if fs = [] \<or> hd fs \<noteq> ''VmSwap:'' then swap_from ls failed
     else if length fs \<noteq> 3 \<or> fs ! 2 \<noteq> ''kB'' then Inl (BadSwapLine l)
     else case parse_uint64 (fs ! 1) of None \<Rightarrow> Inl (BadSwapValue (fs ! 1))
     | Some kb \<Rightarrow> if (2 ^ 64 - 1) div 1024 < kb then Inl (SwapOverflow kb) else Inr (of_nat kb * 1024))"

definition swap_bytes_from :: "string \<Rightarrow> swap_error + 64 word" where
  "swap_bytes_from s = swap_from (scan_lines s) (scan_fails s)"

text \<open>\<^verbatim>\<open>n, _ := strconv.ParseUint(s, 10, 64)\<close>: zero for what is no number, the largest value for one out of range.\<close>

definition parse_uint_value :: "string \<Rightarrow> 64 word" where
  "parse_uint_value s = (case parse_uint64 s of Some n \<Rightarrow> of_nat n
     | None \<Rightarrow> if s = [] \<or> \<not> list_all is_digit s then 0 else - 1)"

definition count_proc_lines :: "string + string \<Rightarrow> nat" where
  "count_proc_lines file = (case file of Inl _ \<Rightarrow> 0 | Inr s \<Rightarrow> length (scan_lines s) - 1)"

text \<open>\<^verbatim>\<open>strings.Replace(line, ":", " ", 1)\<close>.\<close>

definition blank_colon :: "string \<Rightarrow> string" where
  "blank_colon l = (case index_char l (CHR '':'') of None \<Rightarrow> l | Some i \<Rightarrow> l[i := CHR '' ''])"

definition add_interface :: "string \<Rightarrow> string \<Rightarrow> 64 word \<times> 64 word \<Rightarrow> 64 word \<times> 64 word" where
  "add_interface name l totals = (if CHR '':'' \<notin> set l then totals
     else let fs = Go_Prelude.fields (blank_colon l) in
       if length fs < 10 \<or> fs ! 0 \<noteq> name then totals
       else (fst totals + parse_uint_value (fs ! 1), snd totals + parse_uint_value (fs ! 9)))"

definition network_bytes_from :: "string \<Rightarrow> string \<Rightarrow> 64 word \<times> 64 word" where
  "network_bytes_from s name = fold (add_interface name) (scan_lines s) (0, 0)"

definition network_bytes :: "probe_env \<Rightarrow> string \<Rightarrow> 64 word \<times> 64 word" where
  "network_bytes en name = (case pe_read_file en ''/proc/net/dev'' of Inl _ \<Rightarrow> (0, 0) | Inr s \<Rightarrow> network_bytes_from s name)"

definition probe_dns :: "probe_env \<Rightarrow> string \<Rightarrow> string option \<times> int" where
  "probe_dns en address = (case split_host_port address of None \<Rightarrow> (Some (''address '' @ address), 0)
     | Some (host, port) \<Rightarrow> let message = a_query en ''example.com.'' in
        (case pe_exchange en ''udp'' [] (join_host_port (connectable host) port) message of
           (Inl e, t) \<Rightarrow> (Some e, t)
         | (Inr response, t) \<Rightarrow> (validate_dns_response en message response, t)))"

section \<open>The metrics\<close>

record engine_metrics =
  em_timestamp :: int
  em_process_count :: nat
  em_rss_bytes :: "64 word"
  em_swap_bytes :: "64 word"
  em_tcp_connections :: nat
  em_rx_bytes :: "64 word"
  em_tx_bytes :: "64 word"
  em_interface :: string
  em_dns_ok :: bool
  em_dns_latency :: int
  em_dns_error :: string
  em_dot_ok :: bool
  em_dot_latency :: int
  em_dot_error :: string

definition add_process :: "probe_env \<Rightarrow> 64 word \<Rightarrow> nat \<Rightarrow> 64 word \<times> 64 word \<Rightarrow> 64 word \<times> 64 word" where
  "add_process en page pid totals = (let dir = ''/proc/'' @ nat_str pid;
       rss = (case pe_read_file en (dir @ ''/statm'') of Inl _ \<Rightarrow> 0 | Inr s \<Rightarrow>
         let fs = Go_Prelude.fields s in if 1 < length fs then parse_uint_value (fs ! 1) * page else 0);
       swap = (case pe_read_file en (dir @ ''/status'') of Inl _ \<Rightarrow> 0 | Inr s \<Rightarrow>
         (case swap_bytes_from s of Inl _ \<Rightarrow> 0 | Inr b \<Rightarrow> b)) in
     (fst totals + rss, snd totals + swap))"

text \<open>One listener of \<^verbatim>\<open>collectDOTMetrics\<close>: the label of a failure and the latency.\<close>

definition add_dot :: "string \<times> dot_result \<Rightarrow> bool \<times> string list \<times> int \<Rightarrow> bool \<times> string list \<times> int" where
  "add_dot item acc = (case (item, acc) of ((label, r), (ok, failures, latency)) \<Rightarrow>
     let latency = max latency (do_latency r) in
     if do_status r = ''disabled'' then (False, failures @ [label @ '': disabled''], latency)
     else if do_status r \<noteq> ''ok'' then (False, failures @ [label @ '': '' @ do_error r], latency)
     else (ok, failures, latency))"

text \<open>\<^verbatim>\<open>(diagnostics.Runner{}).Run\<close> of the two DoT probes, whose order of arrival does not matter.\<close>

definition collect_dot_metrics :: "probe_env \<Rightarrow> nat list \<Rightarrow> config \<Rightarrow> engine_metrics \<Rightarrow> engine_metrics" where
  "collect_dot_metrics en arrival cfg m = (let d = diag_run en [] arrival [] [] cfg ''dot'' in
     case (dg_dot d, dg_internal_dot d) of
       (Some public, Some internal) \<Rightarrow>
         (let (ok, failures, latency) = fold add_dot [(''public DoT'', public), (''internal DoT'', internal)] (True, [], em_dot_latency m) in
          m\<lparr>em_dot_ok := ok, em_dot_latency := latency, em_dot_error := join_str ''; '' failures\<rparr>)
     | _ \<Rightarrow> m)"

definition collect_metrics :: "probe_env \<Rightarrow> 64 word \<Rightarrow> nat list \<Rightarrow> nat list \<Rightarrow> config \<Rightarrow> engine_metrics" where
  "collect_metrics en page arrival pids cfg = (let name = nw_ingress_iface (cf_network cfg);
       (rss, swap) = fold (add_process en page) pids (0, 0);
       (rx, tx) = network_bytes en name;
       (err, t) = probe_dns en (dn_listen_udp (cf_dns cfg)) in
     collect_dot_metrics en arrival cfg
      \<lparr>em_timestamp = pe_now en div 10 ^ 9, em_process_count = length pids, em_rss_bytes = rss, em_swap_bytes = swap,
       em_tcp_connections = count_proc_lines (pe_read_file en ''/proc/net/tcp'') + count_proc_lines (pe_read_file en ''/proc/net/tcp6''),
       em_rx_bytes = rx, em_tx_bytes = tx, em_interface = name, em_dns_ok = (err = None),
       em_dns_latency = (if err = None then t else 0), em_dns_error = (case err of None \<Rightarrow> [] | Some e \<Rightarrow> e),
       em_dot_ok = False, em_dot_latency = 0, em_dot_error = []\<rparr>)"

section \<open>The wait ends with the context\<close>

lemma wait_from:
  assumes "m \<le> k" and "ended k \<or> probe_dns_readiness (en k) probe = None"
  shows "\<exists>r. wait_dns_readiness en ended probe m = Some r \<and>
    (r = None \<longleftrightarrow> (\<exists>i. m \<le> i \<and> i \<le> k \<and> probe_dns_readiness (en i) probe = None \<and> (\<forall>j. m \<le> j \<and> j < i \<longrightarrow> \<not> ended j)))"
  using assms(1)
proof (induction "k - m" arbitrary: m)
  case 0
  then have "m = k" by simp
  then show ?case using assms(2) by (subst wait_dns_readiness.simps) (auto split: option.split)
next
  case (Suc d)
  show ?case
  proof (cases "probe_dns_readiness (en m) probe")
    case None
    with Suc.prems show ?thesis by (subst wait_dns_readiness.simps) (auto intro!: exI [of _ m])
  next
    case (Some e)
    show ?thesis
    proof (cases "ended m")
      case True
      have "\<not> (\<exists>i. m \<le> i \<and> i \<le> k \<and> probe_dns_readiness (en i) probe = None \<and> (\<forall>j. m \<le> j \<and> j < i \<longrightarrow> \<not> ended j))"
        using Some True by (metis le_neq_implies_less le_refl option.distinct(1))
      with Some True show ?thesis by (subst wait_dns_readiness.simps) simp
    next
      case False
      have "d = k - Suc m" "Suc m \<le> k" using Suc.hyps(2) Suc.prems by auto
      from Suc.hyps(1) [OF this] obtain r where r: "wait_dns_readiness en ended probe (Suc m) = Some r"
        "r = None \<longleftrightarrow> (\<exists>i. Suc m \<le> i \<and> i \<le> k \<and> probe_dns_readiness (en i) probe = None \<and> (\<forall>j. Suc m \<le> j \<and> j < i \<longrightarrow> \<not> ended j))"
        by blast
      have "(\<exists>i. m \<le> i \<and> i \<le> k \<and> probe_dns_readiness (en i) probe = None \<and> (\<forall>j. m \<le> j \<and> j < i \<longrightarrow> \<not> ended j)) \<longleftrightarrow> r = None"
        unfolding r(2) using Some False
        by (metis Suc_leD le_neq_implies_less not_less_eq_eq option.discI order_antisym_conv)
      with r(1) Some False show ?thesis by (subst wait_dns_readiness.simps) simp
    qed
  qed
qed

text \<open>
  Claim C35. The wait for the DNS service returns as soon as an attempt succeeds or the context ends, and it
  reports success exactly when an attempt succeeded before the select had taken the end of the context.
\<close>

theorem readiness_wait_ends:
  assumes "ended k \<or> probe_dns_readiness (en k) probe = None"
  shows "\<exists>r. wait_dns_readiness en ended probe 0 = Some r \<and>
    (r = None \<longleftrightarrow> (\<exists>i \<le> k. probe_dns_readiness (en i) probe = None \<and> (\<forall>j < i. \<not> ended j)))"
  using wait_from [OF le0, of ended k en probe] assms by auto

definition sample_readiness :: readiness_probe where
  "sample_readiness = \<lparr>rp_label = ''internal DNS TCP'', rp_address = ''127.0.0.1:53'', rp_domain = ''example.com.'',
     rp_network = ''tcp'', rp_server = []\<rparr>"

definition sample_silent :: probe_env where
  "sample_silent = sample_probe_env\<lparr>pe_exchange := (\<lambda>_ _ _ _. (Inl ''refused'', 5))\<rparr>"

theorem readiness_wait_ends_witness:
  "wait_dns_readiness (\<lambda>k. if k < 2 then sample_silent else sample_probe_env) (\<lambda>k. 5 \<le> k) sample_readiness 0 = Some None"
proof -
  have "probe_dns_readiness sample_probe_env sample_readiness = None" by code_simp
  then show ?thesis
    using readiness_wait_ends [of "\<lambda>k. 5 \<le> k" 5 "\<lambda>k. if k < 2 then sample_silent else sample_probe_env" sample_readiness]
    by (auto simp: not_le intro!: exI [of _ "2 :: nat"])
qed

section \<open>No figure of the swap wraps around\<close>

lemma swap_from_exact:
  "case swap_from ls failed of Inr b \<Rightarrow> (\<exists>l k kb. l \<in> set ls \<and> Go_Prelude.fields l = [''VmSwap:'', k, ''kB''] \<and>
       parse_uint64 k = Some kb \<and> unat b = kb * 1024)
   | Inl (SwapOverflow kb) \<Rightarrow> 2 ^ 64 \<le> kb * 1024 | Inl _ \<Rightarrow> True"
proof (induction ls)
  case (Cons l ls)
  let ?fs = "Go_Prelude.fields l"
  show ?case
  proof (cases "?fs = [] \<or> hd ?fs \<noteq> ''VmSwap:''")
    case True
    with Cons show ?thesis by (auto simp: Let_def split: sum.splits swap_error.splits)
  next
    case False
    show ?thesis
    proof (cases "length ?fs = 3 \<and> ?fs ! 2 = ''kB''")
      case True
      then obtain a k c where fs: "?fs = [a, k, c]" by (auto simp: eval_nat_numeral length_Suc_conv)
      have unat: "unat (of_nat kb * 1024 :: 64 word) = kb * 1024" if "kb \<le> (2 ^ 64 - 1) div 1024" for kb
      proof -
        have "kb * 1024 < 2 ^ 64" using that by simp
        moreover have "unat (of_nat (kb * 1024) :: 64 word) = (kb * 1024) mod 2 ^ 64" by (subst unat_of_nat) simp
        ultimately show ?thesis by simp
      qed
      from True False fs show ?thesis
        using unat by (auto simp: Let_def split: option.splits)
    qed (use False in \<open>auto simp: Let_def\<close>)
  qed
qed simp

text \<open>
  The swap of a process is the kilobytes of its \<^verbatim>\<open>VmSwap\<close> line times 1024, computed without a
  wrap-around at 64 bits; a value is refused as too large only when it is.
\<close>

theorem swap_bytes_exact:
  "case swap_bytes_from s of Inr b \<Rightarrow> (\<exists>l k kb. l \<in> set (scan_lines s) \<and> Go_Prelude.fields l = [''VmSwap:'', k, ''kB''] \<and>
       parse_uint64 k = Some kb \<and> unat b = kb * 1024)
   | Inl (SwapOverflow kb) \<Rightarrow> 2 ^ 64 \<le> kb * 1024 | Inl _ \<Rightarrow> True"
  unfolding swap_bytes_from_def by (rule swap_from_exact)

section \<open>What a good DoT figure means\<close>

definition dot_serves :: "probe_env \<Rightarrow> dns_config \<Rightarrow> string \<Rightarrow> bool" where
  "dot_serves en dns listen \<longleftrightarrow> (\<exists>cert host port response a.
     read_certificate en (dn_cert_file dns) = Inr cert \<and> pe_now en \<le> ce_not_after cert \<and> ce_verify cert (dn_dot_domain dns) = None \<and>
     split_host_port listen = Some (host, port) \<and>
     (\<exists>t. pe_dot en (dn_dot_domain dns) (join_host_port ''127.0.0.1'' port) =
        \<lparr>dp_dial = None, dp_deadline = None, dp_write = None, dp_read = Inr response, dp_latency = t\<rparr>) \<and>
     dm_response response \<and> dm_id response = pe_id en \<and> dm_opcode response = 0 \<and> dm_rcode response = 0 \<and>
     dm_question response = [\<lparr>qu_name = ''example.com.'', qu_type = 1, qu_class = 1\<rparr>] \<and>
     RrA 1 a \<in> set (dm_answer response) \<and> ip_to4 a \<noteq> None)"

lemma is_ipv4_answer_iff: "is_ipv4_answer r \<longleftrightarrow> (\<exists>a. r = RrA 1 a \<and> ip_to4 a \<noteq> None)"
  by (cases r) auto

lemma ipv4_answer_ex: "list_ex is_ipv4_answer rs \<longleftrightarrow> (\<exists>a. RrA 1 a \<in> set rs \<and> ip_to4 a \<noteq> None)"
  by (induction rs) (auto simp: is_ipv4_answer_iff)

lemma one_question: "length qs \<noteq> 1 \<or> qs ! 0 \<noteq> q \<longleftrightarrow> qs \<noteq> [q]"
  by (cases qs) auto

lemma validate_dns_response_None: "validate_dns_response en (a_query en name) r = None \<longleftrightarrow>
    dm_response r \<and> dm_id r = pe_id en \<and> dm_opcode r = 0 \<and> dm_rcode r = 0 \<and>
    dm_question r = [\<lparr>qu_name = name, qu_type = 1, qu_class = 1\<rparr>] \<and> (\<exists>a. RrA 1 a \<in> set (dm_answer r) \<and> ip_to4 a \<noteq> None)"
  unfolding validate_dns_response_def one_question ipv4_answer_ex [symmetric] by (auto simp: a_query_def)

lemma dot_peer_eq: "dp_dial p = None \<and> dp_deadline p = None \<and> dp_write p = None \<and> dp_read p = Inr r \<longleftrightarrow>
    (\<exists>t. p = \<lparr>dp_dial = None, dp_deadline = None, dp_write = None, dp_read = Inr r, dp_latency = t\<rparr>)"
  by (cases p) auto

lemma exchange_dot_None: "fst (exchange_dot en domain listen) = None \<longleftrightarrow> (\<exists>host port response.
    split_host_port listen = Some (host, port) \<and>
    (\<exists>t. pe_dot en domain (join_host_port ''127.0.0.1'' port) =
       \<lparr>dp_dial = None, dp_deadline = None, dp_write = None, dp_read = Inr response, dp_latency = t\<rparr>) \<and>
    validate_dns_response en (a_query en ''example.com.'') response = None)"
  unfolding dot_peer_eq [symmetric]
  by (auto simp: exchange_dot_def Let_def split: option.splits sum.splits prod.splits)

lemma dot_status_ok: "do_status (probe_dot_listener en dns listen) = ''ok'' \<longleftrightarrow> dot_serves en dns listen"
proof (cases "read_certificate en (dn_cert_file dns)")
  case (Inl e)
  then show ?thesis by (simp add: probe_dot_listener_def dot_serves_def Let_def)
next
  case (Inr cert)
  obtain err t where ex: "exchange_dot en (dn_dot_domain dns) listen = (err, t)" by (cases "exchange_dot en (dn_dot_domain dns) listen")
  have "split_host_port [] = None" by (simp add: split_host_port_def last_index_char_def)
  then have "dot_serves en dns listen \<longleftrightarrow> listen \<noteq> [] \<and> pe_now en \<le> ce_not_after cert \<and> ce_verify cert (dn_dot_domain dns) = None \<and> err = None"
    using exchange_dot_None [of en "dn_dot_domain dns" listen] unfolding ex fst_conv
    by (cases "listen = []") (auto simp: dot_serves_def Inr validate_dns_response_None)
  then show ?thesis by (auto simp: probe_dot_listener_def Inr Let_def ex split: option.splits)
qed

text \<open>
  Claim C36. The dashboard reports DNS over TLS as good exactly when both listeners were reached over TLS
  under the configured domain and answered the question that was asked, without an error code and with an
  IPv4 address, and the certificate file holds a certificate of that domain that has not expired.
\<close>

theorem dot_metric_sound:
  assumes "arrives 2 arrival"
  shows "em_dot_ok (collect_metrics en page arrival pids cfg) \<longleftrightarrow>
    dot_serves en (cf_dns cfg) (dn_listen_public_dot (cf_dns cfg)) \<and> dot_serves en (cf_dns cfg) (dn_listen_dot (cf_dns cfg))"
proof -
  let ?dns = "cf_dns cfg"
  let ?public = "probe_dot_listener en ?dns (dn_listen_public_dot ?dns)" and ?internal = "probe_dot_listener en ?dns (dn_listen_dot ?dns)"
  have "length (diag_parts en [] [] [] cfg ''dot'') = 2" by (simp add: diag_parts_def)
  with assms have run: "diag_run en [] arrival [] [] cfg ''dot'' = fold take_part (diag_parts en [] [] [] cfg ''dot'') no_results"
    by (intro diag_run_fold) simp
  have "dg_dot (diag_run en [] arrival [] [] cfg ''dot'') = Some ?public"
    "dg_internal_dot (diag_run en [] arrival [] [] cfg ''dot'') = Some ?internal"
    by (simp_all add: run diag_parts_def probe_dot_def)
  then have "em_dot_ok (collect_dot_metrics en arrival cfg m) \<longleftrightarrow> do_status ?public = ''ok'' \<and> do_status ?internal = ''ok''" for m
    by (auto simp: collect_dot_metrics_def add_dot_def Let_def)
  then show ?thesis
    by (simp add: collect_metrics_def Let_def dot_status_ok split: prod.split)
qed

definition sample_both_listeners :: config where
  "sample_both_listeners = sample_probe_config\<lparr>cf_dns := (cf_dns sample_probe_config)\<lparr>dn_listen_public_dot := ''0.0.0.0:853''\<rparr>\<rparr>"

theorem dot_metric_sound_witness:
  "em_dot_ok (collect_metrics sample_probe_env 4096 [1, 0] [] sample_both_listeners) \<and>
     dot_serves sample_probe_env (cf_dns sample_both_listeners) ''0.0.0.0:853''"
proof -
  have ok: "em_dot_ok (collect_metrics sample_probe_env 4096 [1, 0] [] sample_both_listeners)" by code_simp
  have "dn_listen_public_dot (cf_dns sample_both_listeners) = ''0.0.0.0:853''" by (simp add: sample_both_listeners_def)
  moreover have "arrives 2 [1, 0]" by (simp add: arrives_def eval_nat_numeral)
  ultimately show ?thesis using dot_metric_sound [of "[1, 0]"] ok by metis
qed

text \<open>
  The probe of an upstream is satisfied by an empty answer, which the readiness wait and the figure refuse:
  an upstream that answers nothing is reported as good.
\<close>

lemma empty_answer_is_ok:
  "let en = sample_probe_env\<lparr>pe_exchange := (\<lambda>_ _ _ m. (Inr (m\<lparr>dm_response := True\<rparr>), 5))\<rparr> in
     dr_status (probe_dns_upstream en (''cn'', ''example.com.'', ''1.1.1.1'')) = ''ok'' \<and>
     fst (probe_dns en ''127.0.0.1:53'') \<noteq> None \<and> probe_dns_readiness en sample_readiness \<noteq> None"
  by code_simp

end
