(* ===== verification/Cli.thy ===== *)
theory Cli
  imports Api_Props Diagnostics Install
begin

text \<open>
  \<^verbatim>\<open>internal/app/app.go\<close> and \<^verbatim>\<open>internal/client/client.go\<close>: the choice of the command, the requests to the
  daemon over its control socket, and the commands that work on the database themselves. The flags are
  parsed already; the exchange over the socket is a parameter, as are JSON decoding and indenting.
\<close>

section \<open>The client\<close>

text \<open>Method, path, content type and body; an error, or the reply.\<close>

type_synonym transport = "string \<Rightarrow> string \<Rightarrow> string \<Rightarrow> string option \<Rightarrow> string + http_reply"

definition response_limit :: nat where
  "response_limit = 16 * 2 ^ 20"

definition not_2xx :: "http_reply \<Rightarrow> bool" where
  "not_2xx resp \<longleftrightarrow> hp_status resp < 200 \<or> 300 \<le> hp_status resp"

definition error_field :: "decoders \<Rightarrow> string \<Rightarrow> string option" where
  "error_field dec data = Option.bind (json_parse dec data) (\<lambda>j. Option.bind (json_fields j)
     (\<lambda>ms. struct_field ms ''error'' json_string []))"

definition client_do :: "decoders \<Rightarrow> transport \<Rightarrow> string \<Rightarrow> string \<Rightarrow> string option \<Rightarrow> string + string" where
  "client_do dec send m path body =
     (case send m path (if body = None then [] else ''application/json'') body of
        Inl e \<Rightarrow> Inl (''connect to 5gws daemon: '' @ e)
      | Inr resp \<Rightarrow> (case hp_body resp of Inl e \<Rightarrow> Inl e | Inr full \<Rightarrow> let data = take response_limit full in
          if not_2xx resp then
            (case error_field dec data of
               Some e \<Rightarrow> if e = [] then Inl (''daemon returned '' @ hp_text resp) else Inl (''daemon: '' @ e)
             | None \<Rightarrow> Inl (''daemon returned '' @ hp_text resp))
          else Inr data))"

definition client_do_raw :: "transport \<Rightarrow> string \<Rightarrow> string \<Rightarrow> string \<Rightarrow> string option \<Rightarrow> string + string" where
  "client_do_raw send m path content_type body =
     (case send m path content_type body of
        Inl e \<Rightarrow> Inl (''connect to 5gws daemon: '' @ e)
      | Inr resp \<Rightarrow> (case hp_body resp of Inl e \<Rightarrow> Inl e | Inr full \<Rightarrow> let data = take response_limit full in
          if not_2xx resp then Inl (''daemon returned '' @ hp_text resp @ '': '' @ data) else Inr data))"

section \<open>Commands\<close>

datatype cli_command = Usage | RunDaemon | RunInstall | DeployCertificate | ResetAdmin | Uninstall | InstallComponent bool
  | Online string string | ShowLogs | CompactDatabase | Export | Import | UnknownCommand string

definition command_of :: "string list \<Rightarrow> cli_command" where
  "command_of args = (case args of [] \<Rightarrow> Usage | name # _ \<Rightarrow>
     if name \<in> {''help'', ''--help'', ''-h''} then Usage
     else if name = ''daemon'' then RunDaemon
     else if name = ''install'' then RunInstall
     else if name = ''deploy-certificate'' then DeployCertificate
     else if name = ''reset-admin'' then ResetAdmin
     else if name = ''uninstall'' then Uninstall
     else if name = ''install-smartdns'' then InstallComponent True
     else if name = ''install-ssrust'' then InstallComponent False
     else if name = ''status'' then Online ''GET'' ''/api/v1/dashboard''
     else if name = ''doctor'' then Online ''POST'' ''/api/v1/diagnostics/run''
     else if name = ''logs'' then ShowLogs
     else if name = ''compact'' then CompactDatabase
     else if name = ''apply'' then Online ''POST'' ''/api/v1/apply''
     else if name = ''update'' then Online ''POST'' ''/api/v1/update''
     else if name = ''ios-link'' then Online ''GET'' ''/api/v1/ios/profile''
     else if name = ''export'' then Export
     else if name = ''import'' then Import
     else UnknownCommand name)"

definition online :: "decoders \<Rightarrow> (json \<Rightarrow> string) \<Rightarrow> transport \<Rightarrow> string \<Rightarrow> string \<Rightarrow> string + string" where
  "online dec indent send m path = map_sum id
     (\<lambda>data. (case json_parse dec data of Some v \<Rightarrow> indent v | None \<Rightarrow> data) @ [line_feed]) (client_do dec send m path None)"

definition show_logs :: "decoders \<Rightarrow> transport \<Rightarrow> string + string" where
  "show_logs dec send = (case client_do dec send ''GET'' ''/api/v1/logs?lines=500'' None of Inl e \<Rightarrow> Inl e
     | Inr data \<Rightarrow> (case Option.bind (json_parse dec data) (\<lambda>j. Option.bind (json_fields j)
           (\<lambda>ms. struct_field ms ''logs'' json_string [])) of
         None \<Rightarrow> Inl ''bad reply'' | Some logs \<Rightarrow> Inr logs))"

text \<open>\<^verbatim>\<open>VACUUM\<close> rewrites the file, not its tables.\<close>

definition compact :: "(db, store_error, unit) act" where
  "compact = call DriverFailed (\<lambda>d. (Inr (), d))"

definition compact_command :: "setup_env \<Rightarrow> string list \<Rightarrow> string \<Rightarrow> unit setup_act" where
  "compact_command en extra database =
     (if extra \<noteq> [] then setup_fail BadUsage
      else if \<not> se_root en then fail NotRoot
      else seq (open_store (path_clean database)) (\<lambda>_. on_database (path_clean database) SetupStore compact))"

definition reset_admin_command :: "setup_env \<Rightarrow> string list \<Rightarrow> string \<Rightarrow> (string \<times> string) setup_act" where
  "reset_admin_command en extra database =
     (if extra \<noteq> [] then setup_fail BadUsage
      else if \<not> se_root en then fail NotRoot
      else seq (call (AppInner (SetupAuth TokenFailed)) (\<lambda>c. (Inr (b64url_encode (se_raw en)), c))) (\<lambda>password.
        seq (open_store (path_clean database)) (\<lambda>_.
        seq (on_database (path_clean database) SetupAuth (reset_admin (se_bcrypt en) (se_now en) password)) (\<lambda>user.
        ret (us_username user, password)))))"

definition told :: "string + 'a \<Rightarrow> 'a setup_act" where
  "told r = (case r of Inl e \<Rightarrow> setup_fail (Told e) | Inr x \<Rightarrow> ret x)"

definition export_backup :: "transport \<Rightarrow> string list \<Rightarrow> unit setup_act" where
  "export_backup send args = (case args of
     [file] \<Rightarrow> seq (told (client_do_raw send ''GET'' ''/api/v1/backup'' [] None)) (\<lambda>data. write_path file data (oct [6, 0, 0]))
   | _ \<Rightarrow> setup_fail BadUsage)"

definition import_backup :: "transport \<Rightarrow> string list \<Rightarrow> string setup_act" where
  "import_backup send args = (case args of
     [file] \<Rightarrow> seq (read_path file) (\<lambda>toml.
       seq (told (client_do_raw send ''POST'' ''/api/v1/backup'' ''application/toml'' (Some toml))) (\<lambda>data. ret (trim_space data)))
   | _ \<Rightarrow> setup_fail BadUsage)"

definition run_install_component :: "setup_env \<Rightarrow> install_options \<Rightarrow> bool \<Rightarrow> unit setup_act" where
  "run_install_component en opts smart_dns = on_runtime
     (if smart_dns then install_smart_dns (ae_install (se_app en)) opts else install_ss_rust (ae_install (se_app en)) opts)"

section \<open>The control socket\<close>

text \<open>
  What a request of the client is for the server, and the reply the client sees. The texts of statuses
  and payloads are parameters. A handler reads at most 8 MiB of a body.
\<close>

definition request_limit :: nat where
  "request_limit = 8 * 2 ^ 20"

definition control_request :: "string \<Rightarrow> string \<Rightarrow> string option \<Rightarrow> request" where
  "control_request m path body = (let (p, q) = (takeWhile (\<lambda>c. c \<noteq> CHR ''?'') path, dropWhile (\<lambda>c. c \<noteq> CHR ''?'') path) in
     \<lparr>rq_method = m, rq_path = p, rq_id = [], rq_query = drop 1 q, rq_host = ''unix'', rq_remote = ''@'', rq_origin = [],
      rq_cookie = None, rq_operation = [],
      rq_body = (case body of None \<Rightarrow> NoBody | Some t \<Rightarrow> TomlText (take request_limit t))\<rparr>)"

definition control_socket :: "(int \<Rightarrow> string) \<Rightarrow> (payload \<Rightarrow> string) \<Rightarrow> 'rt api_env \<Rightarrow> 'rt server \<times> bool list \<Rightarrow> transport" where
  "control_socket st enc en w m path content_type body = (let resp = answer (fst (serve en True (control_request m path body) w)) in
     Inr \<lparr>hp_status = rp_status resp, hp_text = st (rp_status resp), hp_body = Inr (enc (rp_body resp))\<rparr>)"

text \<open>A router that finds the routes without parameters.\<close>

definition finds_static :: "'rt api_env \<Rightarrow> bool" where
  "finds_static en \<longleftrightarrow> (\<forall>rs m p r. find (\<lambda>r. rt_method r = m \<and> rt_pattern r = p) rs = Some r \<longrightarrow> ae_chi en rs m p = Some r)"

text \<open>The method and the path of a command's request, and the handler it is meant for.\<close>

definition command_request :: "string \<Rightarrow> (string \<times> string) option" where
  "command_request name = (case command_of [name] of Online m path \<Rightarrow> Some (m, path)
     | ShowLogs \<Rightarrow> Some (''GET'', ''/api/v1/logs?lines=500'')
     | Export \<Rightarrow> Some (''GET'', ''/api/v1/backup'')
     | Import \<Rightarrow> Some (''POST'', ''/api/v1/backup'')
     | _ \<Rightarrow> None)"

definition meant_handlers :: "(string \<times> handler) list" where
  "meant_handlers = [(''status'', Dashboard), (''doctor'', RunDiagnostics), (''logs'', Logs), (''apply'', ApplyDraft),
     (''update'', UpdateApply), (''ios-link'', IosProfile), (''export'', ExportBackup), (''import'', ImportBackup)]"

lemma serve_local:
  assumes "finds_static en" and "find (\<lambda>r. rt_method r = rq_method rq \<and> rt_pattern r = rq_path rq) (router True True) = Some r"
    and "rt_protected r"
  shows "serve en True rq = handle en local_user rq (rt_handler r)"
proof -
  have "ae_chi en (router True True) (rq_method rq) (rq_path rq) = Some r" using assms(1,2) by (simp add: finds_static_def)
  with assms(3) show ?thesis by (simp add: serve_def authenticated_def seq_ret)
qed

lemma control_routes:
  "list_all (\<lambda>(name, h). case command_request name of None \<Rightarrow> False | Some (m, path) \<Rightarrow>
     (case find (\<lambda>r. rt_method r = m \<and> rt_pattern r = takeWhile (\<lambda>c. c \<noteq> CHR ''?'') path) (router True True) of
        None \<Rightarrow> False | Some r \<Rightarrow> rt_protected r \<and> rt_handler r = h)) meant_handlers"
  by code_simp

lemma served_as_meant:
  assumes "finds_static en" and "(name, h) \<in> set meant_handlers" and "command_request name = Some (m, path)"
  shows "serve en True (control_request m path body) = handle en local_user (control_request m path body) h"
proof -
  obtain r where "find (\<lambda>r. rt_method r = m \<and> rt_pattern r = takeWhile (\<lambda>c. c \<noteq> CHR ''?'') path) (router True True) = Some r"
    "rt_protected r" "rt_handler r = h"
    using bspec [OF control_routes [unfolded list_all_iff] assms(2)] assms(3) by (auto split: option.splits)
  then show ?thesis using serve_local [OF assms(1), of "control_request m path body"] by (simp add: control_request_def)
qed

lemma command_requests:
  "name \<in> fst ` set meant_handlers \<Longrightarrow> command_request name \<noteq> None"
  using control_routes by (fastforce simp: list_all_iff split: option.splits)

section \<open>A backup\<close>

lemma wp_service_save_draft:
  assumes "db_inv (en_up en) (sv_db s)"
  shows "wp (service_save_draft en b) (\<lambda>r s'. sv_draft s' = r \<and> rn_bundle r = bundle_apply_defaults (b\<lparr>b_resolved := []\<rparr>) \<and>
      fst (store_draft (sv_db s', [])) = Inr r \<and> fst (store_active (sv_db s', [])) = fst (store_active (sv_db s, [])) \<and>
      sv_active s' = sv_active s) (\<lambda>_ _. True) s"
proof -
  have saved: "wp (save_draft (en_up en) (en_now en) (b\<lparr>b_resolved := []\<rparr>))
      (\<lambda>r d'. rn_bundle r = bundle_apply_defaults (b\<lparr>b_resolved := []\<rparr>) \<and> fst (store_draft (d', [])) = Inr r \<and>
        fst (store_active (d', [])) = fst (store_active (sv_db s, []))) (\<lambda>_ _. True) (sv_db s)"
    unfolding wp_def
  proof
    fix fs
    obtain r d' fs' where run: "save_draft (en_up en) (en_now en) (b\<lparr>b_resolved := []\<rparr>) (sv_db s, fs) = (r, d', fs')"
      by (metis prod.collapse)
    show "outcome (\<lambda>r d'. rn_bundle r = bundle_apply_defaults (b\<lparr>b_resolved := []\<rparr>) \<and> fst (store_draft (d', [])) = Inr r \<and>
        fst (store_active (d', [])) = fst (store_active (sv_db s, []))) (\<lambda>_ _. True)
        (save_draft (en_up en) (en_now en) (b\<lparr>b_resolved := []\<rparr>) (sv_db s, fs))"
      using save_draft_roundtrip [OF assms run] by (cases r) (simp_all add: run outcome_def)
  qed
  show ?thesis
    unfolding service_save_draft_def
    by (rule wp_seq, simp only: on_db_def wp_lift, rule wp_mono [OF saved]) (auto simp: wp_simps set_draft_def intro!: wp_seq)
qed

text \<open>The answer is a success only if the draft was saved.\<close>

lemma wp_import_backup:
  assumes "db_inv (en_up (ae_service en)) (sv_db (se_service v))" and "rq_body rq = TomlText t" and "ae_toml_decode en t = Some b"
  shows "wp (import_backup_h en rq) (\<lambda>_ v'. rn_bundle (sv_draft (se_service v')) = bundle_apply_defaults (b\<lparr>b_resolved := []\<rparr>) \<and>
      fst (store_draft (sv_db (se_service v'), [])) = Inr (sv_draft (se_service v')) \<and>
      fst (store_active (sv_db (se_service v'), [])) = fst (store_active (sv_db (se_service v), []))) (\<lambda>resp _. 400 \<le> rp_status resp) v"
  unfolding import_backup_h_def decode_toml_def assms(2) request_body.case
  by (simp add: assms(3) seq_ret, rule wp_seq, simp only: on_service_def wp_lift, rule wp_mono [OF wp_service_save_draft [OF assms(1)]])
    (auto simp: wp_simps write_error_def write_status_error_def write_json_def split: api_error.split)

lemma client_do_raw_ok:
  "client_do_raw (control_socket st enc en w) m path ct body = Inr data \<longleftrightarrow>
     (let resp = answer (fst (serve en True (control_request m path body) w)) in
      200 \<le> rp_status resp \<and> rp_status resp < 300 \<and> data = take response_limit (enc (rp_body resp)))"
  by (auto simp: client_do_raw_def control_socket_def Let_def not_2xx_def)

lemma export_backup_run:
  assumes "export_backup send [file] (c, fs) = (Inr (), c', fs')"
  shows "\<exists>data. client_do_raw send ''GET'' ''/api/v1/backup'' [] None = Inr data \<and> disk_of c' file = Some data"
proof -
  have "wp (export_backup send [file]) (\<lambda>_ c'. \<exists>data. client_do_raw send ''GET'' ''/api/v1/backup'' [] None = Inr data \<and>
      disk_of c' file = Some data) (\<lambda>_ _. True) c"
    by (auto simp: export_backup_def told_def wp_simps write_path_def intro!: wp_seq split: sum.split)
  from wp_run [OF this assms] show ?thesis by simp
qed

lemma import_backup_run:
  assumes "import_backup send [file] (c, fs) = (Inr shown, c', fs')"
  shows "\<exists>toml data. disk_of c file = Some toml \<and>
    client_do_raw send ''POST'' ''/api/v1/backup'' ''application/toml'' (Some toml) = Inr data \<and> shown = trim_space data"
proof -
  have "wp (import_backup send [file]) (\<lambda>shown c'. \<exists>toml data. disk_of c file = Some toml \<and>
    client_do_raw send ''POST'' ''/api/v1/backup'' ''application/toml'' (Some toml) = Inr data \<and> shown = trim_space data) (\<lambda>_ _. True) c"
    by (auto simp: import_backup_def told_def wp_simps intro!: wp_seq split: sum.split option.split)
  from wp_run [OF this assms] show ?thesis by simp
qed

lemma served_export:
  assumes "finds_static en"
  shows "serve en True (control_request ''GET'' ''/api/v1/backup'' body) = export_backup_h en"
proof -
  have "command_request ''export'' = Some (''GET'', ''/api/v1/backup'')" by code_simp
  from served_as_meant [OF assms _ this, of ExportBackup body] show ?thesis by (simp add: meant_handlers_def)
qed

lemma served_import:
  assumes "finds_static en"
  shows "serve en True (control_request ''POST'' ''/api/v1/backup'' body) =
    import_backup_h en (control_request ''POST'' ''/api/v1/backup'' body)"
proof -
  have "command_request ''import'' = Some (''POST'', ''/api/v1/backup'')" by code_simp
  from served_as_meant [OF assms _ this, of ImportBackup body] show ?thesis by (simp add: meant_handlers_def)
qed

lemma export_served:
  assumes "finds_static en" and "ae_toml_encode en (exported (rn_bundle (sv_active (se_service v)))) = Some t"
  shows "serve en True (control_request ''GET'' ''/api/v1/backup'' None) (v, fs) = (Inr (write_json 200 (PText t)), v, fs)"
  unfolding served_export [OF assms(1)]
  by (simp add: export_backup_h_def service_active_def seq_def observe_def ret_def assms(2))

lemma import_served:
  assumes "finds_static en" and "db_inv (en_up (ae_service en)) (sv_db (se_service v))" and "ae_toml_decode en t = Some b"
    and "length t \<le> request_limit"
    and "serve en True (control_request ''POST'' ''/api/v1/backup'' (Some t)) (v, fs) = (r, v', fs')"
  shows "400 \<le> rp_status (answer r) \<or> rn_bundle (sv_draft (se_service v')) = bundle_apply_defaults (b\<lparr>b_resolved := []\<rparr>) \<and>
      fst (store_draft (sv_db (se_service v'), [])) = Inr (sv_draft (se_service v')) \<and>
      fst (store_active (sv_db (se_service v'), [])) = fst (store_active (sv_db (se_service v), []))"
proof -
  let ?rq = "control_request ''POST'' ''/api/v1/backup'' (Some t)"
  have "rq_body ?rq = TomlText t" using assms(4) by (simp add: control_request_def)
  from wp_run [OF wp_import_backup [where rq = ?rq, OF assms(2) this assms(3)] assms(5) [unfolded served_import [OF assms(1)]]]
  show ?thesis by (cases r) (simp_all add: answer_def)
qed

text \<open>
  Claim C37. A backup restores a configuration: when \<^verbatim>\<open>5gws export\<close> succeeded on one gateway and \<^verbatim>\<open>5gws import\<close>
  of the same file succeeded on another, the first wrote the TOML text of its active configuration, and
  the draft of the second, in the service and in its database, is that configuration with the defaults
  filled in, while the active revision of the second stays. This needs a text of at most 8 MiB: the
  client exports up to 16 MiB, and the server reads no more than 8 MiB of an import.
\<close>

theorem backup_restores_configuration:
  assumes router: "finds_static en1" "finds_static en2" and raw: "\<And>x. enc (PText x) = x"
    and codec: "b = exported (rn_bundle (sv_active (se_service v1)))" "ae_toml_encode en1 b = Some t" "ae_toml_decode en2 t = Some b"
    and small: "length t \<le> request_limit"
    and inv: "db_inv (en_up (ae_service en2)) (sv_db (se_service v2))"
    and export: "export_backup (control_socket st enc en1 (v1, fs1)) [file] (c, gs) = (Inr (), c1, gs1)"
    and same: "disk_of c2 file = disk_of c1 file"
    and import_ok: "import_backup (control_socket st enc en2 (v2, fs2)) [file] (c2, hs) = (Inr shown, c3, hs3)"
    and after: "serve en2 True (control_request ''POST'' ''/api/v1/backup'' (Some t)) (v2, fs2) = (r, v3, fs3)"
  shows "disk_of c1 file = Some t \<and> rn_bundle (sv_draft (se_service v3)) = bundle_apply_defaults b \<and>
    fst (store_draft (sv_db (se_service v3), [])) = Inr (sv_draft (se_service v3)) \<and>
    fst (store_active (sv_db (se_service v3), [])) = fst (store_active (sv_db (se_service v2), []))"
proof -
  have whole: "take response_limit t = t" using small by (simp add: response_limit_def request_limit_def)
  have "answer (fst (serve en1 True (control_request ''GET'' ''/api/v1/backup'' None) (v1, fs1))) = write_json 200 (PText t)"
    using export_served [OF router(1), of v1 t fs1] codec by (simp add: answer_def)
  then have written: "disk_of c1 file = Some t"
    using export_backup_run [OF export] by (auto simp: client_do_raw_ok raw whole write_json_def)
  then have "rp_status (answer r) < 300"
    using import_backup_run [OF import_ok] same after by (auto simp: client_do_raw_ok Let_def)
  moreover have "b\<lparr>b_resolved := []\<rparr> = b" by (simp add: codec(1) exported_def)
  ultimately show ?thesis using import_served [OF router(2) inv codec(3) small after] written by auto
qed

definition sample_text :: "unit server \<Rightarrow> unit api_env" where
  "sample_text v = sample_api\<lparr>ae_toml_encode := (\<lambda>_. Some ''backup''),
     ae_toml_decode := (\<lambda>_. Some (exported (rn_bundle (sv_active (se_service v)))))\<rparr>"

definition second_server :: "unit server" where
  "second_server = sample_server\<lparr>se_service := (se_service sample_server)\<lparr>sv_db := sample_db\<rparr>\<rparr>"

definition sample_payload :: "payload \<Rightarrow> string" where
  "sample_payload p = (case p of PText x \<Rightarrow> x | _ \<Rightarrow> ''{}'')"

lemma sample_codec:
  "exported (rn_bundle (sv_active (se_service second_server))) = exported (rn_bundle sample_revision)"
  "ae_toml_encode (sample_text sample_server) x = Some ''backup''"
  "ae_toml_decode (sample_text sample_server) y = Some (exported (rn_bundle sample_revision))"
  "ae_service (sample_text sample_server) = sample_unit_env"
  by (simp_all add: second_server_def sample_text_def sample_server_def sample_api_def)

lemma sample_static: "finds_static (sample_text v)"
  by (simp add: finds_static_def sample_text_def sample_api_def sample_chi_def)

lemma sample_up: "en_up sample_unit_env = (\<lambda>_. None)"
  by (simp add: sample_unit_env_def)

lemma sample_resolved: "(exported b)\<lparr>b_resolved := []\<rparr> = exported b"
  by (simp add: exported_def)

lemma trim_sample: "trim_space ''{}'' = ''{}''"
  by code_simp

lemma sample_import_valid:
  "validate (en_up sample_unit_env) (b_config (bundle_apply_defaults (exported (rn_bundle sample_revision)))) = None"
proof -
  have "validate (en_up sample_unit_env) (b_config (bundle_apply_defaults (rn_bundle sample_revision))) = None" by code_simp
  moreover have "b_config (bundle_apply_defaults (exported b)) = b_config (bundle_apply_defaults b)" for b
    by (simp add: bundle_apply_defaults_def exported_def Let_def)
  ultimately show ?thesis by simp
qed

lemma sample_import_run:
  "\<exists>r v3. serve (sample_text sample_server) True (control_request ''POST'' ''/api/v1/backup'' (Some ''backup'')) (second_server, []) =
     (Inr (write_json 200 (PRevision r)), v3, [])"
proof -
  let ?rq = "control_request ''POST'' ''/api/v1/backup'' (Some ''backup'')"
  have "db_app_state sample_db = Some (1, 1)" "db_rev_seq sample_db < 2 ^ 63 - 1" by (simp_all add: sample_db_simps)
  note run = save_draft_run [OF sample_db_inv [folded sample_up] sample_import_valid this, of "en_now sample_unit_env"]
  have "rq_body ?rq = TomlText ''backup''" by code_simp
  then show ?thesis
    unfolding served_import [OF sample_static]
    by (simp add: import_backup_h_def decode_toml_def sample_codec seq_ret on_service_def service_save_draft_def lift_act_def
        seq_def on_db_def set_draft_def modify_def ret_def second_server_def run sample_resolved, blast)
qed

theorem backup_restores_configuration_witness:
  "\<exists>c1 c3 v3 r fs3. let en = sample_text sample_server; send = (\<lambda>w. control_socket (\<lambda>_. []) sample_payload en w) in
     export_backup (send (sample_server, [])) [''/root/backup.toml''] (sample_host, []) = (Inr (), c1, []) \<and>
     import_backup (send (second_server, [])) [''/root/backup.toml''] (c1, []) = (Inr ''{}'', c3, []) \<and>
     serve en True (control_request ''POST'' ''/api/v1/backup'' (Some ''backup'')) (second_server, []) = (r, v3, fs3) \<and>
     rn_bundle (sv_draft (se_service v3)) = bundle_apply_defaults (exported (rn_bundle sample_revision))"
proof -
  let ?en = "sample_text sample_server" and ?file = "''/root/backup.toml''"
  let ?s1 = "control_socket (\<lambda>_. []) sample_payload ?en (sample_server, [])"
  let ?s2 = "control_socket (\<lambda>_. []) sample_payload ?en (second_server, [])"
  obtain r v3 where z: "serve ?en True (control_request ''POST'' ''/api/v1/backup'' (Some ''backup'')) (second_server, []) =
     (Inr (write_json 200 (PRevision r)), v3, [])" using sample_import_run by blast
  have "client_do_raw ?s1 ''GET'' ''/api/v1/backup'' [] None = Inr ''backup''"
    using export_served [OF sample_static sample_codec(2), of sample_server "[]"]
    by (simp add: client_do_raw_ok answer_def write_json_def sample_payload_def response_limit_def)
  then obtain c1 where x: "export_backup ?s1 [?file] (sample_host, []) = (Inr (), c1, [])" and "disk_of c1 ?file = Some ''backup''"
    by (simp add: export_backup_def told_def seq_ret write_path_def io_step_def seq_def call_cases)
  moreover have "client_do_raw ?s2 ''POST'' ''/api/v1/backup'' ''application/toml'' (Some ''backup'') = Inr ''{}''"
    by (simp add: client_do_raw_ok z answer_def write_json_def sample_payload_def response_limit_def)
  ultimately have y: "import_backup ?s2 [?file] (c1, []) = (Inr ''{}'', c1, [])"
    by (simp add: import_backup_def told_def seq_def read_path_def call_cases ret_def trim_sample)
  have active: "sv_active (se_service sample_server) = sample_revision" by (simp add: sample_server_def)
  have inv: "db_inv (en_up (ae_service ?en)) (sv_db (se_service second_server))"
    using sample_db_inv by (simp add: sample_codec(4) sample_up second_server_def)
  have "rn_bundle (sv_draft (se_service v3)) = bundle_apply_defaults (exported (rn_bundle sample_revision))"
    using backup_restores_configuration [where enc = sample_payload and t = "''backup''",
        OF sample_static sample_static _ refl sample_codec(2) _ _ inv x refl y z]
    by (simp add: sample_payload_def sample_codec active request_limit_def)
  with x y z show ?thesis by (auto simp: Let_def)
qed

section \<open>An administrator before the installation\<close>

lemma reset_admin_keeps_state: "preserves (\<lambda>d. db_app_state d = x) (reset_admin bc now password)"
  unfolding reset_admin_def
  by (auto intro!: preserves_rules simp: sql_insert_user_def sql_update_users_def sql_update_sessions_def Let_def split: option.split)

lemma wp_reset_admin_command:
  assumes "cp_dbs c (path_clean database) = None"
  shows "wp (reset_admin_command en [] database)
    (\<lambda>_ c'. \<exists>d. cp_dbs c' (path_clean database) = Some d \<and> db_app_state d = None) (\<lambda>_ _. True) c"
proof -
  let ?Q = "\<lambda>_ c'. \<exists>d. cp_dbs c' (path_clean database) = Some d \<and> db_app_state d = None"
  have "db_app_state empty_db = None" by (simp add: empty_db_def)
  note kept = preservesD [OF reset_admin_keeps_state this]
  have "wp (seq (open_store (path_clean database)) (\<lambda>_.
        seq (on_database (path_clean database) SetupAuth (reset_admin (se_bcrypt en) (se_now en) pw)) (\<lambda>user. ret (us_username user, pw))))
      ?Q (\<lambda>_ _. True) c" for pw
    by (rule wp_seq, unfold wp_open_store, rule conjI [OF TrueI], rule wp_seq_database, rule wp_mono [OF kept])
      (use assms in \<open>auto simp: the_db_def wp_simps\<close>)
  then show ?thesis
    by (auto simp: reset_admin_command_def wp_simps wp_call intro!: wp_seq)
qed

text \<open>
  \<^verbatim>\<open>5gws reset-admin\<close> on a machine without a database creates it and shows a password, but writes
  no configuration: every later installation there fails, whatever its options and whatever happened in
  between outside the database. The usage line says that the command creates the administrator.
\<close>

theorem reset_admin_first_blocks_install:
  assumes fresh: "cp_dbs c (path_clean database) = None"
    and reset: "reset_admin_command en [] database (c, fs) = (Inr (name, password), c1, fs1)"
    and later: "cp_dbs c2 = cp_dbs c1"
    and options: "collect en' opts0 input = Inr opts" "\<not> op_dry_run opts" "install_path opts = path_clean database"
  shows "cp_dbs c1 (path_clean database) \<noteq> None \<and> (\<exists>e. fst (run_install en' opts0 input (c2, gs)) = Inl e)"
proof -
  obtain d where "cp_dbs c1 (path_clean database) = Some d" "db_app_state d = None"
    using wp_run [OF wp_reset_admin_command [OF fresh] reset] by auto
  with opened_database_blocks [OF options(1,2)] options(3) later show ?thesis by simp
qed

theorem reset_admin_first_blocks_install_witness:
  "\<exists>shown c1 e. reset_admin_command sample_setup [] ''/var/lib/5gws/5gws.db'' (sample_host, []) = (Inr shown, c1, []) \<and>
     fst (run_install sample_setup sample_options [] (c1, [])) = Inl e"
proof -
  define x where "x = reset_admin_command sample_setup [] ''/var/lib/5gws/5gws.db'' (sample_host, [])"
  have ok: "(case fst x of Inl _ \<Rightarrow> False | Inr _ \<Rightarrow> True) \<and> snd (snd x) = []" unfolding x_def by code_simp
  then obtain name password c1 where x: "x = (Inr (name, password), c1, [])"
    by (cases x) (auto split: sum.splits)
  have "cp_dbs sample_host (path_clean ''/var/lib/5gws/5gws.db'') = None" by (simp add: sample_host_def)
  moreover have "install_path sample_options = path_clean ''/var/lib/5gws/5gws.db''" by code_simp
  moreover have "\<not> op_dry_run sample_options" by code_simp
  ultimately show ?thesis
    using reset_admin_first_blocks_install [OF _ x [unfolded x_def] refl sample_setup_checks(1), of "[]"] x by (auto simp: x_def)
qed

end
