(* ===== verification/Tcp_Relay.thy ===== *)
theory Tcp_Relay
  imports Routing Fallible
begin

text \<open>
  The rest of \<^verbatim>\<open>internal/quic/tcp_proxy.go\<close>: the dialogue with a SOCKS proxy over a connection whose calls
  can fail, and the two copying goroutines of \<^verbatim>\<open>relayTCP\<close>, interleaved with the handler that waits for
  them. A copy is a sequence of reads and writes of any sizes.
\<close>

section \<open>Dialling a proxy\<close>

text \<open>
  A connection: what the peer is going to send, what was written, whether it is open and whether a
  deadline is set. The dial returns it, or leaves it closed.
\<close>

record wire =
  wi_in :: bytes
  wi_out :: bytes
  wi_open :: bool
  wi_deadline :: bool

record dialling =
  dg_tcp :: "wire option"
  dg_udp :: bool

datatype dial_error = DialIo | SocksFailed socks_error | DialRemote | DialResolve

type_synonym 'a dial_act = "(dialling, dial_error, 'a) act"

definition on_wire :: "(wire \<Rightarrow> wire) \<Rightarrow> dialling \<Rightarrow> dialling" where
  "on_wire f d = d\<lparr>dg_tcp := map_option f (dg_tcp d)\<rparr>"

definition dial_tcp :: "bytes \<Rightarrow> unit dial_act" where
  "dial_tcp sends = call DialIo (\<lambda>d. (Inr (), d\<lparr>dg_tcp := Some \<lparr>wi_in = sends, wi_out = [], wi_open = True, wi_deadline = False\<rparr>\<rparr>))"

definition set_deadline :: "bool \<Rightarrow> unit dial_act" where
  "set_deadline b = call DialIo (\<lambda>d. (Inr (), on_wire (\<lambda>w. w\<lparr>wi_deadline := b\<rparr>) d))"

definition send_bytes :: "bytes \<Rightarrow> unit dial_act" where
  "send_bytes bs = call DialIo (\<lambda>d. (Inr (), on_wire (\<lambda>w. w\<lparr>wi_out := wi_out w @ bs\<rparr>) d))"

text \<open>A reader of the connection, as \<open>read_full\<close> and \<open>read_socks_addr\<close>: the value and the bytes that are left.\<close>

definition receive :: "(bytes \<Rightarrow> socks_error + 'a \<times> bytes) \<Rightarrow> 'a dial_act" where
  "receive f = call DialIo (\<lambda>d. case dg_tcp d of None \<Rightarrow> (Inl DialIo, d)
     | Some w \<Rightarrow> (case f (wi_in w) of Inl e \<Rightarrow> (Inl (SocksFailed e), d)
       | Inr (x, rest) \<Rightarrow> (Inr x, on_wire (\<lambda>w. w\<lparr>wi_in := rest\<rparr>) d)))"

definition receive_full :: "nat \<Rightarrow> bytes dial_act" where
  "receive_full n = receive (\<lambda>s. case read_full n s of None \<Rightarrow> Inl ShortRead | Some x \<Rightarrow> Inr x)"

definition close_tcp :: "unit dial_act" where
  "close_tcp = modify (on_wire (\<lambda>w. w\<lparr>wi_open := False\<rparr>))"

definition close_udp :: "unit dial_act" where
  "close_udp = modify (\<lambda>d. d\<lparr>dg_udp := False\<rparr>)"

text \<open>\<^verbatim>\<open>tcp.Close(); return nil, err\<close> on every error of \<open>m\<close>.\<close>

definition or_close :: "unit dial_act \<Rightarrow> 'a dial_act \<Rightarrow> 'a dial_act" where
  "or_close close m = seq (attempt m) (\<lambda>r. case r of Inr x \<Rightarrow> ret x | Inl e \<Rightarrow> seq close (\<lambda>_. fail e))"

text \<open>The common beginning of both dials.\<close>

definition negotiate :: "unit dial_act" where
  "negotiate = seq (set_deadline True) (\<lambda>_. seq (send_bytes greeting) (\<lambda>_. seq (receive_full 2) (\<lambda>m.
     if m ! 0 \<noteq> 5 \<or> m ! 1 \<noteq> 0 then fail (SocksFailed MethodRejected) else ret ())))"

definition socks_tcp :: "bytes \<Rightarrow> string \<Rightarrow> int \<Rightarrow> unit dial_act" where
  "socks_tcp sends host port = seq (dial_tcp sends) (\<lambda>_. or_close close_tcp (
     seq negotiate (\<lambda>_.
     case socks_addr host port of Inl e \<Rightarrow> fail (SocksFailed e) | Inr a \<Rightarrow>
     seq (send_bytes ([5, 1, 0] @ a)) (\<lambda>_.
     seq (receive read_socks_addr) (\<lambda>_.
     set_deadline False)))))"

text \<open>The proxy's own host, \<open>None\<close> if it cannot be split, and the resolver of the relay's address.\<close>

definition open_relay :: "(string \<Rightarrow> bool) \<Rightarrow> string \<Rightarrow> int \<Rightarrow> (string \<times> int) dial_act" where
  "open_relay resolves h port =
     (if \<not> resolves (join_host_port h (int_str port)) then fail DialResolve
      else seq (call DialIo (\<lambda>d. (Inr (), d\<lparr>dg_udp := True\<rparr>))) (\<lambda>_. or_close close_udp (
        seq (set_deadline False) (\<lambda>_. ret (h, port)))))"

definition socks_udp :: "bytes \<Rightarrow> string option \<Rightarrow> (string \<Rightarrow> bool) \<Rightarrow> (string \<times> int) dial_act" where
  "socks_udp sends peer resolves = seq (dial_tcp sends) (\<lambda>_. or_close close_tcp (
     seq negotiate (\<lambda>_.
     seq (send_bytes associate_request) (\<lambda>_.
     seq (receive read_socks_addr) (\<lambda>(host, port).
     seq (if host = ''0.0.0.0'' \<or> host = ''::'' then (case peer of None \<Rightarrow> fail DialRemote | Some h \<Rightarrow> ret h) else ret host) (\<lambda>h.
     open_relay resolves h port))))))"

section \<open>What a dial leaves\<close>

definition idle :: "dialling \<Rightarrow> bool" where
  "idle d \<longleftrightarrow> \<not> dg_udp d \<and> (case dg_tcp d of None \<Rightarrow> True | Some w \<Rightarrow> \<not> wi_open w)"

lemma wp_or_close [wp_intros]:
  "wp m Q (\<lambda>e d. E e (on_wire (\<lambda>w. w\<lparr>wi_open := False\<rparr>) d)) d \<Longrightarrow> wp (or_close close_tcp m) Q E d"
  "wp m Q (\<lambda>e d. E e (d\<lparr>dg_udp := False\<rparr>)) d \<Longrightarrow> wp (or_close close_udp m) Q E d"
  unfolding or_close_def close_tcp_def close_udp_def
  by (rule wp_seq, rule wp_attempt, erule wp_mono; auto simp: wp_simps intro!: wp_seq)+

lemma wp_dialling [wp_simps]:
  "wp (dial_tcp sends) Q E d \<longleftrightarrow> E DialIo d \<and>
     Q () (d\<lparr>dg_tcp := Some \<lparr>wi_in = sends, wi_out = [], wi_open = True, wi_deadline = False\<rparr>\<rparr>)"
  "wp (set_deadline b) Q E d \<longleftrightarrow> E DialIo d \<and> Q () (on_wire (\<lambda>w. w\<lparr>wi_deadline := b\<rparr>) d)"
  "wp (send_bytes bs) Q E d \<longleftrightarrow> E DialIo d \<and> Q () (on_wire (\<lambda>w. w\<lparr>wi_out := wi_out w @ bs\<rparr>) d)"
  by (simp_all add: dial_tcp_def set_deadline_def send_bytes_def wp_call)

lemma wp_receive [wp_simps]:
  "wp (receive f) Q E d \<longleftrightarrow> E DialIo d \<and> (case dg_tcp d of None \<Rightarrow> E DialIo d
     | Some w \<Rightarrow> (case f (wi_in w) of Inl e \<Rightarrow> E (SocksFailed e) d
       | Inr (x, rest) \<Rightarrow> Q x (on_wire (\<lambda>w. w\<lparr>wi_in := rest\<rparr>) d)))"
  by (simp add: receive_def wp_call split: option.split sum.split)

text \<open>A connection under negotiation, at \<open>s\<close> of what the proxy sends and with \<open>out\<close> written.\<close>

definition talking :: "bytes \<Rightarrow> bytes \<Rightarrow> dialling \<Rightarrow> bool" where
  "talking s out d \<longleftrightarrow> \<not> dg_udp d \<and> dg_tcp d = Some \<lparr>wi_in = s, wi_out = out, wi_open = True, wi_deadline = True\<rparr>"

lemma on_wire_simps [simp]: "dg_udp (on_wire f d) = dg_udp d" "dg_tcp (on_wire f d) = map_option f (dg_tcp d)"
  by (simp_all add: on_wire_def)

lemma idle_closed [simp]: "idle (on_wire (\<lambda>w. w\<lparr>wi_open := False\<rparr>) d) \<longleftrightarrow> \<not> dg_udp d"
  by (simp add: idle_def split: option.split)

lemma wp_negotiate:
  assumes "\<not> dg_udp d" and "dg_tcp d = Some \<lparr>wi_in = sends, wi_out = [], wi_open = True, wi_deadline = False\<rparr>"
  shows "wp negotiate (\<lambda>_ d'. \<exists>m s1. read_full 2 sends = Some (m, s1) \<and> m ! 0 = 5 \<and> m ! 1 = 0 \<and> talking s1 greeting d')
    (\<lambda>_ d'. \<not> dg_udp d') d"
  using assms unfolding negotiate_def receive_full_def
  by (auto simp: wp_simps talking_def intro!: wp_seq split: option.split)

lemma wp_socks_tcp:
  assumes "\<not> dg_udp d" and "dg_tcp d = None"
  shows "wp (socks_tcp sends host port) (\<lambda>_ d'. \<not> dg_udp d' \<and> (\<exists>w. dg_tcp d' = Some w \<and> wi_open w \<and> \<not> wi_deadline w \<and>
       dial_socks_tcp host port sends = (wi_out w, Inr (wi_in w)))) (\<lambda>_. idle) d"
proof -
  let ?Q = "\<lambda>_ d'. \<not> dg_udp d' \<and> (\<exists>w. dg_tcp d' = Some w \<and> wi_open w \<and> \<not> wi_deadline w \<and>
       dial_socks_tcp host port sends = (wi_out w, Inr (wi_in w)))"
  have rest: "wp (case socks_addr host port of Inl e \<Rightarrow> fail (SocksFailed e) | Inr a \<Rightarrow>
     seq (send_bytes ([5, 1, 0] @ a)) (\<lambda>_. seq (receive read_socks_addr) (\<lambda>_. set_deadline False))) ?Q (\<lambda>_ d'. \<not> dg_udp d') d1"
    if "read_full 2 sends = Some (m, s1)" "m ! 0 = 5" "m ! 1 = 0" "talking s1 greeting d1" for m s1 d1
    using that
    by (auto simp: wp_simps talking_def dial_socks_tcp_def intro!: wp_seq split: sum.split)
  show ?thesis
    unfolding socks_tcp_def
    by (rule wp_seq, unfold wp_dialling, rule conjI, simp add: assms idle_def, rule wp_or_close,
        rule wp_seq, rule wp_mono [OF wp_negotiate])
      (use assms rest in \<open>auto\<close>)
qed

lemma wp_socks_udp:
  assumes "\<not> dg_udp d" and "dg_tcp d = None"
  shows "wp (socks_udp sends peer resolves) (\<lambda>(h, p) d'. dg_udp d' \<and> (\<exists>w. dg_tcp d' = Some w \<and> wi_open w \<and> \<not> wi_deadline w \<and>
       resolves (join_host_port h (int_str p)) \<and> (\<forall>q. peer = Some q \<longrightarrow> dial_socks_udp q sends = (wi_out w, Inr (h, p))))) (\<lambda>_. idle) d"
proof -
  define Q where "Q = (\<lambda>(h, p) (d' :: dialling). dg_udp d' \<and> (\<exists>w. dg_tcp d' = Some w \<and> wi_open w \<and> \<not> wi_deadline w \<and>
       resolves (join_host_port h (int_str p)) \<and> (\<forall>q. peer = Some q \<longrightarrow> dial_socks_udp q sends = (wi_out w, Inr (h, p)))))"
  have last: "wp (open_relay resolves h p) Q (\<lambda>_ d'. \<not> dg_udp d') d1"
    if "\<not> dg_udp d1" "\<exists>w. dg_tcp d1 = Some w \<and> wi_open w \<and> (\<forall>q. peer = Some q \<longrightarrow> dial_socks_udp q sends = (wi_out w, Inr (h, p)))"
    for h p d1
    using that by (auto simp: open_relay_def wp_simps wp_call talking_def Q_def intro!: wp_seq wp_or_close)
  have rest: "wp (seq (send_bytes associate_request) (\<lambda>_. seq (receive read_socks_addr) (\<lambda>(host, port).
     seq (if host = ''0.0.0.0'' \<or> host = ''::'' then (case peer of None \<Rightarrow> fail DialRemote | Some h \<Rightarrow> ret h) else ret host) (\<lambda>h.
       open_relay resolves h port)))) Q (\<lambda>_ d'. \<not> dg_udp d') d1"
    if "read_full 2 sends = Some (m, s1)" "m ! 0 = 5" "m ! 1 = 0" "talking s1 greeting d1" for m s1 d1
    using that
    by (auto simp: wp_simps dial_socks_udp_def talking_def intro!: wp_seq last split: sum.split option.split)
  show ?thesis
    unfolding socks_udp_def Q_def [symmetric]
    by (rule wp_seq, unfold wp_dialling, rule conjI, simp add: assms idle_def, rule wp_or_close,
        rule wp_seq, rule wp_mono [OF wp_negotiate])
      (use assms rest in \<open>auto\<close>)
qed

section \<open>Copying in both directions\<close>

datatype side = Up | Down

text \<open>What the source still sends, what was delivered, and the result of the copy: its count and whether it failed.\<close>

record flow =
  fl_left :: bytes
  fl_sent :: bytes
  fl_done :: "(nat \<times> bool) option"

text \<open>
  Both copies, whether the connections are open, the channel, whose result the handler has, and what it
  returned.
\<close>

record relay =
  re_up :: flow
  re_down :: flow
  re_open :: bool
  re_chan :: "side list"
  re_first :: "side option"
  re_totals :: "(int \<times> int) option"

fun flow_of :: "side \<Rightarrow> relay \<Rightarrow> flow" where
  "flow_of Up r = re_up r"
| "flow_of Down r = re_down r"

fun put_flow :: "side \<Rightarrow> flow \<Rightarrow> relay \<Rightarrow> relay" where
  "put_flow Up f r = r\<lparr>re_up := f\<rparr>"
| "put_flow Down f r = r\<lparr>re_down := f\<rparr>"

definition relay_start :: "bytes \<Rightarrow> bytes \<Rightarrow> relay" where
  "relay_start client backend = (let fl = \<lambda>bs. \<lparr>fl_left = bs, fl_sent = [], fl_done = None\<rparr> in
     \<lparr>re_up = fl client, re_down = fl backend, re_open = True, re_chan = [], re_first = None, re_totals = None\<rparr>)"

text \<open>
  \<^verbatim>\<open>io.Copy\<close> reads \<open>n\<close> bytes and writes them; it writes fewer, which is an error; it reads the end; or it
  fails to read, as it does once the connections are closed. Its end is followed by \<^verbatim>\<open>closeWrite\<close> and the
  message. The handler receives twice.
\<close>

datatype relay_event = Copied side nat | Cut side nat nat | Ended side | Broke side | FirstDone | SecondDone

definition copy_ends :: "side \<Rightarrow> bool \<Rightarrow> flow \<Rightarrow> relay \<Rightarrow> relay" where
  "copy_ends s err fl r = (put_flow s (fl\<lparr>fl_done := Some (length (fl_sent fl), err)\<rparr>) r)\<lparr>re_chan := re_chan r @ [s]\<rparr>"

fun side_name :: "side \<Rightarrow> string" where
  "side_name Up = ''up''"
| "side_name Down = ''down''"

definition message :: "side \<Rightarrow> relay \<Rightarrow> string \<times> int" where
  "message s r = (side_name s, case fl_done (flow_of s r) of None \<Rightarrow> 0 | Some (n, _) \<Rightarrow> int n)"

fun relay_step :: "relay_event \<Rightarrow> relay \<Rightarrow> relay option" where
  "relay_step (Copied s n) r = (let fl = flow_of s r in
     if re_open r \<and> fl_done fl = None \<and> 1 \<le> n \<and> n \<le> length (fl_left fl)
     then Some (put_flow s (fl\<lparr>fl_left := drop n (fl_left fl), fl_sent := fl_sent fl @ take n (fl_left fl)\<rparr>) r) else None)"
| "relay_step (Cut s n k) r = (let fl = flow_of s r in
     if re_open r \<and> fl_done fl = None \<and> k < n \<and> n \<le> length (fl_left fl)
     then Some (copy_ends s True (fl\<lparr>fl_left := drop n (fl_left fl), fl_sent := fl_sent fl @ take k (fl_left fl)\<rparr>) r) else None)"
| "relay_step (Ended s) r = (let fl = flow_of s r in
     if re_open r \<and> fl_done fl = None \<and> fl_left fl = [] then Some (copy_ends s False fl r) else None)"
| "relay_step (Broke s) r = (let fl = flow_of s r in
     if fl_done fl = None then Some (copy_ends s True fl r) else None)"
| "relay_step FirstDone r = (case (re_first r, re_chan r) of
     (None, s # rest) \<Rightarrow> Some (r\<lparr>re_first := Some s, re_chan := rest,
       re_open := (case fl_done (flow_of s r) of Some (_, err) \<Rightarrow> re_open r \<and> \<not> err | None \<Rightarrow> re_open r)\<rparr>)
   | _ \<Rightarrow> None)"
| "relay_step SecondDone r = (case (re_first r, re_chan r) of
     (Some f, s # rest) \<Rightarrow> Some (r\<lparr>re_chan := rest, re_totals := Some (relay_totals (message f r) (message s r))\<rparr>)
   | _ \<Rightarrow> None)"

fun relay_run :: "relay_event list \<Rightarrow> relay \<Rightarrow> relay option" where
  "relay_run [] r = Some r"
| "relay_run (e # es) r = Option.bind (relay_step e r) (relay_run es)"

fun other :: "side \<Rightarrow> side" where
  "other Up = Down"
| "other Down = Up"

text \<open>A copy of \<open>source\<close>: what was delivered is a beginning of it, and all of it unless the copy failed.\<close>

definition flow_inv :: "bytes \<Rightarrow> flow \<Rightarrow> bool" where
  "flow_inv source fl \<longleftrightarrow> (case fl_done fl of None \<Rightarrow> source = fl_sent fl @ fl_left fl
     | Some (n, err) \<Rightarrow> n = length (fl_sent fl) \<and> (\<exists>rest. source = fl_sent fl @ rest) \<and> (\<not> err \<longrightarrow> fl_sent fl = source))"

definition relay_inv :: "bytes \<Rightarrow> bytes \<Rightarrow> relay \<Rightarrow> bool" where
  "relay_inv client backend r \<longleftrightarrow> flow_inv client (re_up r) \<and> flow_inv backend (re_down r) \<and> distinct (re_chan r) \<and>
     (case re_first r of
        None \<Rightarrow> re_totals r = None \<and> re_open r \<and> (\<forall>s. s \<in> set (re_chan r) \<longleftrightarrow> fl_done (flow_of s r) \<noteq> None)
      | Some f \<Rightarrow> (\<exists>n err. fl_done (flow_of f r) = Some (n, err) \<and> (re_open r \<longleftrightarrow> \<not> err)) \<and>
          (case re_totals r of
             None \<Rightarrow> re_chan r = (if fl_done (flow_of (other f) r) = None then [] else [other f])
           | Some t \<Rightarrow> re_chan r = [] \<and> fl_done (flow_of (other f) r) \<noteq> None \<and>
               t = (int (length (fl_sent (re_up r))), int (length (fl_sent (re_down r))))))"

lemma all_side: "(\<forall>s. P s) \<longleftrightarrow> P Up \<and> P Down"
  by (metis side.exhaust)

lemma relay_inv_start: "relay_inv client backend (relay_start client backend)"
  by (auto simp: relay_inv_def relay_start_def flow_inv_def Let_def all_side)

lemma sides: "distinct (s # rest) \<Longrightarrow> rest = [] \<or> rest = [other s]"
  by (cases s; cases rest; cases "hd rest"; cases "tl rest"; cases "hd (tl rest)") auto

lemma flow_copied:
  "flow_inv source fl \<Longrightarrow> fl_done fl = None \<Longrightarrow> flow_inv source (fl\<lparr>fl_left := drop n (fl_left fl), fl_sent := fl_sent fl @ take n (fl_left fl)\<rparr>)"
  by (simp add: flow_inv_def)

lemma flow_ended:
  "source = fl_sent fl @ rest \<Longrightarrow> (\<not> err \<Longrightarrow> rest = []) \<Longrightarrow> flow_inv source (fl\<lparr>fl_done := Some (length (fl_sent fl), err)\<rparr>)"
  by (auto simp: flow_inv_def)

lemma relay_inv_put:
  assumes "relay_inv client backend r" and "fl_done (flow_of s r) = None" and "fl_done fl = None"
    and "flow_inv (case s of Up \<Rightarrow> client | Down \<Rightarrow> backend) fl"
  shows "relay_inv client backend (put_flow s fl r)"
proof (cases "re_first r")
  case None
  with assms show ?thesis by (cases s) (simp_all add: relay_inv_def all_side)
next
  case (Some f)
  with assms have totals: "re_totals r = None" by (cases s; cases f) (auto simp: relay_inv_def split: option.splits)
  from Some assms totals show ?thesis by (cases s; cases f) (auto simp: relay_inv_def)
qed

lemma relay_inv_ends:
  assumes "relay_inv client backend r" and "fl_done (flow_of s r) = None"
    and "flow_inv (case s of Up \<Rightarrow> client | Down \<Rightarrow> backend) (fl\<lparr>fl_done := Some (length (fl_sent fl), err)\<rparr>)"
  shows "relay_inv client backend (copy_ends s err fl r)"
proof (cases "re_first r")
  case None
  with assms show ?thesis by (cases s) (auto simp: relay_inv_def all_side copy_ends_def)
next
  case (Some f)
  with assms have totals: "re_totals r = None" by (cases s; cases f) (auto simp: relay_inv_def split: option.splits)
  from Some assms totals show ?thesis by (cases s; cases f) (auto simp: relay_inv_def copy_ends_def)
qed

lemma relay_inv_flow: "relay_inv client backend r \<Longrightarrow> flow_inv (case s of Up \<Rightarrow> client | Down \<Rightarrow> backend) (flow_of s r)"
  by (cases s) (simp_all add: relay_inv_def)

lemma relay_inv_source:
  "relay_inv client backend r \<Longrightarrow> fl_done (flow_of s r) = None \<Longrightarrow>
   (case s of Up \<Rightarrow> client | Down \<Rightarrow> backend) = fl_sent (flow_of s r) @ fl_left (flow_of s r)"
  using relay_inv_flow [of client backend r s] by (simp add: flow_inv_def)

lemma message_of: "relay_inv client backend r \<Longrightarrow> fl_done (flow_of s r) \<noteq> None \<Longrightarrow> message s r = (side_name s, int (length (fl_sent (flow_of s r))))"
  using relay_inv_flow [of client backend r s] by (auto simp: flow_inv_def message_def)

lemma totals_of:
  "relay_inv client backend r \<Longrightarrow> fl_done (flow_of f r) \<noteq> None \<Longrightarrow> fl_done (flow_of (other f) r) \<noteq> None \<Longrightarrow>
   relay_totals (message f r) (message (other f) r) = (int (length (fl_sent (re_up r))), int (length (fl_sent (re_down r))))"
  by (cases f) (simp_all add: message_of relay_totals_def)

lemma relay_inv_step:
  assumes "relay_inv client backend r" and "relay_step e r = Some r'"
  shows "relay_inv client backend r'"
proof (cases e)
  case (Copied s n)
  with assms show ?thesis
    by (auto simp: Let_def intro!: relay_inv_put flow_copied relay_inv_flow split: if_splits)
next
  case (Cut s n k)
  let ?fl = "flow_of s r"
  have "fl_left ?fl = take k (fl_left ?fl) @ drop k (fl_left ?fl)" by simp
  with Cut assms show ?thesis
    using relay_inv_source [OF assms(1), of s]
    by (auto simp: Let_def intro!: relay_inv_ends flow_ended [where rest = "drop k (fl_left ?fl)"] split: if_splits)
next
  case (Ended s)
  with assms show ?thesis
    using relay_inv_source [OF assms(1), of s]
    by (auto simp: Let_def intro!: relay_inv_ends flow_ended [where rest = "[]"] split: if_splits)
next
  case (Broke s)
  with assms show ?thesis
    using relay_inv_source [OF assms(1), of s]
    by (auto simp: Let_def intro!: relay_inv_ends flow_ended [where rest = "fl_left (flow_of s r)"] split: if_splits)
next
  case FirstDone
  with assms obtain s rest where first: "re_first r = None" "re_chan r = s # rest"
    by (auto split: option.splits list.splits)
  with assms(1) have left: "distinct (s # rest)" "\<And>t. t \<in> set (s # rest) \<longleftrightarrow> fl_done (flow_of t r) \<noteq> None" "re_totals r = None" "re_open r"
    by (auto simp: relay_inv_def)
  have rest: "rest = (if fl_done (flow_of (other s) r) = None then [] else [other s])"
    using left(2) [of "other s"] sides [OF left(1)] by (cases s) auto
  obtain n err where "fl_done (flow_of s r) = Some (n, err)" using left(2) [of s] by auto
  moreover have "r' = r\<lparr>re_first := Some s, re_chan := rest, re_open := \<not> err\<rparr>"
    using assms(2) FirstDone first left(4) calculation by simp
  ultimately show ?thesis
    using assms(1) rest left(3) by (cases s) (simp_all add: relay_inv_def)
next
  case SecondDone
  with assms obtain f s rest where second: "re_first r = Some f" "re_chan r = s # rest"
    by (auto split: option.splits list.splits)
  with assms(1) have "re_totals r = None" by (auto simp: relay_inv_def split: option.splits)
  with second assms(1) have "s = other f" "rest = []" "fl_done (flow_of (other f) r) \<noteq> None"
    by (auto simp: relay_inv_def split: if_splits)
  moreover from second assms(1) have "fl_done (flow_of f r) \<noteq> None" by (auto simp: relay_inv_def)
  ultimately have "relay_totals (message f r) (message s r) = (int (length (fl_sent (re_up r))), int (length (fl_sent (re_down r))))"
    using totals_of [OF assms(1)] by simp
  with second SecondDone assms(2) \<open>rest = []\<close>
  have "r' = r\<lparr>re_chan := [], re_totals := Some (int (length (fl_sent (re_up r))), int (length (fl_sent (re_down r))))\<rparr>" by simp
  with assms(1) second \<open>s = other f\<close> \<open>fl_done (flow_of (other f) r) \<noteq> None\<close> \<open>re_totals r = None\<close> show ?thesis
    by (cases f) (simp_all add: relay_inv_def)
qed

lemma relay_inv_run: "relay_inv client backend r \<Longrightarrow> relay_run es r = Some r' \<Longrightarrow> relay_inv client backend r'"
proof (induction es arbitrary: r)
  case (Cons e es)
  then obtain r1 where "relay_step e r = Some r1" "relay_run es r1 = Some r'" by (auto simp: bind_eq_Some_conv)
  with Cons relay_inv_step show ?case by blast
qed simp

lemma relay_progress:
  assumes "relay_inv client backend r" and "re_totals r = None"
  shows "\<exists>e. relay_step e r \<noteq> None"
proof (cases "re_first r")
  case None
  have done_chan: "s \<in> set (re_chan r) \<longleftrightarrow> fl_done (flow_of s r) \<noteq> None" for s
    using assms(1) unfolding relay_inv_def None option.case by blast
  show ?thesis
  proof (cases "re_chan r")
    case Nil
    then have "fl_done (flow_of Up r) = None" using done_chan [of Up] by (cases "fl_done (flow_of Up r)") auto
    then have "relay_step (Broke Up) r \<noteq> None" by (simp add: Let_def)
    then show ?thesis by blast
  next
    case (Cons s rest)
    with None have "relay_step FirstDone r \<noteq> None" by simp
    then show ?thesis by blast
  qed
next
  case (Some f)
  show ?thesis
  proof (cases "fl_done (flow_of (other f) r)")
    case None
    then have "relay_step (Broke (other f)) r \<noteq> None" by (simp add: Let_def)
    then show ?thesis by blast
  next
    case (Some x)
    with \<open>re_first r = Some f\<close> assms have "relay_step SecondDone r \<noteq> None" by (simp add: relay_inv_def)
    then show ?thesis by blast
  qed
qed

text \<open>What is left to do once the connections are closed.\<close>

definition pending :: "relay \<Rightarrow> nat" where
  "pending r = (if fl_done (re_up r) = None then 1 else 0) + (if fl_done (re_down r) = None then 1 else 0) +
     (if re_totals r = None then 1 else 0)"

lemma pending_step:
  assumes "relay_inv client backend r" and "\<not> re_open r" and "relay_step e r = Some r'"
  shows "\<not> re_open r' \<and> pending r' < pending r"
proof (cases e)
  case (Broke s)
  with assms show ?thesis by (cases s) (auto simp: Let_def copy_ends_def pending_def split: if_splits)
next
  case FirstDone
  with assms show ?thesis by (auto simp: relay_inv_def split: option.splits list.splits)
next
  case SecondDone
  with assms show ?thesis by (auto simp: relay_inv_def pending_def split: option.splits list.splits)
qed (use assms in \<open>auto simp: Let_def split: if_splits\<close>)

lemma pending_run:
  "relay_inv client backend r \<Longrightarrow> \<not> re_open r \<Longrightarrow> relay_run es r = Some r' \<Longrightarrow> length es \<le> pending r"
proof (induction es arbitrary: r)
  case (Cons e es)
  then obtain r1 where r1: "relay_step e r = Some r1" "relay_run es r1 = Some r'" by (auto simp: bind_eq_Some_conv)
  with Cons.IH [of r1] Cons.prems relay_inv_step [OF Cons.prems(1) r1(1)] pending_step [OF Cons.prems(1,2) r1(1)]
  show ?case by fastforce
qed simp

lemma pending_closed: "relay_inv client backend r \<Longrightarrow> \<not> re_open r \<Longrightarrow> pending r \<le> 2"
  by (cases "re_first r"; cases "the (re_first r)") (auto simp: relay_inv_def pending_def)





end
