(* ===== verification/Proxy_Run.thy ===== *)
theory Proxy_Run
  imports Gateway Tcp_Relay
begin

text \<open>
  \<^verbatim>\<open>RunCompiledReady\<close> of \<^verbatim>\<open>internal/quic/gateway.go\<close> with the accept and read loops of its two listeners, and the
  first steps of a TCP connection: its original destination and its first bytes.
\<close>

section \<open>The listeners\<close>

text \<open>
  Which listeners are open, and which were when readiness was reported. The error that the first of
  the two loops ends with is \<open>ended\<close>.
\<close>

record listeners =
  ls_tcp :: bool
  ls_udp :: bool
  ls_ready :: "(bool \<times> bool) option"

datatype run_error = NoTcpExit route_error | ListenFailed | LoopEnded string

type_synonym 'a run_act = "(listeners, run_error, 'a) act"

definition listen_tcp :: "config \<Rightarrow> unit run_act" where
  "listen_tcp c = (case tcp_gateway_exit c of Inl e \<Rightarrow> fail (NoTcpExit e)
     | Inr _ \<Rightarrow> call ListenFailed (\<lambda>s. (Inr (), s\<lparr>ls_tcp := True\<rparr>)))"

definition listen_udp :: "unit run_act" where
  "listen_udp = call ListenFailed (\<lambda>s. (Inr (), s\<lparr>ls_udp := True\<rparr>))"

definition report_and_wait :: "string \<Rightarrow> unit run_act" where
  "report_and_wait ended = seq (modify (\<lambda>s. s\<lparr>ls_ready := Some (ls_tcp s, ls_udp s)\<rparr>)) (\<lambda>_. fail (LoopEnded ended))"

definition run_compiled_ready :: "config \<Rightarrow> string \<Rightarrow> unit run_act" where
  "run_compiled_ready c ended = seq (listen_tcp c) (\<lambda>_. deferred (modify (\<lambda>s. s\<lparr>ls_tcp := False\<rparr>))
     (if nw_quic_policy (cf_network c) = ''proxy''
      then seq listen_udp (\<lambda>_. deferred (modify (\<lambda>s. s\<lparr>ls_udp := False\<rparr>)) (report_and_wait ended))
      else report_and_wait ended))"

text \<open>
  However a run ends, both listeners are closed; it reported readiness exactly if it got as far as its
  loops, and then every listener of its configuration was open.
\<close>

lemma run_closes_listeners:
  assumes "run_compiled_ready c ended (\<lparr>ls_tcp = False, ls_udp = False, ls_ready = None\<rparr>, fs) = (r, s, fs')"
  shows "\<not> ls_tcp s \<and> \<not> ls_udp s \<and> r \<noteq> Inr () \<and>
    (if r = Inl (LoopEnded ended) then ls_ready s = Some (True, nw_quic_policy (cf_network c) = ''proxy'') else ls_ready s = None)"
proof -
  have "wp (run_compiled_ready c ended) (\<lambda>_ _. False) (\<lambda>e s. \<not> ls_tcp s \<and> \<not> ls_udp s \<and>
      (if e = LoopEnded ended then ls_ready s = Some (True, nw_quic_policy (cf_network c) = ''proxy'') else ls_ready s = None))
      \<lparr>ls_tcp = False, ls_udp = False, ls_ready = None\<rparr>"
    unfolding run_compiled_ready_def listen_tcp_def listen_udp_def report_and_wait_def
    by (auto simp: wp_simps wp_call intro!: wp_seq wp_deferred split: sum.split)
  from wp_run [OF this assms] show ?thesis by (cases r) auto
qed

section \<open>The loops\<close>

text \<open>
  One turn of a loop: the deadline cannot be set; nothing arrived for a second, and the context is over
  or not; the call failed; or something arrived.
\<close>

datatype 'a turn = NoDeadline | Quiet bool | Failed | Arrived 'a

datatype loop_end = DeadlineError | ContextOver | CallFailed

text \<open>The connections that get a goroutine, and the end of the loop, \<open>None\<close> while it goes on.\<close>

fun tcp_serve :: "'a turn list \<Rightarrow> 'a list \<times> loop_end option" where
  "tcp_serve [] = ([], None)"
| "tcp_serve (NoDeadline # ts) = ([], Some DeadlineError)"
| "tcp_serve (Quiet over # ts) = (if over then ([], Some ContextOver) else tcp_serve ts)"
| "tcp_serve (Failed # ts) = ([], Some CallFailed)"
| "tcp_serve (Arrived conn # ts) = (let (conns, e) = tcp_serve ts in (conn # conns, e))"

text \<open>A packet of a known client is forwarded, any other starts a session; \<open>now\<close> is the time of arrival. The
  steps of the other goroutines, which \<open>gw_step\<close> has, are left out here.
\<close>

fun gw_serve :: "(string \<times> int \<times> bytes) turn list \<Rightarrow> gw \<Rightarrow> ((string \<times> bytes) list \<times> loop_end option) \<times> gw" where
  "gw_serve [] g = (([], None), g)"
| "gw_serve (NoDeadline # ts) g = (([], Some DeadlineError), g)"
| "gw_serve (Quiet over # ts) g = (if over then (([], Some ContextOver), g) else gw_serve ts g)"
| "gw_serve (Failed # ts) g = (([], Some CallFailed), g)"
| "gw_serve (Arrived (key, now, data) # ts) g = (case gw_forward key now g of
     (Some _, g1) \<Rightarrow> gw_serve ts g1
   | (None, g1) \<Rightarrow> (let ((fresh, e), g2) = gw_serve ts g1 in (((key, data) # fresh, e), g2)))"

text \<open>Only clients without a session start one.\<close>

lemma gw_serve_fresh:
  "(key, data) \<in> set (fst (fst (gw_serve ts g))) \<Longrightarrow> gw_table g key = None"
proof (induction ts g rule: gw_serve.induct)
  case (5 k now d ts g)
  have same: "gw_table (snd (gw_forward k now g)) = gw_table g"
    by (simp add: gw_forward_def update_session_def split: option.split)
  show ?case
  proof (cases "gw_forward k now g")
    case (Pair x g1)
    then have "gw_table g1 = gw_table g" "x = None \<Longrightarrow> gw_table g k = None"
      using same by (auto simp: gw_forward_def split: option.splits)
    with 5 Pair show ?thesis by (cases x) (auto split: prod.splits)
  qed
qed (auto split: if_splits)

text \<open>
  \<^verbatim>\<open>close\<close> empties the table once. A session that was being dialled at that moment enters it afterwards,
  open, when neither the read loop nor the idle collector runs any more.
\<close>

lemma insert_after_close:
  "gw_table (gw_insert k now (gw_close g)) k = Some (length (gw_sessions g)) \<and>
    se_open (gw_sessions (gw_insert k now (gw_close g)) ! length (gw_sessions g))"
  by (simp add: gw_insert_def gw_close_def nth_append)

section \<open>The beginning of a TCP connection\<close>

text \<open>\<^verbatim>\<open>readInitialTCP\<close>: the bytes count even if the read also reports an error.\<close>

definition read_initial_tcp :: "bool \<Rightarrow> bytes \<Rightarrow> bytes option" where
  "read_initial_tcp deadline_ok available =
     (if \<not> deadline_ok then None
      else let got = take tcp_sniff_bytes available in if got \<noteq> [] then Some got else None)"

text \<open>
  \<^verbatim>\<open>getOriginalDst\<close>: the answer of \<^verbatim>\<open>getsockopt\<close>, its family, port and address; the port is in network order in
  a field that the processor reads in its own.
\<close>

definition original_dst :: "(nat \<times> 16 word \<times> bytes) option \<Rightarrow> (bytes \<times> int) option" where
  "original_dst answer = (case answer of None \<Rightarrow> None
     | Some (family, port, a) \<Rightarrow> if family \<noteq> 2 then None
       else Some (v4_prefix @ a, uint (or (push_bit 8 (and port 0xff)) (drop_bit 8 port))))"

text \<open>On a processor that reads the low byte first, the port is the number the two bytes stand for.\<close>

lemma original_dst_port:
  fixes hi lo :: byte
  shows "original_dst (Some (2, or (ucast hi) (push_bit 8 (ucast lo)), a)) = Some (v4_prefix @ a, int (be16 [hi, lo]))"
proof -
  let ?p = "or (ucast hi) (push_bit 8 (ucast lo)) :: 16 word"
  have low: "and w 0xff = take_bit 8 w" for w :: "16 word"
    by (simp add: take_bit_eq_mask mask_eq_exp_minus_1)
  have swap: "or (push_bit 8 (and ?p 0xff)) (drop_bit 8 ?p) = or (push_bit 8 (ucast hi)) (ucast lo)"
    unfolding low by (rule bit_word_eqI) (auto simp: bit_simps dest: bit_imp_le_length)
  have "uint (push_bit 8 (ucast hi) :: 16 word) = push_bit 8 (uint hi)"
    using uint_lt2p [of hi] by (simp only: unsigned_push_bit_eq unsigned_ucast_eq) (simp add: take_bit_int_eq_self push_bit_eq_mult)
  moreover have "uint (ucast lo :: 16 word) = take_bit 8 (uint lo)"
    using uint_lt2p [of lo] by (simp add: unsigned_ucast_eq take_bit_int_eq_self)
  ultimately have "uint (or (push_bit 8 (ucast hi)) (ucast lo) :: 16 word) = concat_bit 8 (uint lo) (uint hi)"
    by (simp only: unsigned_or_eq concat_bit_def or.commute)
  then have "uint (or (push_bit 8 (ucast hi)) (ucast lo) :: 16 word) = 256 * uint hi + uint lo"
    using uint_lt2p [of lo] by (simp add: concat_bit_eq take_bit_int_eq_self push_bit_eq_mult)
  then show ?thesis by (simp only: original_dst_def option.case prod.case swap) (simp add: be16_def)
qed

end
