(* ===== verification/Daemon_Metrics.thy ===== *)
theory Daemon_Metrics
  imports Engine_Probes Store_Props
begin

text \<open>
  \<^verbatim>\<open>collectMetrics\<close> of \<^verbatim>\<open>internal/daemon/daemon.go\<close>: every ten seconds the figures of the dashboard are collected and
  stored, and the errors only logged. The theorem bounds the table this fills.
\<close>

text \<open>One turn of the loop: the machine, the running processes, the active configuration if it was read, the clock of the store.\<close>

record metrics_turn =
  mt_probe :: probe_env
  mt_arrival :: "nat list"
  mt_pids :: "nat list"
  mt_config :: "config option"
  mt_now :: int

definition metrics_turn_act :: "64 word \<Rightarrow> (engine_metrics \<Rightarrow> string option) \<Rightarrow> metrics_turn \<Rightarrow> unit store_act" where
  "metrics_turn_act page enc t = (case mt_config t of None \<Rightarrow> ret ()
     | Some cfg \<Rightarrow> (let m = collect_metrics (mt_probe t) page (mt_arrival t) (mt_pids t) cfg in
         seq (attempt (put_metric (mt_now t) (em_timestamp m) (enc m))) (\<lambda>_. ret ())))"

text \<open>The turns until the context ends.\<close>

fun metrics_loop :: "64 word \<Rightarrow> (engine_metrics \<Rightarrow> string option) \<Rightarrow> metrics_turn list \<Rightarrow> unit store_act" where
  "metrics_loop page enc [] = ret ()"
| "metrics_loop page enc (t # ts) = seq (metrics_turn_act page enc t) (\<lambda>_. metrics_loop page enc ts)"

definition day :: int where
  "day = 24 * 60 * 60"

text \<open>The rows of one day up to \<open>m\<close>, at most one for each second.\<close>

definition of_one_day :: "int \<Rightarrow> (int \<times> string) list \<Rightarrow> bool" where
  "of_one_day m rows \<longleftrightarrow> distinct (map fst rows) \<and> fst ` set rows \<subseteq> {m - day..m}"

lemma of_one_day_length: "of_one_day m rows \<Longrightarrow> length rows \<le> 86401"
proof -
  assume rows: "of_one_day m rows"
  have "length rows = card (fst ` set rows)"
    using rows distinct_card [of "map fst rows"] by (simp add: of_one_day_def)
  also have "\<dots> \<le> card {m - day..m}" using rows by (intro card_mono) (auto simp: of_one_day_def)
  finally show ?thesis by (simp add: day_def)
qed

lemma of_one_day_put:
  assumes "of_one_day m rows" and "m \<le> now" and "ts \<le> now"
  shows "of_one_day now (filter (\<lambda>r. \<not> fst r < now - 24 * 60 * 60) (sql_replace_metric ts p rows))"
  using assms
  by (auto simp: of_one_day_def sql_replace_metric_def day_def distinct_map inj_on_def)

lemma em_timestamp_collect: "em_timestamp (collect_metrics en page arrival pids cfg) = pe_now en div 10 ^ 9"
  by (simp add: collect_metrics_def collect_dot_metrics_def add_dot_def Let_def split: option.split prod.split)

lemma wp_metrics_turn:
  assumes "of_one_day m (db_metrics d)" and "m \<le> mt_now t" and "pe_now (mt_probe t) div 10 ^ 9 \<le> mt_now t"
  shows "wp (metrics_turn_act page enc t)
    (\<lambda>_ d'. d' = d\<lparr>db_metrics := db_metrics d'\<rparr> \<and> (\<exists>m'. m' \<le> mt_now t \<and> of_one_day m' (db_metrics d'))) (\<lambda>_ _. False) d"
proof -
  have put: "wp (put_metric (mt_now t) ts p) (\<lambda>_ d'. d' = d\<lparr>db_metrics := db_metrics d'\<rparr> \<and> of_one_day (mt_now t) (db_metrics d'))
      (\<lambda>_ d'. d' = d) d" if "ts \<le> mt_now t" for ts p
    using of_one_day_put [OF assms(1,2) that]
    by (auto simp: put_metric_def wp_simps wp_call intro!: wp_transaction wp_seq split: option.split)
  show ?thesis
    using assms
    by (auto simp: metrics_turn_act_def Let_def wp_simps em_timestamp_collect
        intro!: wp_seq wp_attempt wp_mono [OF put] split: option.split)
qed

lemma wp_metrics_loop:
  "of_one_day m (db_metrics d) \<Longrightarrow> sorted (m # map mt_now ts) \<Longrightarrow> (\<And>t. t \<in> set ts \<Longrightarrow> pe_now (mt_probe t) div 10 ^ 9 \<le> mt_now t) \<Longrightarrow>
   wp (metrics_loop page enc ts) (\<lambda>_ d'. d' = d\<lparr>db_metrics := db_metrics d'\<rparr> \<and> (\<exists>m'. of_one_day m' (db_metrics d'))) (\<lambda>_ _. False) d"
proof (induction ts arbitrary: m d)
  case Nil
  then show ?case by (auto simp: wp_simps)
next
  case (Cons t ts)
  have rest: "wp (metrics_loop page enc ts) (\<lambda>_ d2. d2 = d\<lparr>db_metrics := db_metrics d2\<rparr> \<and> (\<exists>m'. of_one_day m' (db_metrics d2))) (\<lambda>_ _. False) d1"
    if "d1 = d\<lparr>db_metrics := db_metrics d1\<rparr>" "m' \<le> mt_now t" "of_one_day m' (db_metrics d1)" for d1 m'
  proof -
    have "sorted (m' # map mt_now ts)" using Cons.prems(2) that(2) by auto
    from Cons.IH [OF that(3) this] Cons.prems(3)
    have "wp (metrics_loop page enc ts) (\<lambda>_ d2. d2 = d1\<lparr>db_metrics := db_metrics d2\<rparr> \<and> (\<exists>m'. of_one_day m' (db_metrics d2))) (\<lambda>_ _. False) d1"
      by simp
    then show ?thesis by (rule wp_mono) (subst (asm) that(1), auto)
  qed
  have "wp (metrics_turn_act page enc t)
    (\<lambda>_ d1. d1 = d\<lparr>db_metrics := db_metrics d1\<rparr> \<and> (\<exists>m'. m' \<le> mt_now t \<and> of_one_day m' (db_metrics d1))) (\<lambda>_ _. False) d"
    using Cons.prems by (intro wp_metrics_turn) auto
  then show ?case
    by (simp only: metrics_loop.simps, intro wp_seq, elim wp_mono) (auto intro: rest)
qed

text \<open>
  Claim C40. The metrics loop never fails and touches no other table, whatever statements fail and whatever
  the probes find. While the clock does not go back, the table holds at most one row for each second of
  one day, so never more than 86401 rows.
\<close>

theorem metrics_table_bounded:
  assumes "of_one_day m (db_metrics d)" and "sorted (m # map mt_now ts)"
    and "\<forall>t \<in> set ts. pe_now (mt_probe t) div 10 ^ 9 \<le> mt_now t"
    and "metrics_loop page enc ts (d, fs) = (r, d', fs')"
  shows "r = Inr () \<and> d' = d\<lparr>db_metrics := db_metrics d'\<rparr> \<and> distinct (map fst (db_metrics d')) \<and> length (db_metrics d') \<le> 86401"
proof -
  have "wp (metrics_loop page enc ts) (\<lambda>_ d'. d' = d\<lparr>db_metrics := db_metrics d'\<rparr> \<and> (\<exists>m'. of_one_day m' (db_metrics d'))) (\<lambda>_ _. False) d"
    using assms by (intro wp_metrics_loop) auto
  from wp_run [OF this assms(4)] obtain m' where "r = Inr ()" "d' = d\<lparr>db_metrics := db_metrics d'\<rparr>" "of_one_day m' (db_metrics d')"
    by (cases r) auto
  with of_one_day_length [OF this(3)] show ?thesis by (simp add: of_one_day_def)
qed

definition sample_turn :: "int \<Rightarrow> metrics_turn" where
  "sample_turn now = \<lparr>mt_probe = sample_probe_env, mt_arrival = [0, 1], mt_pids = [], mt_config = Some sample_probe_config, mt_now = now\<rparr>"

theorem metrics_table_bounded_witness:
  "\<exists>d'. metrics_loop 4096 (\<lambda>_. Some ''{}'') [sample_turn 3, sample_turn 12] (empty_db, [True]) = (Inr (), d', []) \<and>
     map fst (db_metrics d') = [0] \<and> length (db_metrics d') \<le> 86401"
proof -
  define x where "x = metrics_loop 4096 (\<lambda>_. Some ''{}'') [sample_turn 3, sample_turn 12] (empty_db, [True])"
  have "snd (snd x) = []" "map fst (db_metrics (fst (snd x))) = [0]" unfolding x_def by code_simp+
  moreover obtain r d' fs' where run: "x = (r, d', fs')" by (cases x)
  moreover have "of_one_day 0 (db_metrics empty_db)" by (simp add: of_one_day_def empty_db_def)
  moreover have "\<forall>t \<in> set [sample_turn 3, sample_turn 12]. pe_now (mt_probe t) div 10 ^ 9 \<le> mt_now t" "sorted (0 # map mt_now [sample_turn 3, sample_turn 12])"
    by (simp_all add: sample_turn_def sample_probe_env_def)
  ultimately show ?thesis
    using metrics_table_bounded [of 0 empty_db "[sample_turn 3, sample_turn 12]" 4096 "\<lambda>_. Some ''{}''" "[True]" r d' fs'] by (simp add: x_def)
qed

end
