(* ===== verification/Spec2Isabelle.thy ===== *)
theory Spec2Isabelle
  imports Matching Normalize Managed Rule_Import Render_Props Sni_Props Routing Log_Buffer Store_Props
    Supervisor_Props Daemon_Run Api_Props Install Engine_Probes Cli
    Proxy_Run Daemon_Metrics
begin

text \<open>
  5gws is a gateway that steers traffic by domain name: a configuration and a list of rules decide for
  each domain whether DNS answers with the gateway's address, and through which exit the gateway then
  forwards the connection. A daemon stores revisions of configuration and rules in SQLite, renders them
  into files for \<^verbatim>\<open>smartdns\<close>, \<^verbatim>\<open>nftables\<close> and \<^verbatim>\<open>shadowsocks-rust\<close>, runs these as child processes next to its
  own QUIC gateway and TCP proxy, and offers an HTTP interface for changing all of it.

  Every definition translates code under \<^verbatim>\<open>src/internal\<close>. The parts, from the inside out:

  \<^item> \<^bold>\<open>Language and library.\<close> \<open>Go_Prelude\<close> (results with panics, slices, the functions of \<^verbatim>\<open>strings\<close> on byte
    strings), \<open>Go_Net\<close> (\<^verbatim>\<open>strconv\<close>, IP addresses, CIDR, host and port), \<open>Go_Base64\<close>, \<open>Go_Path\<close>.
  \<^item> \<^bold>\<open>Rules\<close> (\<^verbatim>\<open>rules/rules.go\<close>, \<^verbatim>\<open>managed.go\<close>, \<^verbatim>\<open>resolver.go\<close>, \<^verbatim>\<open>compiled.go\<close>). \<open>Rules\<close> holds the types, the checks and
    the reference matcher, \<open>Rule_Import\<close> the parsers of downloaded rule sets and the cache protocol
    (the locale \<open>import_cache\<close> is the interface, the database its provider), \<open>Managed\<close> the entries the
    program keeps in every rule file, \<open>Normalize\<close> the order in which sources become one rule list,
    \<open>Compiled\<close> the suffix trie (the locale \<open>rank_index\<close> is the contract of an index), \<open>Matching\<close> the proof
    that the compiled matcher finds the first rule of the reference matcher.
  \<^item> \<^bold>\<open>Configuration\<close> (\<^verbatim>\<open>config/config.go\<close>). \<open>Config\<close> has the records and the defaults, \<open>Config_Validate\<close> the checks.
  \<^item> \<^bold>\<open>Rendering\<close> (\<^verbatim>\<open>render/*.go\<close>, \<^verbatim>\<open>smartdns/smartdns.go\<close>, \<^verbatim>\<open>ssrust/ssrust.go\<close>). \<open>Smartdns\<close> (the plan of domain
    rules and its agreement with the matcher), \<open>Ssrust\<close>, \<open>Render\<close>, \<open>Render_Templates\<close>, \<open>Render_Props\<close>.
  \<^item> \<^bold>\<open>Data plane\<close> (\<^verbatim>\<open>quic/*.go\<close>). \<open>Sni\<close> and \<open>Sni_Props\<close> (the server name of a QUIC Initial packet, over
    abstract HKDF, AES and GCM), \<open>Socks\<close> (the framing of the UDP relay), \<open>Gateway\<close> (the session table
    with its goroutines as steps), \<open>Tcp_Proxy\<close> and \<open>Routing\<close> (sniffing and the choice of the exit),
    \<open>Tcp_Relay\<close> (dials through a proxy over failing calls, and the two copies of a connection as steps),
    \<open>Proxy_Run\<close> (the listeners, their loops and the beginning of a connection).
  \<^item> \<^bold>\<open>Engine\<close> (\<^verbatim>\<open>engine/logs.go\<close>, \<^verbatim>\<open>supervisor.go\<close>). \<open>Log_Buffer\<close> refines a ring buffer to the list of what was
    written; \<open>Supervisor\<close> and \<open>Supervisor_Props\<close> model the generations of processes and the switch from
    one to the next.
    \<open>Engine_Probes\<close> has the wait for a new DNS service and the figures of the dashboard (\<^verbatim>\<open>readiness.go\<close>,
    \<^verbatim>\<open>metrics.go\<close>), \<open>Diagnostics\<close> (\<^verbatim>\<open>diagnostics/*.go\<close>) the probes of upstreams, exits and DoT listeners.
  \<^item> \<^bold>\<open>Store\<close> (\<^verbatim>\<open>store/store.go\<close>). \<open>Bundle\<close> (the value that is stored, with its JSON), \<open>Store\<close> (the tables and
    the operations), \<open>Store_Props\<close> (the invariant of the database).
  \<^item> \<^bold>\<open>Service\<close> (\<^verbatim>\<open>service/*.go\<close>). \<open>Service\<close> is generic in the runtime, as the code is in its interface;
    \<open>Service_Props\<close> states the contract of a runtime as the locale \<open>revision_runtime\<close> and derives what an
    apply promises; \<open>Daemon_Service\<close> interprets it with the supervisor, as \<^verbatim>\<open>daemon.Run\<close> wires them.
  \<^item> \<^bold>\<open>Daemon\<close> (\<^verbatim>\<open>daemon/daemon.go\<close>). \<open>Daemon_Start\<close> goes from the opened database to a linked service (what
    the properties of an apply start from); \<open>Daemon_Run\<close> adds the two waits around the confirmation of an
    update and the deferred stop and roll-back, on every way out; \<open>Daemon_Metrics\<close> is the loop that fills
    the table of figures.
  \<^item> \<^bold>\<open>Access\<close> (\<^verbatim>\<open>auth/auth.go\<close>, \<^verbatim>\<open>api/*.go\<close>). \<open>Auth\<close> (users, sessions, passwords on the tables of the store),
    \<open>Login_Limiter\<close>, \<open>Apply_Coordinator\<close> (one apply at a time, requests interleaved with the goroutine),
    \<open>Active_Rules\<close> (the summary of the active rules), \<open>Ios\<close> (the profile), \<open>Api\<close> (requests, the route
    table, the middleware), \<open>Api_Handlers\<close> (every handler, and the chain a request goes through),
    \<open>Api_Props\<close> (what the chain guards).
  \<^item> \<^bold>\<open>Host\<close> (\<^verbatim>\<open>updater/updater.go\<close>, \<^verbatim>\<open>checksum/checksum.go\<close>, \<^verbatim>\<open>installer/installer.go\<close>). \<open>Updater\<close> replaces the
    binary, with its backup and the record that lets the next start confirm or undo it; \<open>Checksum\<close> reads
    checksum files, \<open>Installer\<close> installs the third-party runtimes from checked archives.
  \<^item> \<^bold>\<open>Set-up\<close> (\<^verbatim>\<open>app/certificate_deploy.go\<close>, \<^verbatim>\<open>app/install.go\<close>). \<open>Certificates\<close> gives the machine owners, modes,
    databases and a log of commands, and deploys a renewed certificate; \<open>Install\<close> asks the questions,
    builds the first configuration, resumes or initialises, and removes the service. \<open>Cli\<close>
    (\<^verbatim>\<open>app/app.go\<close>, \<^verbatim>\<open>client/client.go\<close>) has the commands and their requests, served by \<open>Api\<close> over a control
    socket without a session.

  \<^bold>\<open>Failure.\<close> \<open>Fallible\<close> is the monad of everything that talks to the database, the file system or a
  process: an action takes a schedule of faults, one for each call that can fail, and a theorem over all
  schedules is one over all patterns of failure. Weakest preconditions with a postcondition for errors,
  preserved predicates and possible outcomes are its three calculi. A Go panic is the value \<open>Panic\<close>.

  \<^bold>\<open>Concurrency.\<close> Where the code holds a lock an operation is one step; what it does without the lock is
  split into steps that interleave: the sessions of the gateway (\<open>gw_step\<close>), the apply coordinator
  (\<open>co_reach\<close>), the copies of a relayed connection
  (\<open>relay_step\<close>), the exits of processes (\<open>group_exited\<close>).

  \<^bold>\<open>Bounds.\<close> No model runs on fuel that can end early: loops are structural or have a measure, the loops
  over a buffer or a packet carry its remaining length. The wait for the DNS service, which may run for
  ever, is a partial function, with a theorem for when it returns.

  \<^bold>\<open>Parameters.\<close> Code outside the repository is an argument: the \<^verbatim>\<open>regexp\<close> engine, \<^verbatim>\<open>url.Parse\<close>, SHA-1 and
  SHA-256, HKDF, AES and GCM, \<^verbatim>\<open>bcrypt\<close>, \<^verbatim>\<open>uuid.Parse\<close>, \<^verbatim>\<open>reflect.DeepEqual\<close>, \<^verbatim>\<open>x509\<close>, the system commands, the
  HTTP server that answers an import.

  \<^bold>\<open>Not modelled.\<close> The parsing of flags and the usage text; sockets and their options are I/O; the TOML
  codec, the DNS messages on the wire and TLS are third-party.
\<close>

end
